(* ===== verification/Prelude.thy ===== *)
theory Prelude
  imports Main "HOL-Library.Word" "HOL-Library.Sublist" "HOL-Library.Char_ord" "HOL-Library.List_Lexorder"
begin

text \<open>
  Shared vocabulary of the development: bytes and byte strings, machine integers of the
  Go program, error values, the named collections of facts the component theories fill,
  and the generic list lemmas they share.

  A Go \<open>[]byte\<close> and a Go \<open>string\<close> are both lists of bytes; Isabelle's type
  \<open>char\<close> has exactly 256 values, so both are \<open>string\<close> here and \<open>length\<close>
  counts bytes as \<open>len\<close> does.
\<close>

type_synonym bytes = string

named_theorems inv_intros \<open>introduction rules of the component invariants\<close>
named_theorems op_defs \<open>definitions of the operations of the components\<close>
named_theorems frame_simps \<open>what an operation leaves unchanged\<close>

subsection \<open>Machine integers\<close>

text \<open>
  Go's \<open>int64\<close> (and \<open>int\<close> on the 64-bit targets) wraps around. \<open>i64\<close> is the
  two's complement reading of an integer, \<open>i32\<close> and \<open>u32\<close> are the 32-bit conversions.
\<close>

definition i64 :: "int \<Rightarrow> int" where
  "i64 x = (x + 9223372036854775808) mod 18446744073709551616 - 9223372036854775808"

definition i32 :: "int \<Rightarrow> int" where
  "i32 x = (x + 2147483648) mod 4294967296 - 2147483648"

definition u32 :: "int \<Rightarrow> int" where
  "u32 x = x mod 4294967296"

lemma i64_range: "- (2 ^ 63) \<le> i64 x \<and> i64 x < 2 ^ 63"
  by (simp add: i64_def)

lemma i64_id: "- (2 ^ 63) \<le> x \<Longrightarrow> x < 2 ^ 63 \<Longrightarrow> i64 x = x"
  by (simp add: i64_def)

lemma i64_add_left: "i64 (i64 x + y) = i64 (x + y)"
  by (simp add: i64_def mod_simps algebra_simps)

type_synonym duration = int \<comment> \<open>time.Duration: nanoseconds\<close>

definition nanosecond :: duration where "nanosecond = 1"
definition millisecond :: duration where "millisecond = 1000000"
definition second :: duration where "second = 1000000000"
definition minute :: duration where "minute = 60000000000"
definition hour :: duration where "hour = 3600000000000"

lemmas duration_defs = nanosecond_def millisecond_def second_def minute_def hour_def

subsection \<open>Errors\<close>

text \<open>
  Go error values. \<open>Wrap p e\<close> is \<open>fmt.Errorf(p + ": %w", e)\<close> and \<open>WrapTail e s\<close> is
  \<open>fmt.Errorf("%w" + s, e)\<close>; the sentinels are
  the ones the program compares against (\<open>context.DeadlineExceeded\<close>,
  \<open>context.Canceled\<close>, \<open>io.EOF\<close>, \<open>serialconsole.ErrClosed\<close>).
\<close>

datatype goerr =
    Deadline
  | Canceled
  | EOF_err
  | ErrClosed
  | Err string
  | Wrap string goerr
  | WrapTail goerr string

fun err_text :: "goerr \<Rightarrow> string" where
  "err_text Deadline = ''context deadline exceeded''"
| "err_text Canceled = ''context canceled''"
| "err_text EOF_err = ''EOF''"
| "err_text ErrClosed = ''serialconsole: closed''"
| "err_text (Err s) = s"
| "err_text (Wrap p e) = p @ '': '' @ err_text e"
| "err_text (WrapTail e s) = err_text e @ s"

text \<open>\<open>errors.Is\<close>: the target, or what it wraps.\<close>

fun err_is :: "goerr \<Rightarrow> goerr \<Rightarrow> bool" where
  "err_is (Wrap p e) t = (Wrap p e = t \<or> err_is e t)"
| "err_is (WrapTail e s) t = (WrapTail e s = t \<or> err_is e t)"
| "err_is e t = (e = t)"

lemma err_is_refl [simp]: "err_is e e"
  by (cases e) auto

subsection \<open>Lists\<close>

text \<open>The last \<open>n\<close> elements of a list.\<close>

definition last_n :: "nat \<Rightarrow> 'a list \<Rightarrow> 'a list" where
  "last_n n xs = drop (length xs - n) xs"

lemma length_last_n [simp]: "length (last_n n xs) = min n (length xs)"
  by (simp add: last_n_def)

lemma last_n_all: "length xs \<le> n \<Longrightarrow> last_n n xs = xs"
  by (simp add: last_n_def)

lemma last_n_0 [simp]: "last_n 0 xs = []"
  by (simp add: last_n_def)

lemma last_n_Nil [simp]: "last_n n [] = []"
  by (simp add: last_n_def)

lemma last_n_suffix: "suffix (last_n n xs) xs"
  by (simp add: last_n_def suffix_drop)

lemma last_n_append:
  "last_n n (xs @ ys) = (if n \<le> length ys then last_n n ys else last_n (n - length ys) xs @ ys)"
  by (auto simp: last_n_def)

lemma last_n_min_length: "last_n (min (length xs) k) xs = last_n k xs"
  by (auto simp: last_n_def min_def)

lemma last_n_last_n: "last_n m (last_n n xs) = last_n (min m n) xs"
proof (cases "m \<le> n")
  case True
  then have "length xs - (length xs - n) - m + (length xs - n) = length xs - m" if "n \<le> length xs"
    using that by simp
  with True show ?thesis
    by (cases "n \<le> length xs") (auto simp: last_n_def min_def)
next
  case False
  then show ?thesis by (auto simp: last_n_def min_def)
qed

lemma last_n_prefix_cut: "last_n n (last_n n xs @ ys) = last_n n (xs @ ys)"
  by (auto simp: last_n_append last_n_last_n min_def)

lemma suffix_last_n: "suffix ys xs \<Longrightarrow> last_n (length ys) xs = ys"
  by (auto simp: suffix_def last_n_def)

lemma drop_rotate_append:
  "n \<le> length xs \<Longrightarrow> drop n xs @ take n xs = rotate n xs"
  by (cases "n = length xs") (auto simp: rotate_drop_take)


subsection \<open>Objects by number\<close>

text \<open>A store of objects numbered in the order they were made, and a pass over all of them.\<close>

definition look :: "'a list \<Rightarrow> nat \<Rightarrow> 'a option" where
  "look xs i = (if i < length xs then Some (xs ! i) else None)"

definition map_at :: "(nat \<Rightarrow> 'a \<Rightarrow> 'b) \<Rightarrow> 'a list \<Rightarrow> 'b list" where
  "map_at f xs = map (\<lambda>(i, x). f i x) (zip [0..<length xs] xs)"

lemma length_map_at [simp]: "length (map_at f xs) = length xs"
  by (simp add: map_at_def)

lemma look_map_at [simp]: "look (map_at f xs) i = map_option (f i) (look xs i)"
  by (simp add: look_def map_at_def)

lemma look_update: "look (xs[i := v]) j = (if j = i \<and> i < length xs then Some v else look xs j)"
  by (simp add: look_def)

lemma look_snoc: "look (xs @ [v]) j = (if j = length xs then Some v else look xs j)"
  by (auto simp: look_def nth_append)

lemma look_None: "look xs i = None \<longleftrightarrow> length xs \<le> i"
  by (simp add: look_def)

lemma look_less: "look xs i = Some x \<Longrightarrow> i < length xs"
  by (simp add: look_def split: if_splits)

lemma look_Nil [simp]: "look [] i = None"
  by (simp add: look_def)

end
