(* ===== verification/Ring_Buffer.thy ===== *)
theory Ring_Buffer
  imports Prelude
begin

text \<open>
  \<open>internal/serialconsole/ring.go\<close>: the fixed-capacity byte ring that holds the console
  scrollback. The record has the fields of the Go struct; \<open>copy_at\<close> is Go's
  \<open>copy(dst[at:], src)\<close>, which writes as many bytes as fit. The ring refines a plain
  list: \<open>ring_abs\<close> reads the stored bytes in order, and every operation is shown to be
  the obvious operation on that list.
\<close>

record ring =
  buf :: bytes
  rsize :: nat
  rstart :: nat
  totalIn :: int
  truncated :: bool

definition copy_at :: "bytes \<Rightarrow> nat \<Rightarrow> bytes \<Rightarrow> bytes" where
  "copy_at dst at src =
     (let n = min (length src) (length dst - at)
      in take at dst @ take n src @ drop (at + n) dst)"

text \<open>\<open>copy\<close> returns the number of bytes copied.\<close>

definition copied :: "bytes \<Rightarrow> nat \<Rightarrow> bytes \<Rightarrow> nat" where
  "copied dst at src = min (length src) (length dst - at)"

definition newRing :: "int \<Rightarrow> ring" where
  "newRing capacity =
     (let capacity = (if capacity < 1 then 1 else capacity)
      in \<lparr>buf = replicate (nat capacity) (CHR 0x00), rsize = 0, rstart = 0, totalIn = 0,
          truncated = False\<rparr>)"

definition ring_write :: "ring \<Rightarrow> bytes \<Rightarrow> ring" where
  "ring_write r0 p =
     (let r = r0\<lparr>totalIn := i64 (totalIn r0 + int (length p))\<rparr>;
          c = length (buf r)
      in if c \<le> length p
         then r\<lparr>buf := copy_at (buf r) 0 (drop (length p - c) p), rstart := 0, rsize := c,
                truncated := True\<rparr>
         else let e = (rstart r + rsize r) mod c;
                  n = copied (buf r) e p;
                  b1 = copy_at (buf r) e p;
                  b2 = (if n < length p then copy_at b1 0 (drop n p) else b1);
                  free = c - rsize r
              in if free < length p
                 then let over = length p - free
                      in r\<lparr>buf := b2, rstart := (rstart r + over) mod c, rsize := c,
                           truncated := True\<rparr>
                 else r\<lparr>buf := b2, rsize := rsize r + length p\<rparr>)"

definition ring_reset :: "ring \<Rightarrow> ring" where
  "ring_reset r = r\<lparr>rsize := 0, rstart := 0, totalIn := 0, truncated := False\<rparr>"

definition ring_snapshot :: "ring \<Rightarrow> int \<Rightarrow> bytes \<times> bool" where
  "ring_snapshot r maxBytes =
     (let n = (if 0 < maxBytes \<and> maxBytes < int (rsize r) then nat maxBytes else rsize r);
          begin = (rstart r + (rsize r - n)) mod length (buf r);
          out = replicate n (CHR 0x00);
          first = copied out 0 (drop begin (buf r));
          out1 = copy_at out 0 (drop begin (buf r));
          out2 = (if first < n then copy_at out1 first (buf r) else out1)
      in (out2, truncated r \<or> (0 < maxBytes \<and> maxBytes < int (rsize r))))"

subsection \<open>Invariant and abstraction\<close>

definition ring_ok :: "ring \<Rightarrow> bool" where
  "ring_ok r \<longleftrightarrow> 0 < length (buf r) \<and> rsize r \<le> length (buf r) \<and> rstart r < length (buf r)"

definition ring_abs :: "ring \<Rightarrow> bytes" where
  "ring_abs r = take (rsize r) (rotate (rstart r) (buf r))"

definition ring_cap :: "ring \<Rightarrow> nat" where
  "ring_cap r = length (buf r)"

lemma ring_ok_newRing [inv_intros]: "ring_ok (newRing n)"
  by (simp add: ring_ok_def newRing_def Let_def)

lemma ring_abs_newRing [simp]: "ring_abs (newRing n) = []"
  by (simp add: ring_abs_def newRing_def Let_def)

lemma ring_ok_reset [inv_intros]: "ring_ok r \<Longrightarrow> ring_ok (ring_reset r)"
  by (auto simp: ring_ok_def ring_reset_def)

lemma ring_abs_reset [simp]: "ring_abs (ring_reset r) = []"
  by (simp add: ring_abs_def ring_reset_def)

lemma length_ring_abs: "ring_ok r \<Longrightarrow> length (ring_abs r) = rsize r"
  by (simp add: ring_abs_def ring_ok_def)

lemma length_copy_at [simp]: "at \<le> length dst \<Longrightarrow> length (copy_at dst at src) = length dst"
  by (auto simp: copy_at_def Let_def min_def)

lemma copy_at_whole: "length src = length dst \<Longrightarrow> copy_at dst 0 src = src"
  by (simp add: copy_at_def Let_def)

lemma length_buf_ring_write [simp, frame_simps]: "length (buf (ring_write r p)) = length (buf r)"
proof (cases "buf r = []")
  case True
  then show ?thesis by (simp add: ring_write_def Let_def copy_at_def)
next
  case False
  then have "(rstart r + rsize r) mod length (buf r) \<le> length (buf r)"
    by (simp add: less_imp_le)
  then show ?thesis by (simp add: ring_write_def Let_def)
qed

lemma ring_cap_write [simp]: "ring_cap (ring_write r p) = ring_cap r"
  by (simp add: ring_cap_def frame_simps)

lemma ring_cap_reset [simp]: "ring_cap (ring_reset r) = ring_cap r"
  by (simp add: ring_cap_def ring_reset_def)

lemma ring_ok_write [inv_intros]: "ring_ok r \<Longrightarrow> ring_ok (ring_write r p)"
  using length_buf_ring_write [of r p] by (auto simp: ring_ok_def ring_write_def Let_def)

subsection \<open>Reading the ring byte by byte\<close>

lemma ring_abs_nth:
  "ring_ok r \<Longrightarrow> i < rsize r \<Longrightarrow> ring_abs r ! i = buf r ! ((rstart r + i) mod length (buf r))"
  by (auto simp: ring_abs_def ring_ok_def nth_rotate)

lemma copy_at_nth:
  assumes "at \<le> length dst" "i < length dst"
  shows "copy_at dst at src ! i =
    (if at \<le> i \<and> i < at + length src then src ! (i - at) else dst ! i)"
  using assms by (auto simp: copy_at_def Let_def nth_append min_def)

text \<open>Where the two copies of a wrapping write put the bytes: the \<open>i\<close>-th position after the
  write position \<open>e\<close>, counted around the ring, holds the \<open>i\<close>-th new byte.\<close>

definition wrap_copy :: "bytes \<Rightarrow> nat \<Rightarrow> bytes \<Rightarrow> bytes" where
  "wrap_copy b e p =
     (if copied b e p < length p then copy_at (copy_at b e p) 0 (drop (copied b e p) p)
      else copy_at b e p)"

lemma mod_add_cases:
  "e < c \<Longrightarrow> i < (c::nat) \<Longrightarrow> (e + i) mod c = (if e + i < c then e + i else e + i - c)"
  by (auto simp: mod_if)

lemma wrap_copy_nth:
  assumes "e < length b" "length p < length b" "i < length b"
  shows "wrap_copy b e p ! ((e + i) mod length b) =
    (if i < length p then p ! i else b ! ((e + i) mod length b))"
  using assms unfolding wrap_copy_def copied_def
  by (auto simp: copy_at_nth mod_add_cases min_def intro!: arg_cong [of _ _ "(!) p"])

lemma length_wrap_copy [simp]: "e < length b \<Longrightarrow> length (wrap_copy b e p) = length b"
  by (simp add: wrap_copy_def)

lemma ring_write_small:
  assumes "length p < length (buf r)"
  shows "ring_write r p =
    (let c = length (buf r); over = length p - (c - rsize r)
     in r\<lparr>totalIn := i64 (totalIn r + int (length p)),
          buf := wrap_copy (buf r) ((rstart r + rsize r) mod c) p,
          rstart := (if c - rsize r < length p then (rstart r + over) mod c else rstart r),
          rsize := (if c - rsize r < length p then c else rsize r + length p),
          truncated := (c - rsize r < length p \<or> truncated r)\<rparr>)"
  using assms by (auto simp: ring_write_def Let_def wrap_copy_def copied_def)

text \<open>Position \<open>k\<close> of the old contents followed by the new bytes, for every \<open>k\<close> the write did
  not evict.\<close>

lemma wrap_copy_read:
  assumes ok: "ring_ok r" and len: "length p < length (buf r)"
    and k: "k < rsize r + length p" "rsize r + length p \<le> k + length (buf r)"
  shows "wrap_copy (buf r) ((rstart r + rsize r) mod length (buf r)) p
      ! ((rstart r + k) mod length (buf r)) = (ring_abs r @ p) ! k"
proof -
  let ?c = "length (buf r)" and ?e = "(rstart r + rsize r) mod length (buf r)"
  have e: "?e < ?c" and sz: "rsize r \<le> ?c" using ok by (auto simp: ring_ok_def)
  show ?thesis
  proof (cases "k < rsize r")
    case True
    have "?e + (k + ?c - rsize r) = ?e + (?c - rsize r) + k" using sz True by simp
    then have "(?e + (k + ?c - rsize r)) mod ?c = ((rstart r + rsize r) + (?c - rsize r) + k) mod ?c"
      by (metis mod_add_left_eq)
    also have "\<dots> = (rstart r + k + ?c) mod ?c" using sz by (simp add: add.commute add.left_commute)
    also have "\<dots> = (rstart r + k) mod ?c" by simp
    finally have pos: "(?e + (k + ?c - rsize r)) mod ?c = (rstart r + k) mod ?c" .
    have "k + ?c - rsize r < ?c" "\<not> k + ?c - rsize r < length p" using True k sz by auto
    from wrap_copy_nth [OF e len this(1)] this(2) pos True ok
    show ?thesis by (simp add: nth_append length_ring_abs ring_abs_nth)
  next
    case False
    then have "rstart r + k = (rstart r + rsize r) + (k - rsize r)" by simp
    then have pos: "(?e + (k - rsize r)) mod ?c = (rstart r + k) mod ?c"
      by (metis mod_add_left_eq)
    have "k - rsize r < length p" "k - rsize r < ?c" using False k len by auto
    from wrap_copy_nth [OF e len this(2)] this(1) pos False ok
    show ?thesis by (simp add: nth_append length_ring_abs)
  qed
qed

lemma ring_write_big:
  "length (buf r) \<le> length p \<Longrightarrow>
   ring_write r p = r\<lparr>totalIn := i64 (totalIn r + int (length p)),
     buf := last_n (length (buf r)) p, rstart := 0, rsize := length (buf r), truncated := True\<rparr>"
  by (simp add: ring_write_def Let_def copy_at_whole last_n_def)

lemma ring_abs_write:
  assumes ok: "ring_ok r"
  shows "ring_abs (ring_write r p) = last_n (ring_cap r) (ring_abs r @ p)"
proof (cases "length (buf r) \<le> length p")
  case True
  then show ?thesis
    by (simp add: ring_write_big ring_abs_def ring_cap_def last_n_append)
next
  case False
  then have len: "length p < length (buf r)" by simp
  let ?r = "ring_write r p"
  have okr: "ring_ok ?r" using ok by (rule ring_ok_write)
  have sz: "rsize ?r = min (length (buf r)) (rsize r + length p)"
    using ok len by (auto simp: ring_write_small Let_def ring_ok_def)
  show ?thesis
  proof (rule nth_equalityI)
    show "length (ring_abs ?r) = length (last_n (ring_cap r) (ring_abs r @ p))"
      using ok by (simp add: length_ring_abs [OF okr] sz length_ring_abs [OF ok] ring_cap_def)
  next
    fix i assume "i < length (ring_abs ?r)"
    then have i: "i < rsize ?r" by (simp add: length_ring_abs [OF okr])
    let ?k = "rsize r + length p - length (buf r) + i"
    have k: "?k < rsize r + length p" "rsize r + length p \<le> ?k + length (buf r)"
      using i sz by auto
    have "(rstart ?r + i) mod length (buf r) = (rstart r + ?k) mod length (buf r)"
      using len ok by (auto simp: ring_write_small Let_def mod_simps ring_ok_def add.commute add.left_commute)
    moreover have "buf ?r = wrap_copy (buf r) ((rstart r + rsize r) mod length (buf r)) p"
      using len by (simp add: ring_write_small Let_def)
    moreover have "ring_abs ?r ! i = buf ?r ! ((rstart ?r + i) mod length (buf r))"
      using ring_abs_nth [OF okr i] by simp
    ultimately have "ring_abs ?r ! i = (ring_abs r @ p) ! ?k"
      using wrap_copy_read [OF ok len k] by simp
    then show "ring_abs ?r ! i = last_n (ring_cap r) (ring_abs r @ p) ! i"
      using k ok by (simp add: last_n_def ring_cap_def length_ring_abs del: drop_append)
  qed
qed

subsection \<open>Snapshots\<close>

definition snap_len :: "nat \<Rightarrow> int \<Rightarrow> nat" where
  "snap_len n maxBytes = (if 0 < maxBytes \<and> maxBytes < int n then nat maxBytes else n)"

lemma snap_len_le: "snap_len n m \<le> n"
  by (auto simp: snap_len_def)

text \<open>Reading \<open>n\<close> bytes around the ring from position \<open>b\<close> with two copies.\<close>

lemma two_copies:
  assumes "b < length xs" "n \<le> length xs"
  shows "(let out = replicate n z; first = copied out 0 (drop b xs); o1 = copy_at out 0 (drop b xs)
          in if first < n then copy_at o1 first xs else o1) = take n (rotate b xs)"
proof -
  have "rotate b xs = drop b xs @ take b xs" using assms by (simp add: rotate_drop_take)
  with assms show ?thesis
    by (auto simp: Let_def copied_def copy_at_def min_def)
qed

lemma ring_snapshot_abs:
  assumes ok: "ring_ok r"
  shows "ring_snapshot r m =
    (last_n (snap_len (rsize r) m) (ring_abs r), truncated r \<or> (0 < m \<and> m < int (rsize r)))"
proof -
  let ?n = "snap_len (rsize r) m" and ?c = "length (buf r)"
  let ?b = "(rstart r + (rsize r - ?n)) mod ?c"
  have n: "?n \<le> rsize r" by (rule snap_len_le)
  have b: "?b < ?c" and nc: "?n \<le> ?c" and sz: "rsize r \<le> ?c"
    using ok n by (auto simp: ring_ok_def intro: le_trans)
  have "fst (ring_snapshot r m) = take ?n (rotate ?b (buf r))"
    using two_copies [OF b nc, of "CHR 0x00"] by (simp add: ring_snapshot_def Let_def snap_len_def)
  also have "\<dots> = take ?n (drop (rsize r - ?n) (take (rsize r) (rotate (rstart r) (buf r))))"
  proof (rule nth_equalityI)
    show "length (take ?n (rotate ?b (buf r))) =
        length (take ?n (drop (rsize r - ?n) (take (rsize r) (rotate (rstart r) (buf r)))))"
      using n sz by simp
  next
    fix i assume "i < length (take ?n (rotate ?b (buf r)))"
    then have i: "i < ?n" by simp
    have "(?b + i) mod ?c = (rstart r + (rsize r - ?n + i)) mod ?c"
      by (simp add: mod_simps add.assoc)
    with i n nc sz show "take ?n (rotate ?b (buf r)) ! i =
        take ?n (drop (rsize r - ?n) (take (rsize r) (rotate (rstart r) (buf r)))) ! i"
      by (simp add: nth_rotate)
  qed
  also have "\<dots> = last_n ?n (ring_abs r)"
    using n sz ok by (simp add: last_n_def length_ring_abs ring_abs_def)
  finally show ?thesis by (simp add: ring_snapshot_def Let_def prod_eq_iff)
qed

subsection \<open>The scrollback interface\<close>

text \<open>
  What the console relies on: a store of bytes whose contents after a write are the last
  \<open>cap\<close> bytes of the old contents followed by the new ones, which a reset empties, and
  whose snapshot is a tail of the contents.
\<close>

locale scrollback =
  fixes wr :: "'r \<Rightarrow> bytes \<Rightarrow> 'r"
    and rs :: "'r \<Rightarrow> 'r"
    and snap :: "'r \<Rightarrow> int \<Rightarrow> bytes \<times> bool"
    and cap :: "'r \<Rightarrow> nat"
    and ok :: "'r \<Rightarrow> bool"
    and abs :: "'r \<Rightarrow> bytes"
    and trunc :: "'r \<Rightarrow> bool"
  assumes ok_wr: "ok r \<Longrightarrow> ok (wr r p)"
    and ok_rs: "ok r \<Longrightarrow> ok (rs r)"
    and cap_wr: "cap (wr r p) = cap r"
    and cap_rs: "cap (rs r) = cap r"
    and abs_wr: "ok r \<Longrightarrow> abs (wr r p) = last_n (cap r) (abs r @ p)"
    and abs_rs: "abs (rs r) = []"
    and abs_cap: "ok r \<Longrightarrow> length (abs r) \<le> cap r"
    and snap_abs: "ok r \<Longrightarrow> fst (snap r m) = last_n (snap_len (length (abs r)) m) (abs r)"
    and trunc_wr: "ok r \<Longrightarrow> \<not> trunc (wr r p) \<Longrightarrow> \<not> trunc r \<and> length (abs r) + length p \<le> cap r"
begin

lemma ok_writes: "ok r \<Longrightarrow> ok (foldl wr r ps)"
  by (induction ps arbitrary: r) (auto simp: ok_wr)

lemma cap_writes: "cap (foldl wr r ps) = cap r"
  by (induction ps arbitrary: r) (auto simp: cap_wr)

lemma abs_writes: "ok r \<Longrightarrow> abs (foldl wr r ps) = last_n (cap r) (abs r @ concat ps)"
proof (induction ps arbitrary: r)
  case Nil
  then show ?case using abs_cap by (simp add: last_n_all)
next
  case (Cons p ps)
  have "abs (foldl wr (wr r p) ps) = last_n (cap r) (last_n (cap r) (abs r @ p) @ concat ps)"
    using Cons.IH [OF ok_wr [OF Cons.prems]] abs_wr [OF Cons.prems] by (simp add: cap_wr)
  also have "\<dots> = last_n (cap r) ((abs r @ p) @ concat ps)"
    by (rule last_n_prefix_cut)
  finally show ?case by simp
qed

lemma untruncated_writes:
  "ok r \<Longrightarrow> \<not> trunc (foldl wr r ps) \<Longrightarrow> abs (foldl wr r ps) = abs r @ concat ps"
proof (induction ps arbitrary: r rule: rev_induct)
  case Nil
  then show ?case by simp
next
  case (snoc p ps)
  have ok': "ok (foldl wr r ps)" using snoc.prems(1) by (rule ok_writes)
  from snoc.prems(2) have "\<not> trunc (wr (foldl wr r ps) p)" by simp
  from trunc_wr [OF ok' this] have t: "\<not> trunc (foldl wr r ps)"
    and l: "length (abs (foldl wr r ps)) + length p \<le> cap (foldl wr r ps)" by auto
  from snoc.IH [OF snoc.prems(1) t] l show ?case
    by (simp add: abs_wr [OF ok'] last_n_all)
qed

end

lemma ring_trunc_write:
  "ring_ok r \<Longrightarrow> truncated (ring_write r p) \<longleftrightarrow>
    truncated r \<or> ring_cap r < length (ring_abs r) + length p
      \<or> (rsize r = 0 \<and> length p = ring_cap r)"
  by (auto simp: ring_write_def Let_def ring_cap_def length_ring_abs ring_ok_def)

interpretation ringlog: scrollback ring_write ring_reset ring_snapshot ring_cap ring_ok ring_abs truncated
proof unfold_locales
  show "length (ring_abs r) \<le> ring_cap r" if "ring_ok r" for r
    using that by (simp add: length_ring_abs) (simp add: ring_ok_def ring_cap_def)
qed (auto simp: ring_abs_write ring_snapshot_abs length_ring_abs ring_trunc_write ring_ok_write
    ring_ok_reset)

subsection \<open>The properties of the ring\<close>

text \<open>The operations the console performs on its ring, as a trace.\<close>

datatype ring_op = Ring_write bytes | Ring_reset

fun ring_step :: "ring \<Rightarrow> ring_op \<Rightarrow> ring" where
  "ring_step r (Ring_write p) = ring_write r p"
| "ring_step r Ring_reset = ring_reset r"

definition ring_run :: "ring \<Rightarrow> ring_op list \<Rightarrow> ring" where
  "ring_run = foldl ring_step"

text \<open>What was written since the last reset.\<close>

fun since_reset :: "bytes \<Rightarrow> ring_op list \<Rightarrow> bytes" where
  "since_reset h [] = h"
| "since_reset h (Ring_write p # os) = since_reset (h @ p) os"
| "since_reset h (Ring_reset # os) = since_reset [] os"

text \<open>The ring stands for the history \<open>h\<close> of the bytes written since it was created or reset.\<close>

definition ring_rep :: "ring \<Rightarrow> bytes \<Rightarrow> bool" where
  "ring_rep r h \<longleftrightarrow> ring_ok r \<and> ring_abs r = last_n (ring_cap r) h \<and>
     (\<not> truncated r \<longrightarrow> ring_abs r = h) \<and> totalIn r = i64 (int (length h))"

lemma ring_rep_newRing [inv_intros]: "ring_rep (newRing n) []"
  by (simp add: ring_rep_def ring_ok_newRing) (simp add: newRing_def Let_def i64_def)

lemma ring_rep_reset [inv_intros]: "ring_rep r h \<Longrightarrow> ring_rep (ring_reset r) []"
  by (simp add: ring_rep_def ring_ok_reset) (simp add: ring_reset_def i64_def)

lemma ring_rep_write [inv_intros]:
  assumes "ring_rep r h"
  shows "ring_rep (ring_write r p) (h @ p)"
proof -
  have ok: "ring_ok r" using assms by (simp add: ring_rep_def)
  have "totalIn (ring_write r p) = i64 (int (length (h @ p)))"
    using assms by (simp add: ring_rep_def ring_write_def Let_def i64_add_left)
  moreover have "ring_abs (ring_write r p) = last_n (ring_cap r) (h @ p)"
    using assms by (simp add: ring_rep_def ring_abs_write last_n_prefix_cut)
  moreover have "\<not> truncated (ring_write r p) \<longrightarrow> ring_abs (ring_write r p) = h @ p"
    using assms ringlog.untruncated_writes [OF ok, of "[p]"] ringlog.trunc_wr [OF ok, of p]
    by (auto simp: ring_rep_def)
  ultimately show ?thesis using ring_ok_write [OF ok] by (simp add: ring_rep_def)
qed

lemma ring_rep_run: "ring_rep r h \<Longrightarrow> ring_rep (ring_run r os) (since_reset h os)"
  by (induction h os arbitrary: r rule: since_reset.induct)
    (auto simp: ring_run_def ring_rep_write dest: ring_rep_reset)

lemma ring_cap_run [simp]: "ring_cap (ring_run r os) = ring_cap r"
proof (induction os arbitrary: r)
  case (Cons e os)
  then show ?case by (cases e) (simp_all add: ring_run_def)
qed (simp add: ring_run_def)


lemma ring_snapshot_all: "ring_ok r \<Longrightarrow> fst (ring_snapshot r 0) = ring_abs r"
  by (simp add: ring_snapshot_abs snap_len_def last_n_all length_ring_abs)

text \<open>C1: The ring is the scrollback it claims to be. After any sequence of writes and resets,
  starting from a new ring of any requested capacity, a snapshot returns exactly the last bytes
  written since the last reset: as many as the caller asked for, and no more than the capacity
  holds. When the truncated flag is clear and no limit was given, it returns all of them.\<close>

theorem ring_snapshot_history:
  "(let r = ring_run (newRing n) os; H = since_reset [] os; k = min (length H) (nat (max 1 n))
    in fst (ring_snapshot r m) = last_n (snap_len k m) H \<and>
       (truncated r \<or> fst (ring_snapshot r 0) = H) \<and> totalIn r = i64 (int (length H)))"
proof -
  let ?r = "ring_run (newRing n) os" and ?H = "since_reset [] os"
  have rep: "ring_rep ?r ?H" by (rule ring_rep_run [OF ring_rep_newRing])
  then have ok: "ring_ok ?r" by (simp add: ring_rep_def)
  have cap: "ring_cap ?r = nat (max 1 n)"
    by (simp only: ring_cap_run) (simp add: ring_cap_def newRing_def Let_def max_def)
  have sz: "rsize ?r = min (length ?H) (nat (max 1 n))"
    using rep length_ring_abs [OF ok] cap by (simp add: ring_rep_def min.commute)
  have abs: "ring_abs ?r = last_n (nat (max 1 n)) ?H" using rep cap by (simp add: ring_rep_def)
  have "fst (ring_snapshot ?r m) = last_n (snap_len (rsize ?r) m) ?H" for m
    using snap_len_le [of "rsize ?r" m] sz by (simp add: ring_snapshot_abs [OF ok] abs last_n_last_n min_absorb1)
  moreover have "truncated ?r \<or> fst (ring_snapshot ?r 0) = ?H"
    using rep by (auto simp: ring_snapshot_all [OF ok] ring_rep_def)
  ultimately show ?thesis using rep sz by (simp add: ring_rep_def Let_def)
qed

text \<open>When the truncated flag of the ring is set. Between writes the flag is set by a write
  that evicts a byte, and also by a write of exactly the capacity into an empty ring, which evicts
  nothing: the field's comment promises the first case only.\<close>

lemma ring_truncated_exactly:
  "ring_rep r h \<Longrightarrow>
   truncated (ring_write r p) \<longleftrightarrow>
     truncated r \<or> ring_cap r < length (ring_abs r) + length p \<or> (ring_abs r = [] \<and> length p = ring_cap r)"
  using ring_trunc_write [of r p] length_ring_abs [of r] unfolding ring_rep_def
  by (metis length_0_conv)

lemma ring_truncated_exactly_witness:
  "truncated (ring_write (newRing 4) ''abcd'') \<and> \<not> truncated (ring_write (newRing 4) ''abc'') \<and>
   fst (ring_snapshot (ring_write (newRing 4) ''abcd'') 0) = ''abcd''"
proof -
  have "truncated (ring_write (newRing 4) ''abcd'')" "\<not> truncated (ring_write (newRing 4) ''abc'')"
    unfolding ring_truncated_exactly [OF ring_rep_newRing] ring_abs_newRing
    by (simp_all add: ring_cap_def newRing_def Let_def)
  moreover have "fst (ring_snapshot (ring_write (newRing 4) ''abcd'') 0) = ''abcd''" by code_simp
  ultimately show ?thesis by blast
qed

end
