(* ===== verification/Go_Std.thy ===== *)
theory Go_Std
  imports Prelude
begin

text \<open>
  The functions of Go's standard library the program calls (packages \<open>strings\<close>,
  \<open>strconv\<close>, \<open>path\<close>, \<open>path/filepath\<close>, \<open>net\<close> and the \<open>fmt\<close> verbs it uses),
  on byte strings. Two limits: \<open>to_lower\<close>, \<open>equal_fold\<close> and \<open>trim_space\<close> treat
  bytes of 128 and above as opaque (Go decodes UTF-8 there), and \<open>quote\<close> (the verb
  \<open>%q\<close>) prints such bytes as they are.
\<close>

abbreviation CR :: char where "CR \<equiv> CHR 0x0D"
abbreviation LF :: char where "LF \<equiv> CHR 0x0A"
abbreviation TAB :: char where "TAB \<equiv> CHR 0x09"
abbreviation NUL :: char where "NUL \<equiv> CHR 0x00"

definition byte :: "nat \<Rightarrow> char" where "byte n = char_of n"

definition ord :: "char \<Rightarrow> nat" where "ord c = of_char c"

subsection \<open>strings\<close>

definition lower_char :: "char \<Rightarrow> char" where
  "lower_char c = (if 65 \<le> ord c \<and> ord c \<le> 90 then byte (ord c + 32) else c)"

definition to_lower :: "string \<Rightarrow> string" where
  "to_lower s = map lower_char s"

definition equal_fold :: "string \<Rightarrow> string \<Rightarrow> bool" where
  "equal_fold a b \<longleftrightarrow> to_lower a = to_lower b"

definition spaces :: string where
  "spaces = [TAB, LF, CHR 0x0B, CHR 0x0C, CR, CHR '' '']"

definition trim_left :: "string \<Rightarrow> string \<Rightarrow> string" where
  "trim_left s cutset = dropWhile (\<lambda>c. c \<in> set cutset) s"

definition trim_right :: "string \<Rightarrow> string \<Rightarrow> string" where
  "trim_right s cutset = rev (dropWhile (\<lambda>c. c \<in> set cutset) (rev s))"

definition trim_space :: "string \<Rightarrow> string" where
  "trim_space s = trim_right (trim_left s spaces) spaces"

definition trim_prefix :: "string \<Rightarrow> string \<Rightarrow> string" where
  "trim_prefix s p = (if prefix p s then drop (length p) s else s)"

definition trim_suffix :: "string \<Rightarrow> string \<Rightarrow> string" where
  "trim_suffix s p = (if suffix p s then take (length s - length p) s else s)"

text \<open>\<open>strings.Index\<close>: \<open>None\<close> for -1.\<close>

fun index_str :: "string \<Rightarrow> string \<Rightarrow> nat option" where
  "index_str [] sub = (if sub = [] then Some 0 else None)"
| "index_str (c # s) sub = (if prefix sub (c # s) then Some 0 else map_option Suc (index_str s sub))"

definition contains_str :: "string \<Rightarrow> string \<Rightarrow> bool" where
  "contains_str s sub \<longleftrightarrow> index_str s sub \<noteq> None"

fun index_char :: "string \<Rightarrow> char \<Rightarrow> nat option" where
  "index_char [] b = None"
| "index_char (c # s) b = (if c = b then Some 0 else map_option Suc (index_char s b))"

fun last_index_char :: "string \<Rightarrow> char \<Rightarrow> nat option" where
  "last_index_char [] b = None"
| "last_index_char (c # s) b =
     (case last_index_char s b of Some i \<Rightarrow> Some (Suc i) | None \<Rightarrow> if c = b then Some 0 else None)"

definition contains_any :: "string \<Rightarrow> string \<Rightarrow> bool" where
  "contains_any s chars \<longleftrightarrow> (\<exists>c \<in> set s. c \<in> set chars)"

text \<open>\<open>strings.Split\<close> at a one-byte separator, \<open>strings.SplitN\<close>, \<open>strings.Join\<close>,
  \<open>strings.Cut\<close>.\<close>

fun split_char :: "string \<Rightarrow> char \<Rightarrow> string list" where
  "split_char [] b = [[]]"
| "split_char (c # s) b =
     (if c = b then [] # split_char s b
      else (case split_char s b of [] \<Rightarrow> [[c]] | w # ws \<Rightarrow> (c # w) # ws))"

fun split_n :: "string \<Rightarrow> char \<Rightarrow> nat \<Rightarrow> string list" where
  "split_n s b 0 = []"
| "split_n s b (Suc 0) = [s]"
| "split_n s b (Suc (Suc n)) =
     (case index_char s b of None \<Rightarrow> [s]
      | Some i \<Rightarrow> take i s # split_n (drop (Suc i) s) b (Suc n))"

fun join_str :: "string list \<Rightarrow> string \<Rightarrow> string" where
  "join_str [] sep = []"
| "join_str [w] sep = w"
| "join_str (w # ws) sep = w @ sep @ join_str ws sep"

definition cut_char :: "string \<Rightarrow> char \<Rightarrow> string \<times> string \<times> bool" where
  "cut_char s b = (case index_char s b of None \<Rightarrow> (s, [], False)
                   | Some i \<Rightarrow> (take i s, drop (Suc i) s, True))"

text \<open>\<open>strings.ReplaceAll\<close> of a single byte.\<close>

definition replace_char :: "string \<Rightarrow> char \<Rightarrow> string \<Rightarrow> string" where
  "replace_char s b new = concat (map (\<lambda>c. if c = b then new else [c]) s)"

subsection \<open>path and path/filepath (Unix)\<close>

definition after_last :: "string \<Rightarrow> char \<Rightarrow> string" where
  "after_last s b = rev (takeWhile (\<lambda>c. c \<noteq> b) (rev s))"

definition path_base :: "string \<Rightarrow> string" where
  "path_base p =
     (if p = [] then ''.''
      else let q = after_last (trim_right p ''/'') (CHR ''/'') in if q = [] then ''/'' else q)"

definition path_ext :: "string \<Rightarrow> string" where
  "path_ext p =
     (let t = after_last p (CHR ''/'')
      in case last_index_char t (CHR ''.'') of None \<Rightarrow> [] | Some i \<Rightarrow> drop i t)"

fun clean_parts :: "bool \<Rightarrow> string list \<Rightarrow> string list \<Rightarrow> string list" where
  "clean_parts rooted st [] = rev st"
| "clean_parts rooted st (w # ws) =
     (if w = [] \<or> w = ''.'' then clean_parts rooted st ws
      else if w = ''..''
      then (case st of
              [] \<Rightarrow> clean_parts rooted (if rooted then [] else [''..'']) ws
            | t # ts \<Rightarrow> if t = ''..'' then clean_parts rooted (''..'' # st) ws
                         else clean_parts rooted ts ws)
      else clean_parts rooted (w # st) ws)"

definition path_clean :: "string \<Rightarrow> string" where
  "path_clean p =
     (let rooted = prefix ''/'' p;
          r = (if rooted then ''/'' else []) @
              join_str (clean_parts rooted [] (split_char p (CHR ''/''))) ''/''
      in if r = [] then ''.'' else r)"

fun path_join :: "string list \<Rightarrow> string" where
  "path_join [] = []"
| "path_join (e # es) = (if e = [] then path_join es else path_clean (join_str (e # es) ''/''))"

subsection \<open>fmt and strconv\<close>

definition digit_char :: "nat \<Rightarrow> char" where
  "digit_char d = (if d < 10 then byte (48 + d) else byte (87 + d))"

fun to_base :: "nat \<Rightarrow> nat \<Rightarrow> string" where
  "to_base b n = (if n < b \<or> b < 2 then [digit_char n] else to_base b (n div b) @ [digit_char (n mod b)])"

declare to_base.simps [simp del]

text \<open>\<open>%d\<close>, \<open>%0<w>o\<close>, \<open>%x\<close>, \<open>%0<w>x\<close>.\<close>

definition itoa :: "int \<Rightarrow> string" where
  "itoa n = (if n < 0 then CHR ''-'' # to_base 10 (nat (- n)) else to_base 10 (nat n))"

definition zero_pad :: "nat \<Rightarrow> string \<Rightarrow> string" where
  "zero_pad w s = replicate (w - length s) (CHR ''0'') @ s"

definition fmt_x :: "int \<Rightarrow> string" where
  "fmt_x n = (if n < 0 then CHR ''-'' # to_base 16 (nat (- n)) else to_base 16 (nat n))"

definition quote_char :: "char \<Rightarrow> string" where
  "quote_char c =
     (if c = CHR 0x22 then [CHR 0x5C, CHR 0x22]
      else if c = CHR 0x5C then [CHR 0x5C, CHR 0x5C]
      else if c = LF then [CHR 0x5C, CHR ''n'']
      else if c = CR then [CHR 0x5C, CHR ''r'']
      else if c = TAB then [CHR 0x5C, CHR ''t'']
      else if c = CHR 0x07 then [CHR 0x5C, CHR ''a'']
      else if c = CHR 0x08 then [CHR 0x5C, CHR ''b'']
      else if c = CHR 0x0C then [CHR 0x5C, CHR ''f'']
      else if c = CHR 0x0B then [CHR 0x5C, CHR ''v'']
      else if ord c < 32 \<or> ord c = 127 then [CHR 0x5C, CHR ''x''] @ zero_pad 2 (to_base 16 (ord c))
      else [c])"

definition quote :: "string \<Rightarrow> string" where
  "quote s = [CHR 0x22] @ concat (map quote_char s) @ [CHR 0x22]"

definition digit_val :: "char \<Rightarrow> nat option" where
  "digit_val c =
     (if 48 \<le> ord c \<and> ord c \<le> 57 then Some (ord c - 48)
      else if 97 \<le> ord c \<and> ord c \<le> 122 then Some (ord c - 87)
      else if 65 \<le> ord c \<and> ord c \<le> 90 then Some (ord c - 55)
      else None)"

fun parse_digits :: "nat \<Rightarrow> nat \<Rightarrow> string \<Rightarrow> nat option" where
  "parse_digits b acc [] = Some acc"
| "parse_digits b acc (c # s) =
     (case digit_val c of None \<Rightarrow> None
      | Some d \<Rightarrow> if d < b then parse_digits b (acc * b + d) s else None)"

text \<open>\<open>strconv.ParseUint(s, base, bits)\<close> and \<open>strconv.ParseInt(s, 10, 64)\<close>; an error is
  \<open>None\<close>.\<close>

definition parse_uint :: "string \<Rightarrow> nat \<Rightarrow> nat \<Rightarrow> nat option" where
  "parse_uint s b bits =
     (if s = [] then None
      else case parse_digits b 0 s of None \<Rightarrow> None
           | Some n \<Rightarrow> if n < 2 ^ bits then Some n else None)"

definition parse_int64 :: "string \<Rightarrow> int option" where
  "parse_int64 s =
     (case s of [] \<Rightarrow> None
      | c # t \<Rightarrow>
          if c = CHR ''-''
          then (case parse_uint t 10 64 of None \<Rightarrow> None
                | Some n \<Rightarrow> if n \<le> 2 ^ 63 then Some (- int n) else None)
          else (case parse_uint (if c = CHR ''+'' then t else s) 10 64 of None \<Rightarrow> None
                | Some n \<Rightarrow> if n < 2 ^ 63 then Some (int n) else None))"

definition parse_bool :: "string \<Rightarrow> bool option" where
  "parse_bool s =
     (if s \<in> {''1'', ''t'', ''T'', ''true'', ''TRUE'', ''True''} then Some True
      else if s \<in> {''0'', ''f'', ''F'', ''false'', ''FALSE'', ''False''} then Some False
      else None)"

subsection \<open>net\<close>

text \<open>\<open>net.SplitHostPort\<close>; the errors are not told apart.\<close>

definition split_host_port :: "string \<Rightarrow> (string \<times> string) option" where
  "split_host_port hp =
     (case last_index_char hp (CHR '':'') of None \<Rightarrow> None
      | Some i \<Rightarrow>
          if hd hp = CHR ''[''
          then (case index_char hp (CHR '']'') of None \<Rightarrow> None
                | Some e \<Rightarrow>
                    if e + 1 \<noteq> i then None
                    else if CHR ''['' \<in> set (drop 1 hp) \<or> CHR '']'' \<in> set (drop (e + 1) hp) then None
                    else Some (take (e - 1) (drop 1 hp), drop (i + 1) hp))
          else if CHR '':'' \<in> set (take i hp) then None
          else if CHR ''['' \<in> set hp \<or> CHR '']'' \<in> set hp then None
          else Some (take i hp, drop (i + 1) hp))"

definition join_host_port :: "string \<Rightarrow> string \<Rightarrow> string" where
  "join_host_port host port =
     (if CHR '':'' \<in> set host then ''['' @ host @ '']:'' @ port else host @ '':'' @ port)"

definition is_digit :: "char \<Rightarrow> bool" where
  "is_digit c \<longleftrightarrow> 48 \<le> ord c \<and> ord c \<le> 57"

definition is_hex :: "char \<Rightarrow> bool" where
  "is_hex c \<longleftrightarrow> (case digit_val c of None \<Rightarrow> False | Some d \<Rightarrow> d < 16)"

definition octet_ok :: "string \<Rightarrow> bool" where
  "octet_ok w \<longleftrightarrow> w \<noteq> [] \<and> list_all is_digit w \<and> length w \<le> 3 \<and> (length w = 1 \<or> hd w \<noteq> CHR ''0'') \<and>
     (case parse_digits 10 0 w of None \<Rightarrow> False | Some n \<Rightarrow> n \<le> 255)"

definition is_ipv4 :: "string \<Rightarrow> bool" where
  "is_ipv4 s \<longleftrightarrow> (let ws = split_char s (CHR ''.'') in length ws = 4 \<and> list_all octet_ok ws)"

text \<open>The field loop of \<open>netip.ParseAddr\<close> on an IPv6 text: \<open>i\<close> bytes of the address are
  filled, \<open>ell\<close> says that a double colon was seen. At most eight fields are read.\<close>

fun ipv6_fields :: "nat \<Rightarrow> nat \<Rightarrow> bool \<Rightarrow> string \<Rightarrow> bool" where
  "ipv6_fields 0 i ell s = False"
| "ipv6_fields (Suc fuel) i ell s =
     (if 16 \<le> i then s = [] \<and> \<not> ell
      else let n = length (takeWhile is_hex s); t = drop n s; i' = i + 2
           in if n = 0 \<or> 4 < n then False
              else if t \<noteq> [] \<and> hd t = CHR ''.''
              then (ell \<or> i = 12) \<and> i + 4 \<le> 16 \<and> is_ipv4 s \<and> (ell \<longleftrightarrow> i + 4 < 16)
              else if t = [] then (ell \<longleftrightarrow> i' < 16)
              else if hd t \<noteq> CHR '':'' \<or> length t = 1 then False
              else let u = tl t
                   in if hd u = CHR '':''
                      then \<not> ell \<and> (if tl u = [] then i' < 16 else ipv6_fields fuel i' True (tl u))
                      else ipv6_fields fuel i' ell u)"

definition is_ipv6 :: "string \<Rightarrow> bool" where
  "is_ipv6 s \<longleftrightarrow>
     (if prefix ''::'' s then (drop 2 s = [] \<or> ipv6_fields 9 0 True (drop 2 s))
      else ipv6_fields 9 0 False s)"

text \<open>\<open>net.ParseIP(s) != nil\<close>: the first of \<open>.\<close>, \<open>:\<close> and \<open>%\<close> in the text decides; an
  address with a zone is not accepted.\<close>

definition parse_ip :: "string \<Rightarrow> bool" where
  "parse_ip s \<longleftrightarrow>
     (case dropWhile (\<lambda>c. c \<notin> {CHR ''.'', CHR '':'', CHR ''%''}) s of
        [] \<Rightarrow> False
      | c # _ \<Rightarrow> if c = CHR ''.'' then is_ipv4 s
                 else if c = CHR '':'' then CHR ''%'' \<notin> set s \<and> is_ipv6 s else False)"


subsection \<open>Facts about bytes, digits and searches\<close>

lemma ord_byte [simp]: "n < 256 \<Longrightarrow> ord (byte n) = n"
  by (simp add: ord_def byte_def)

lemma byte_ord [simp]: "byte (ord c) = c"
  by (simp add: ord_def byte_def)

lemma ord_eq_iff: "(c = d) = (ord c = ord d)"
  by (metis byte_ord)

lemma digit_val_char: "d < 36 \<Longrightarrow> digit_val (digit_char d) = Some d"
  by (auto simp: digit_val_def digit_char_def)

lemma parse_digits_append:
  "parse_digits b a (s @ t) = (case parse_digits b a s of None \<Rightarrow> None | Some n \<Rightarrow> parse_digits b n t)"
  by (induction b a s rule: parse_digits.induct) (auto split: option.splits)

lemma parse_to_base: "2 \<le> b \<Longrightarrow> b \<le> 36 \<Longrightarrow> parse_digits b 0 (to_base b n) = Some n"
proof (induction b n rule: to_base.induct)
  case (1 b n)
  show ?case
  proof (cases "n < b \<or> b < 2")
    case True
    with "1.prems" show ?thesis by (subst to_base.simps) (simp add: digit_val_char)
  next
    case False
    then have "parse_digits b 0 (to_base b (n div b)) = Some (n div b)"
      using "1.IH" "1.prems" by simp
    moreover have "n mod b < b" "n mod b < 36"
      using "1.prems" by (simp_all add: less_le_trans [OF mod_less_divisor])
    ultimately show ?thesis using False "1.prems"
      by (subst to_base.simps) (simp add: parse_digits_append digit_val_char div_mult_mod_eq)
  qed
qed

lemma to_base_ne [simp]: "to_base b n \<noteq> []"
  by (subst to_base.simps) simp

lemma parse_uint_to_base: "2 \<le> b \<Longrightarrow> b \<le> 36 \<Longrightarrow> n < 2 ^ bits \<Longrightarrow> parse_uint (to_base b n) b bits = Some n"
  by (simp add: parse_uint_def parse_to_base)

lemma parse_digits_chars: "parse_digits b a s = Some n \<Longrightarrow> c \<in> set s \<Longrightarrow> digit_val c \<noteq> None"
  by (induction b a s rule: parse_digits.induct) (auto split: option.splits if_splits)

lemma to_base_digits: "2 \<le> b \<Longrightarrow> b \<le> 36 \<Longrightarrow> c \<in> set (to_base b n) \<Longrightarrow> digit_val c \<noteq> None"
  using parse_to_base parse_digits_chars by blast

lemma parse_uint_zero_pad:
  assumes "2 \<le> b" "b \<le> 36" "n < 2 ^ bits"
  shows "parse_uint (zero_pad w (to_base b n)) b bits = Some n"
proof -
  have "parse_digits b 0 (replicate k (CHR ''0'') @ s) = parse_digits b 0 s" for k s
    using assms(1) by (induction k) (simp_all add: digit_val_def ord_def)
  then show ?thesis using assms parse_to_base [OF assms(1,2)] by (simp add: parse_uint_def zero_pad_def)
qed

lemma parse_int64_itoa:
  assumes "0 \<le> n" "n < 2 ^ 63"
  shows "parse_int64 (itoa n) = Some n"
proof -
  obtain c t where t: "to_base 10 (nat n) = c # t" by (cases "to_base 10 (nat n)") auto
  then have "digit_val c \<noteq> None" using to_base_digits [of 10 c "nat n"] by simp
  then have c: "c \<noteq> CHR ''-''" "c \<noteq> CHR ''+''" by (auto simp: digit_val_def ord_def)
  have p: "parse_uint (to_base 10 (nat n)) 10 64 = Some (nat n)"
    using assms by (intro parse_uint_to_base) (auto simp: nat_less_iff)
  show ?thesis using c p assms by (simp add: parse_int64_def itoa_def t nat_less_iff)
qed

lemma index_char_None: "index_char s c = None \<longleftrightarrow> c \<notin> set s"
  by (induction s) (auto split: if_splits)

lemma index_char_append: "c \<notin> set s \<Longrightarrow> index_char (s @ c # t) c = Some (length s)"
  by (induction s) auto

lemma index_char_less: "index_char s c = Some i \<Longrightarrow> i < length s"
  by (induction s arbitrary: i) (auto split: if_splits)

lemma last_index_char_None: "last_index_char s c = None \<longleftrightarrow> c \<notin> set s"
  by (induction s) (auto split: option.splits)

lemma last_index_char_append: "c \<notin> set t \<Longrightarrow> last_index_char (s @ c # t) c = Some (length s)"
proof (induction s)
  case Nil
  then have "last_index_char t c = None" by (simp add: last_index_char_None)
  then show ?case by simp
qed simp


lemma split_char_ne [simp]: "split_char s b \<noteq> []"
  by (induction s b rule: split_char.induct) (auto split: list.splits)

lemma split_char_word: "b \<notin> set w \<Longrightarrow> split_char w b = [w]"
  by (induction w) auto

lemma split_char_append: "b \<notin> set w \<Longrightarrow> split_char (w @ b # s) b = w # split_char s b"
  by (induction w) auto

lemma join_str_Cons: "ws \<noteq> [] \<Longrightarrow> join_str (w # ws) sep = w @ sep @ join_str ws sep"
  by (cases ws) auto

lemma split_join: "ws \<noteq> [] \<Longrightarrow> \<forall>w \<in> set ws. b \<notin> set w \<Longrightarrow> split_char (join_str ws [b]) b = ws"
  by (induction ws "[b]" rule: join_str.induct) (auto simp: split_char_word split_char_append)

lemma join_split: "join_str (split_char s b) [b] = s"
proof (induction s b rule: split_char.induct)
  case (2 c s b)
  then show ?case
  proof (cases "split_char s b")
    case (Cons w ws)
    with 2 show ?thesis by (cases ws) (auto simp: join_str_Cons)
  qed simp
qed simp

lemma split_char_no_sep: "w \<in> set (split_char s b) \<Longrightarrow> b \<notin> set w"
proof (induction s b arbitrary: w rule: split_char.induct)
  case (2 c s b)
  then show ?case by (auto split: list.splits if_splits)
qed simp

lemma index_str_prefix: "index_str (s @ t) s = Some 0"
proof (cases "s @ t")
  case Nil
  then show ?thesis by simp
next
  case (Cons c u)
  then have "prefix s (c # u)" by (metis prefixI)
  with Cons show ?thesis by simp
qed

lemma index_str_Some: "index_str s t = Some i \<Longrightarrow> \<exists>u v. s = u @ t @ v \<and> length u = i"
proof (induction s t arbitrary: i rule: index_str.induct)
  case (2 c s t)
  show ?case
  proof (cases "prefix t (c # s)")
    case True
    with 2 show ?thesis by (auto simp: prefix_def)
  next
    case False
    with 2 obtain j u v where "i = Suc j" "s = u @ t @ v" "length u = j" by fastforce
    then show ?thesis by (intro exI [of _ "c # u"] exI [of _ v]) simp
  qed
qed (auto split: if_splits)


lemma split_char_snoc: "split_char (s @ c # t) c = split_char s c @ split_char t c"
proof (induction s c rule: split_char.induct)
  case (2 a s b)
  then show ?case by (cases "split_char s b") auto
qed simp

lemma join_str_snoc: "ws \<noteq> [] \<Longrightarrow> join_str (ws @ [b]) sep = join_str ws sep @ sep @ b"
proof (induction ws)
  case (Cons w ws)
  then show ?case by (cases ws) auto
qed simp

lemma contains_str_iff: "contains_str s t \<longleftrightarrow> (\<exists>u v. s = u @ t @ v)"
proof
  assume "contains_str s t"
  then show "\<exists>u v. s = u @ t @ v" using index_str_Some unfolding contains_str_def by blast
next
  assume "\<exists>u v. s = u @ t @ v"
  then obtain u v where "s = u @ t @ v" by blast
  then show "contains_str s t"
  proof (induction u arbitrary: s)
    case Nil
    then show ?case by (simp add: contains_str_def index_str_prefix)
  next
    case (Cons c u)
    then show ?case by (simp add: contains_str_def)
  qed
qed

subsection \<open>Paths of plain names\<close>

text \<open>A name that is one path element, and the directory part a path starts with.\<close>

definition plain :: "string \<Rightarrow> bool" where
  "plain b \<longleftrightarrow> b \<noteq> [] \<and> b \<noteq> ''.'' \<and> b \<noteq> ''..'' \<and> CHR ''/'' \<notin> set b"

lemma clean_parts_snoc: "plain b \<Longrightarrow> clean_parts r st (ws @ [b]) = clean_parts r st ws @ [b]"
  by (induction r st ws rule: clean_parts.induct) (auto simp: plain_def split: list.splits)

definition dir_part :: "string \<Rightarrow> string" where
  "dir_part d =
     (let P = clean_parts (prefix ''/'' d) [] (split_char d (CHR ''/''))
      in (if prefix ''/'' d then ''/'' else []) @ (if P = [] then [] else join_str P ''/'' @ ''/''))"

lemma path_join_plain:
  assumes "d \<noteq> []" "plain b"
  shows "path_join [d, b] = dir_part d @ b"
proof -
  let ?P = "clean_parts (prefix ''/'' d) [] (split_char d (CHR ''/''))"
  have r: "prefix ''/'' (d @ CHR ''/'' # b) = prefix ''/'' d" using assms(1) by (cases d) auto
  have "split_char b (CHR ''/'') = [b]" using assms(2) by (simp add: split_char_word plain_def)
  then have p: "clean_parts (prefix ''/'' d) [] (split_char (d @ CHR ''/'' # b) (CHR ''/'')) = ?P @ [b]"
    using assms(2) by (simp add: split_char_snoc clean_parts_snoc)
  have "b \<noteq> []" using assms(2) by (simp add: plain_def)
  then show ?thesis
    using assms(1) r p by (cases "?P = []") (simp_all add: path_clean_def dir_part_def Let_def join_str_snoc)
qed

declare path_join.simps [simp del]

lemma dir_part_end: "dir_part d = [] \<or> last (dir_part d) = CHR ''/''"
  by (simp add: dir_part_def Let_def)

lemma after_last_append: "c \<notin> set b \<Longrightarrow> a = [] \<or> last a = c \<Longrightarrow> after_last (a @ b) c = b"
proof (cases a rule: rev_cases)
  case (snoc u x)
  assume "c \<notin> set b" "a = [] \<or> last a = c"
  then have "takeWhile (\<lambda>x. x \<noteq> c) (rev b @ c # rev u) = rev b"
    by (subst takeWhile_append2) auto
  with snoc \<open>a = [] \<or> last a = c\<close> show ?thesis by (auto simp: after_last_def)
next
  case Nil
  assume "c \<notin> set b"
  then have t: "takeWhile (\<lambda>x. x \<noteq> c) (rev b) = rev b" by (subst takeWhile_eq_all_conv) auto
  show ?thesis unfolding after_last_def Nil append_Nil t by (rule rev_rev_ident)
qed

lemma trim_right_last: "b \<noteq> [] \<Longrightarrow> last b \<notin> set cs \<Longrightarrow> trim_right b cs = b"
  by (cases b rule: rev_cases) (auto simp: trim_right_def)

lemma path_base_dir_part: "plain b \<Longrightarrow> path_base (dir_part d @ b) = b"
proof -
  assume b: "plain b"
  then have n: "b \<noteq> []" "CHR ''/'' \<notin> set b" by (auto simp: plain_def)
  then have "last (dir_part d @ b) \<noteq> CHR ''/''" by (auto dest: last_in_set)
  then have "trim_right (dir_part d @ b) ''/'' = dir_part d @ b" using n by (intro trim_right_last) auto
  moreover have "after_last (dir_part d @ b) (CHR ''/'') = b" using n dir_part_end by (intro after_last_append) auto
  ultimately show ?thesis using n by (simp add: path_base_def)
qed

lemma path_base_slash: "plain b \<Longrightarrow> path_base (u @ CHR ''/'' # b) = b"
proof -
  assume b: "plain b"
  then have n: "b \<noteq> []" "CHR ''/'' \<notin> set b" by (auto simp: plain_def)
  then have "last (u @ CHR ''/'' # b) \<noteq> CHR ''/''" by (auto dest: last_in_set)
  then have "trim_right (u @ CHR ''/'' # b) ''/'' = u @ CHR ''/'' # b" by (intro trim_right_last) auto
  moreover have "after_last (u @ CHR ''/'' # b) (CHR ''/'') = b"
    using after_last_append [of "CHR ''/''" b "u @ ''/''"] n by simp
  ultimately show ?thesis using n by (simp add: path_base_def)
qed

lemma trim_space_keep:
  assumes "c \<notin> set spaces" "b \<noteq> []" "last b \<notin> set spaces"
  shows "\<exists>v. trim_space (u @ c # b) = v @ c # b"
proof -
  have "dropWhile (\<lambda>x. x \<in> set spaces) (u @ c # b) = dropWhile (\<lambda>x. x \<in> set spaces) u @ c # b"
    using assms(1) by (induction u) auto
  then have "trim_space (u @ c # b) = trim_right (dropWhile (\<lambda>x. x \<in> set spaces) u @ c # b) spaces" by (simp add: trim_space_def trim_left_def)
  with trim_right_last [of "dropWhile (\<lambda>x. x \<in> set spaces) u @ c # b" spaces] assms show ?thesis by auto
qed

lemma path_base_plain: "plain b \<Longrightarrow> path_base b = b"
proof -
  assume b: "plain b"
  then have n: "b \<noteq> []" "CHR ''/'' \<notin> set b" by (auto simp: plain_def)
  then have "last b \<noteq> CHR ''/''" by (auto dest: last_in_set)
  with n show ?thesis using after_last_append [of "CHR ''/''" b "[]"]
    by (simp add: path_base_def trim_right_last)
qed

lemma after_last_no: "c \<notin> set (after_last s c)"
  by (auto simp: after_last_def dest: set_takeWhileD)

lemma path_base_no_slash: "CHR ''/'' \<in> set (path_base p) \<Longrightarrow> path_base p = ''/''"
  using after_last_no by (auto simp: path_base_def Let_def split: if_splits)

end
