(* ===== verification/Console_Keys.thy ===== *)
theory Console_Keys
  imports Go_Std
begin

text \<open>
  \<open>internal/serialconsole/keys.go\<close>: named keys and the bytes they send.
\<close>

definition KeyBytes :: "string \<Rightarrow> goerr + bytes" where
  "KeyBytes name =
     (let n = to_lower (trim_space name)
      in if n \<in> {''enter'', ''return'', ''cr''} then Inr [CR]
         else if n \<in> {''lf'', ''newline''} then Inr [LF]
         else if n = ''crlf'' then Inr [CR, LF]
         else if n \<in> {''esc'', ''escape''} then Inr [CHR 0x1B]
         else if n = ''space'' then Inr [CHR '' '']
         else if n = ''tab'' then Inr [TAB]
         else if n \<in> {''backspace'', ''bs''} then Inr [CHR 0x08]
         else if n \<in> {''del'', ''delete''} then Inr [CHR 0x7F]
         else if prefix ''ctrl-'' n \<and> length n = 6 \<and> 97 \<le> ord (n ! 5) \<and> ord (n ! 5) \<le> 122
         then Inr [byte (ord (n ! 5) - 97 + 1)]
         else Inl (Err (''serialconsole: unknown key '' @ quote name)))"

text \<open>The loop of \<open>KeysBytes\<close>, with \<open>out\<close> the bytes collected so far.\<close>

fun keys_loop :: "bytes \<Rightarrow> string list \<Rightarrow> goerr + bytes" where
  "keys_loop out [] = Inr out"
| "keys_loop out (name # names) =
     (case KeyBytes name of Inl e \<Rightarrow> Inl e | Inr b \<Rightarrow> keys_loop (out @ b) names)"

definition KeysBytes :: "string list \<Rightarrow> goerr + bytes" where
  "KeysBytes names = keys_loop [] names"

lemma keys_loop_Inr:
  "keys_loop out names = Inr b \<longleftrightarrow>
    (\<exists>bs. list_all2 (\<lambda>n x. KeyBytes n = Inr x) names bs \<and> b = out @ concat bs)"
proof (induction names arbitrary: out)
  case (Cons n ns)
  show ?case
    by (cases "KeyBytes n") (auto simp: Cons.IH list_all2_Cons1)
qed auto

lemma keys_loop_Inl:
  "keys_loop out names = Inl e \<longleftrightarrow>
    (\<exists>i < length names. KeyBytes (names ! i) = Inl e \<and> (\<forall>j < i. isl (KeyBytes (names ! j)) = False))"
proof (induction names arbitrary: out)
  case (Cons n ns)
  have ex: "(\<exists>i < length (n # ns). P i) \<longleftrightarrow> P 0 \<or> (\<exists>i < length ns. P (Suc i))" for P
    by (auto simp: less_Suc_eq_0_disj)
  show ?case
  proof (cases "KeyBytes n")
    case (Inl a)
    then show ?thesis by (subst ex) (auto simp: less_Suc_eq_0_disj)
  next
    case (Inr b)
    then show ?thesis
      by (subst ex) (simp add: Cons.IH All_less_Suc2)
  qed
qed simp

lemma lower_char_idem [simp]: "lower_char (lower_char c) = lower_char c"
  by (auto simp: lower_char_def)

lemma to_lower_idem [simp]: "to_lower (to_lower s) = to_lower s"
  by (simp add: to_lower_def)


lemma ord_neq: "ord c \<noteq> ord d \<Longrightarrow> c \<noteq> d"
  by auto

lemma not_space: "32 < ord c \<Longrightarrow> c \<notin> set spaces"
  by (auto simp: spaces_def ord_def)

lemma lower_ctrl: "map lower_char ''ctrl-'' = ''ctrl-''" "map lower_char ''CTRL-'' = ''ctrl-''"
  by code_simp+

lemma KeyBytes_ctrl:
  assumes "n < 26"
  shows "KeyBytes (''ctrl-'' @ [byte (97 + n)]) = Inr [byte (n + 1)]"
    and "KeyBytes (''CTRL-'' @ [byte (65 + n)]) = Inr [byte (n + 1)]"
proof -
  have sp: "byte (97 + n) \<notin> set spaces" "byte (65 + n) \<notin> set spaces"
    "CHR ''c'' \<notin> set spaces" "CHR ''C'' \<notin> set spaces"
    using assms by (simp_all add: not_space) (simp_all add: spaces_def)
  have lo: "lower_char (byte (97 + n)) = byte (97 + n)" "lower_char (byte (65 + n)) = byte (97 + n)"
    using assms by (simp_all add: lower_char_def add.commute)
  have t: "to_lower (trim_space (''ctrl-'' @ [byte (97 + n)])) = ''ctrl-'' @ [byte (97 + n)]"
    "to_lower (trim_space (''CTRL-'' @ [byte (65 + n)])) = ''ctrl-'' @ [byte (97 + n)]"
    using sp lo lower_ctrl by (simp_all add: trim_space_def trim_left_def trim_right_def to_lower_def)
  from assms show "KeyBytes (''ctrl-'' @ [byte (97 + n)]) = Inr [byte (n + 1)]"
      "KeyBytes (''CTRL-'' @ [byte (65 + n)]) = Inr [byte (n + 1)]"
    unfolding KeyBytes_def t by (simp_all add: Let_def)
qed

text \<open>Named keys. A list of key names is translated exactly when every name is known, and then
  to the concatenation of the keys' bytes in order; otherwise the error is that of the first
  unknown name. Every control key is the control code of its letter, between 1 and 26.\<close>

lemma KeysBytes_exact:
  "(KeysBytes names = Inr b \<longleftrightarrow>
      (\<exists>bs. list_all2 (\<lambda>n x. KeyBytes n = Inr x) names bs \<and> b = concat bs)) \<and>
   (KeysBytes names = Inl e \<longleftrightarrow>
      (\<exists>i < length names. KeyBytes (names ! i) = Inl e \<and> (\<forall>j < i. \<not> isl (KeyBytes (names ! j))))) \<and>
   (\<forall>n < 26. KeyBytes (''ctrl-'' @ [byte (97 + n)]) = Inr [byte (n + 1)] \<and>
      KeyBytes (''CTRL-'' @ [byte (65 + n)]) = Inr [byte (n + 1)])"
proof -
  have "\<forall>n < 26. KeyBytes (''ctrl-'' @ [byte (97 + n)]) = Inr [byte (n + 1)] \<and>
      KeyBytes (''CTRL-'' @ [byte (65 + n)]) = Inr [byte (n + 1)]"
    by (intro allI impI conjI KeyBytes_ctrl)
  then show ?thesis unfolding KeysBytes_def keys_loop_Inr keys_loop_Inl by simp
qed

lemma KeysBytes_exact_witness:
  "KeysBytes [''Enter'', '' ESC '', ''ctrl-c''] = Inr [CR, CHR 0x1B, CHR 0x03] \<and>
   (\<exists>i < 2. KeyBytes ([''tab'', ''bogus''] ! i) =
      Inl (Err (''serialconsole: unknown key '' @ quote ''bogus'')))"
proof -
  have "KeysBytes [''tab'', ''bogus''] = Inl (Err (''serialconsole: unknown key '' @ quote ''bogus''))"
    by code_simp
  with KeysBytes_exact [of "[''tab'', ''bogus'']" _ "Err (''serialconsole: unknown key '' @ quote ''bogus'')"]
  have "\<exists>i < length [''tab'', ''bogus'']. KeyBytes ([''tab'', ''bogus''] ! i) =
      Inl (Err (''serialconsole: unknown key '' @ quote ''bogus''))"
    by blast
  moreover have "length [''tab'', ''bogus''] = 2" by simp
  ultimately have "\<exists>i < 2. KeyBytes ([''tab'', ''bogus''] ! i) =
      Inl (Err (''serialconsole: unknown key '' @ quote ''bogus''))"
    by metis
  moreover have "KeysBytes [''Enter'', '' ESC '', ''ctrl-c''] = Inr [CR, CHR 0x1B, CHR 0x03]" by code_simp
  ultimately show ?thesis by blast
qed

end
