(* ===== verification/Console.thy ===== *)
theory Console
  imports Ring_Buffer Console_Keys
begin

text \<open>
  \<open>internal/serialconsole/console.go\<close>: the console, its subscribers and its reader. Each
  operation below is one critical section of \<open>Console.mu\<close>.

  A Go channel is its queue of chunks, its capacity and whether it has been closed. A
  \<open>subscriber\<close> object is reached both through the map \<open>c.subs\<close> and through the
  \<open>Subscription\<close> handed to the caller, so the objects live in a heap indexed by the
  subscription id and \<open>subs\<close> is the set of ids the map still holds. Closing a closed
  channel and sending on one panic in Go; \<open>panicked\<close> records that.
  \<open>subChanCap\<close> is the package variable of that name (1024 unless a test lowers it).
\<close>

record chan =
  queue :: "bytes list"
  chan_cap :: nat
  chan_closed :: bool

record subscriber =
  ch :: chan
  sub_closed :: bool

record console =
  scroll :: ring
  subs :: "nat set"
  heap :: "subscriber list"
  nextID :: nat
  con_closed :: bool
  closeErr :: "goerr option"
  done_closed :: bool
  subChanCap :: nat
  panicked :: bool

definition DefaultBufferBytes :: int where
  "DefaultBufferBytes = 1048576"

definition default_subChanCap :: nat where
  "default_subChanCap = 1024"

definition new_console :: "nat \<Rightarrow> int \<Rightarrow> console" where
  "new_console cap bufferBytes =
     \<lparr>scroll = newRing (if bufferBytes \<le> 0 then DefaultBufferBytes else bufferBytes),
      subs = {}, heap = [], nextID = 0, con_closed = False, closeErr = None,
      done_closed = False, subChanCap = cap, panicked = False\<rparr>"

definition chan_full :: "chan \<Rightarrow> bool" where
  "chan_full c \<longleftrightarrow> chan_cap c \<le> length (queue c)"

definition chan_push :: "bytes \<Rightarrow> chan \<Rightarrow> chan" where
  "chan_push p c = c\<lparr>queue := queue c @ [p]\<rparr>"

definition chan_close :: "chan \<Rightarrow> chan" where
  "chan_close c = c\<lparr>chan_closed := True\<rparr>"

text \<open>\<open>s.closed = true; close(s.ch)\<close>.\<close>

definition sub_detach :: "subscriber \<Rightarrow> subscriber" where
  "sub_detach s = s\<lparr>sub_closed := True, ch := chan_close (ch s)\<rparr>"

text \<open>One iteration of the loop of \<open>publish\<close> over \<open>c.subs\<close>: what becomes of a subscriber, and
  whether its entry is deleted.\<close>

definition offer :: "bytes \<Rightarrow> subscriber \<Rightarrow> subscriber" where
  "offer p s =
     (if sub_closed s then s
      else if chan_full (ch s) then sub_detach s
      else s\<lparr>ch := chan_push p (ch s)\<rparr>)"

definition too_slow :: "subscriber \<Rightarrow> bool" where
  "too_slow s \<longleftrightarrow> \<not> sub_closed s \<and> chan_full (ch s)"

definition publish :: "bytes \<Rightarrow> console \<Rightarrow> console" where
  "publish p c =
     c\<lparr>scroll := ring_write (scroll c) p,
       heap := map_at (\<lambda>sid s. if sid \<in> subs c then offer p s else s) (heap c),
       subs := Set.filter (\<lambda>sid. \<not> (case look (heap c) sid of Some s \<Rightarrow> too_slow s | None \<Rightarrow> False)) (subs c),
       panicked := (panicked c \<or>
         (\<exists>sid \<in> subs c. case look (heap c) sid of Some s \<Rightarrow> \<not> sub_closed s \<and> chan_closed (ch s)
                        | None \<Rightarrow> True))\<rparr>"

definition closeWithErr :: "goerr \<Rightarrow> console \<Rightarrow> console" where
  "closeWithErr e c =
     (if con_closed c then c
      else c\<lparr>con_closed := True,
             closeErr := Some (if e = EOF_err then ErrClosed else e),
             heap := map_at (\<lambda>sid s. if sid \<in> subs c \<and> \<not> sub_closed s then sub_detach s else s)
                        (heap c),
             subs := {},
             done_closed := True,
             panicked := (panicked c \<or> done_closed c \<or>
               (\<exists>sid \<in> subs c. case look (heap c) sid of Some s \<Rightarrow> \<not> sub_closed s \<and> chan_closed (ch s)
                              | None \<Rightarrow> True))\<rparr>)"

text \<open>\<open>Close\<close>: the transport's own \<open>Close\<close> returns \<open>terr\<close>.\<close>

definition Close :: "goerr option \<Rightarrow> console \<Rightarrow> goerr option \<times> console" where
  "Close terr c = (terr, if con_closed c then c else closeWithErr ErrClosed c)"

definition con_Err :: "console \<Rightarrow> goerr option" where
  "con_Err c = closeErr c"

text \<open>\<open>Write\<close>: \<open>tw\<close> is what the transport's \<open>Write\<close> returns; the last component is the
  bytes handed to the transport, if any.\<close>

definition con_Write :: "(int \<times> goerr option) \<Rightarrow> bytes \<Rightarrow> console \<Rightarrow> (int \<times> goerr option) \<times> bytes option" where
  "con_Write tw p c = (if con_closed c then ((0, Some ErrClosed), None) else (tw, Some p))"

definition con_Snapshot :: "int \<Rightarrow> console \<Rightarrow> bytes \<times> bool" where
  "con_Snapshot maxBytes c = ring_snapshot (scroll c) maxBytes"

definition con_Reset :: "console \<Rightarrow> console" where
  "con_Reset c = c\<lparr>scroll := ring_reset (scroll c)\<rparr>"

definition BufferedBytes :: "console \<Rightarrow> nat" where
  "BufferedBytes c = rsize (scroll c)"

definition TotalWritten :: "console \<Rightarrow> int" where
  "TotalWritten c = totalIn (scroll c)"

definition new_subscriber :: "int \<Rightarrow> console \<Rightarrow> subscriber" where
  "new_subscriber replayBytes c =
     \<lparr>ch = \<lparr>queue = (if 0 < replayBytes
                      then (let snap = fst (ring_snapshot (scroll c) replayBytes)
                            in if 0 < length snap then [snap] else [])
                      else []),
             chan_cap = subChanCap c, chan_closed = False\<rparr>,
      sub_closed = False\<rparr>"

definition Subscribe :: "int \<Rightarrow> console \<Rightarrow> nat \<times> console" where
  "Subscribe replayBytes c =
     (let s = new_subscriber replayBytes c; sid = nextID c
      in if con_closed c
         then (sid, c\<lparr>heap := heap c @ [sub_detach s], nextID := nextID c + 1\<rparr>)
         else (sid, c\<lparr>heap := heap c @ [s], nextID := nextID c + 1, subs := insert sid (subs c)\<rparr>))"

definition sub_Close :: "nat \<Rightarrow> console \<Rightarrow> console" where
  "sub_Close sid c =
     (case look (heap c) sid of None \<Rightarrow> c
      | Some s \<Rightarrow>
          if sid \<in> subs c \<and> \<not> sub_closed s
          then c\<lparr>heap := (heap c)[sid := sub_detach s], subs := subs c - {sid},
                 panicked := (panicked c \<or> chan_closed (ch s))\<rparr>
          else c)"

text \<open>A receive on \<open>sub.C()\<close>: a queued chunk, the end of a closed and drained channel, or
  nothing yet.\<close>

datatype recv = Chunk bytes | Ended | Empty

definition sub_recv :: "nat \<Rightarrow> console \<Rightarrow> recv \<times> console" where
  "sub_recv sid c =
     (case look (heap c) sid of None \<Rightarrow> (Empty, c)
      | Some s \<Rightarrow>
          (case queue (ch s) of
             p # ps \<Rightarrow> (Chunk p, c\<lparr>heap := (heap c)[sid := s\<lparr>ch := (ch s)\<lparr>queue := ps\<rparr>\<rparr>]\<rparr>)
           | [] \<Rightarrow> (if chan_closed (ch s) then Ended else Empty, c)))"

text \<open>\<open>readLoop\<close>: each element is what one \<open>rw.Read\<close> returned; the loop blocks at the end
  of the list.\<close>

fun readLoop :: "(bytes \<times> goerr option) list \<Rightarrow> console \<Rightarrow> console" where
  "readLoop [] c = c"
| "readLoop ((p, err) # rs) c =
     (let c1 = (if 0 < length p then publish p c else c)
      in case err of Some e \<Rightarrow> closeWithErr e c1 | None \<Rightarrow> readLoop rs c1)"

subsection \<open>The invariant\<close>

definition sub_ok :: "subscriber \<Rightarrow> bool" where
  "sub_ok s \<longleftrightarrow> sub_closed s = chan_closed (ch s)"

definition console_ok :: "console \<Rightarrow> bool" where
  "console_ok c \<longleftrightarrow>
     ring_ok (scroll c) \<and> \<not> panicked c \<and> done_closed c = con_closed c \<and>
     (con_closed c \<longleftrightarrow> closeErr c \<noteq> None) \<and> (con_closed c \<longrightarrow> subs c = {}) \<and>
     length (heap c) = nextID c \<and>
     (\<forall>sid s. look (heap c) sid = Some s \<longrightarrow> sub_ok s) \<and>
     (\<forall>sid. sid \<in> subs c \<longleftrightarrow> (\<exists>s. look (heap c) sid = Some s \<and> \<not> sub_closed s))"

lemma console_ok_new [inv_intros]: "console_ok (new_console cap n)"
  by (simp add: console_ok_def new_console_def ring_ok_newRing)

lemma sub_detach_simps [simp]: "sub_ok (sub_detach s)" "sub_closed (sub_detach s)"
  "queue (ch (sub_detach s)) = queue (ch s)"
  by (simp_all add: sub_ok_def sub_detach_def chan_close_def)

lemma sub_ok_offer: "sub_ok s \<Longrightarrow> sub_ok (offer p s)"
  by (simp add: sub_ok_def offer_def sub_detach_def chan_close_def chan_push_def)

lemma sub_closed_offer: "sub_closed (offer p s) \<longleftrightarrow> sub_closed s \<or> too_slow s"
  by (simp add: offer_def too_slow_def sub_detach_def)

lemma console_ok_publish [inv_intros]:
  assumes "console_ok c"
  shows "console_ok (publish p c)"
proof -
  have h: "sid \<in> subs c \<longleftrightarrow> (\<exists>s. look (heap c) sid = Some s \<and> \<not> sub_closed s)"
    and n: "length (heap c) = nextID c"
    and s: "look (heap c) sid = Some s \<Longrightarrow> sub_ok s" for sid s
    using assms by (auto simp: console_ok_def)
  have "\<not> panicked (publish p c)"
    using assms s by (auto simp: publish_def console_ok_def sub_ok_def split: option.splits)
  moreover have "sid \<in> subs (publish p c) \<longleftrightarrow>
      (\<exists>s. look (heap (publish p c)) sid = Some s \<and> \<not> sub_closed s)" for sid
    using h [of sid] by (auto simp: publish_def sub_closed_offer split: option.splits)
      (metis sub_closed_offer)
  moreover have "length (heap (publish p c)) = nextID (publish p c)"
    using n by (simp add: publish_def)
  moreover have "look (heap (publish p c)) sid = Some s' \<Longrightarrow> sub_ok s'" for sid s'
    using s [of sid] by (auto simp: publish_def sub_ok_offer split: if_splits)
  ultimately show ?thesis
    using assms by (auto simp: console_ok_def publish_def ring_ok_write)
qed

lemma console_ok_closeWithErr [inv_intros]:
  assumes "console_ok c"
  shows "console_ok (closeWithErr e c)"
proof (cases "con_closed c")
  case True
  with assms show ?thesis by (simp add: closeWithErr_def)
next
  case False
  let ?c = "closeWithErr e c"
  have h: "sid \<in> subs c \<longleftrightarrow> (\<exists>s. look (heap c) sid = Some s \<and> \<not> sub_closed s)"
    and n: "length (heap c) = nextID c"
    and s: "look (heap c) sid = Some s \<Longrightarrow> sub_ok s" for sid s
    using assms by (auto simp: console_ok_def)
  have "\<not> panicked ?c"
    using assms s False by (auto simp: closeWithErr_def console_ok_def sub_ok_def split: option.splits)
  moreover have "length (heap ?c) = nextID ?c"
    using n False by (simp add: closeWithErr_def)
  moreover have "look (heap ?c) sid = Some s' \<Longrightarrow> sub_ok s' \<and> sub_closed s'" for sid s'
    using s [of sid] h [of sid] False
    by (auto simp: closeWithErr_def split: if_splits) (metis sub_detach_simps(2))?
  moreover have "ring_ok (scroll ?c)" "con_closed ?c" "done_closed ?c" "closeErr ?c \<noteq> None" "subs ?c = {}"
    using assms False by (simp_all add: console_ok_def closeWithErr_def)
  ultimately show ?thesis
    unfolding console_ok_def by (metis empty_iff)
qed

lemma console_ok_Close [inv_intros]: "console_ok c \<Longrightarrow> console_ok (snd (Close t c))"
  by (simp add: Close_def console_ok_closeWithErr)

lemma console_ok_Reset [inv_intros]: "console_ok c \<Longrightarrow> console_ok (con_Reset c)"
  by (auto simp: console_ok_def con_Reset_def ring_ok_reset)

lemma console_ok_Subscribe [inv_intros]: "console_ok c \<Longrightarrow> console_ok (snd (Subscribe n c))"
  by (auto simp: console_ok_def Subscribe_def Let_def sub_ok_def sub_detach_def chan_close_def
      new_subscriber_def look_snoc dest: look_less)

lemma console_ok_sub_Close [inv_intros]: "console_ok c \<Longrightarrow> console_ok (sub_Close sid c)"
  by (auto simp: console_ok_def sub_Close_def sub_ok_def sub_detach_def chan_close_def
      look_update split: option.splits) (metis option.inject look_less)+

lemma console_ok_recv [inv_intros]: "console_ok c \<Longrightarrow> console_ok (snd (sub_recv sid c))"
  by (auto simp: console_ok_def sub_recv_def sub_ok_def look_update split: option.splits list.splits)

lemma console_ok_readLoop [inv_intros]: "console_ok c \<Longrightarrow> console_ok (readLoop rs c)"
  by (induction rs c rule: readLoop.induct)
    (auto simp: Let_def console_ok_publish console_ok_closeWithErr split: option.splits)


subsection \<open>What a subscriber receives\<close>

text \<open>
  A history of the console: every critical section that touches the subscriptions, with
  ghost state recording what has been published (\<open>log\<close>), what each subscription has
  handed out (\<open>recvd\<close>), and where each subscription began: its replay and the length of
  the log when it was opened.
\<close>

datatype con_op =
    OPublish bytes
  | OSubscribe int
  | OUnsubscribe nat
  | ORecv nat
  | OReset
  | OClose goerr

record con_hist =
  cons :: console
  log :: bytes
  recvd :: "nat \<Rightarrow> bytes"
  replay :: "nat \<Rightarrow> bytes"
  origin :: "nat \<Rightarrow> nat"

fun con_step :: "con_hist \<Rightarrow> con_op \<Rightarrow> con_hist" where
  "con_step h (OPublish p) = h\<lparr>cons := publish p (cons h), log := log h @ p\<rparr>"
| "con_step h (OSubscribe n) =
     (let (i, c) = Subscribe n (cons h)
      in h\<lparr>cons := c, recvd := (recvd h)(i := []),
           replay := (replay h)(i := concat (queue (ch (new_subscriber n (cons h))))),
           origin := (origin h)(i := length (log h))\<rparr>)"
| "con_step h (OUnsubscribe i) = h\<lparr>cons := sub_Close i (cons h)\<rparr>"
| "con_step h (ORecv i) =
     (case sub_recv i (cons h) of
        (Chunk p, c) \<Rightarrow> h\<lparr>cons := c, recvd := (recvd h)(i := recvd h i @ p)\<rparr>
      | (_, c) \<Rightarrow> h\<lparr>cons := c\<rparr>)"
| "con_step h OReset = h\<lparr>cons := con_Reset (cons h)\<rparr>"
| "con_step h (OClose e) = h\<lparr>cons := closeWithErr e (cons h)\<rparr>"

definition con_start :: "nat \<Rightarrow> int \<Rightarrow> con_hist" where
  "con_start cap n =
     \<lparr>cons = new_console cap n, log = [], recvd = (\<lambda>_. []), replay = (\<lambda>_. []), origin = (\<lambda>_. 0)\<rparr>"

definition con_run :: "con_hist \<Rightarrow> con_op list \<Rightarrow> con_hist" where
  "con_run = foldl con_step"

text \<open>Handed out and still queued, a subscription has its replay and then the log from its
  origin on: all of it while it is attached, an initial part of it once it is detached.\<close>

definition stream_ok :: "con_hist \<Rightarrow> bool" where
  "stream_ok h \<longleftrightarrow> console_ok (cons h) \<and>
     (\<forall>i s. look (heap (cons h)) i = Some s \<longrightarrow> origin h i \<le> length (log h) \<and>
        (\<exists>seen. recvd h i @ concat (queue (ch s)) = replay h i @ seen \<and>
           prefix seen (drop (origin h i) (log h)) \<and>
           (\<not> sub_closed s \<longrightarrow> seen = drop (origin h i) (log h))))"

lemma stream_okI:
  assumes "console_ok (cons h)"
    and "\<And>i s. look (heap (cons h)) i = Some s \<Longrightarrow> origin h i \<le> length (log h) \<and>
        (\<exists>seen. recvd h i @ concat (queue (ch s)) = replay h i @ seen \<and>
           prefix seen (drop (origin h i) (log h)) \<and>
           (\<not> sub_closed s \<longrightarrow> seen = drop (origin h i) (log h)))"
  shows "stream_ok h"
  using assms by (simp add: stream_ok_def)

lemma stream_okD:
  assumes "stream_ok h" "look (heap (cons h)) i = Some s"
  obtains seen where "origin h i \<le> length (log h)"
    "recvd h i @ concat (queue (ch s)) = replay h i @ seen"
    "prefix seen (drop (origin h i) (log h))"
    "\<not> sub_closed s \<longrightarrow> seen = drop (origin h i) (log h)"
  using assms unfolding stream_ok_def by blast

lemma stream_ok_start [inv_intros]: "stream_ok (con_start cap n)"
  by (simp add: stream_ok_def con_start_def console_ok_new) (simp add: new_console_def)

lemma queue_offer:
  "queue (ch (offer p s)) = (if sub_closed s \<or> chan_full (ch s) then queue (ch s) else queue (ch s) @ [p])"
  by (simp add: offer_def sub_detach_def chan_close_def chan_push_def)

lemma stream_ok_publish:
  assumes "stream_ok h"
  shows "stream_ok (con_step h (OPublish p))"
proof (rule stream_okI)
  show "console_ok (cons (con_step h (OPublish p)))"
    using assms by (simp add: stream_ok_def console_ok_publish)
next
  fix i s'
  assume "look (heap (cons (con_step h (OPublish p)))) i = Some s'"
  then obtain s where s: "look (heap (cons h)) i = Some s"
    and s': "s' = (if i \<in> subs (cons h) then offer p s else s)"
    by (auto simp: publish_def)
  from stream_okD [OF assms s] obtain seen where seen: "origin h i \<le> length (log h)"
    "recvd h i @ concat (queue (ch s)) = replay h i @ seen" "prefix seen (drop (origin h i) (log h))"
    "\<not> sub_closed s \<longrightarrow> seen = drop (origin h i) (log h)" .
  have "i \<in> subs (cons h) \<longleftrightarrow> \<not> sub_closed s"
    using assms s by (auto simp: stream_ok_def console_ok_def)
  then have cl: "sub_closed s' \<longleftrightarrow> sub_closed s \<or> chan_full (ch s)"
    and q: "queue (ch s') = (if sub_closed s' then queue (ch s) else queue (ch s) @ [p])"
    using s' by (auto simp: sub_closed_offer too_slow_def queue_offer)
  have pre: "prefix seen (drop (origin h i) (log h) @ p)"
    using seen(3) by (rule prefix_prefix)
  show "origin (con_step h (OPublish p)) i \<le> length (log (con_step h (OPublish p))) \<and>
      (\<exists>seen. recvd (con_step h (OPublish p)) i @ concat (queue (ch s')) =
          replay (con_step h (OPublish p)) i @ seen \<and>
        prefix seen (drop (origin (con_step h (OPublish p)) i) (log (con_step h (OPublish p)))) \<and>
        (\<not> sub_closed s' \<longrightarrow> seen = drop (origin (con_step h (OPublish p)) i) (log (con_step h (OPublish p)))))"
  proof (cases "sub_closed s'")
    case True
    then show ?thesis using seen(1,2) pre q by (auto intro!: exI [of _ seen])
  next
    case False
    with cl have "\<not> sub_closed s" by simp
    with seen have e: "seen = drop (origin h i) (log h)" by blast
    show ?thesis
      using seen(1,2) q False e by (auto intro!: exI [of _ "seen @ p"])
  qed
qed

text \<open>The other steps keep the log, so they only have to keep what each subscription has.\<close>

lemma stream_ok_same_log:
  assumes ok: "stream_ok h" and cok: "console_ok (cons h')"
    and lg: "log h' = log h"
    and sim: "\<And>i s'. look (heap (cons h')) i = Some s' \<Longrightarrow>
      (recvd h' i @ concat (queue (ch s')) = replay h' i \<and> origin h' i = length (log h)) \<or>
      (\<exists>s. look (heap (cons h)) i = Some s \<and> (sub_closed s \<longrightarrow> sub_closed s') \<and>
         recvd h' i @ concat (queue (ch s')) = recvd h i @ concat (queue (ch s)) \<and>
         replay h' i = replay h i \<and> origin h' i = origin h i)"
  shows "stream_ok h'"
proof (rule stream_okI [OF cok])
  fix i s' assume "look (heap (cons h')) i = Some s'"
  from sim [OF this] show "origin h' i \<le> length (log h') \<and>
      (\<exists>seen. recvd h' i @ concat (queue (ch s')) = replay h' i @ seen \<and>
         prefix seen (drop (origin h' i) (log h')) \<and>
         (\<not> sub_closed s' \<longrightarrow> seen = drop (origin h' i) (log h')))"
  proof
    assume "recvd h' i @ concat (queue (ch s')) = replay h' i \<and> origin h' i = length (log h)"
    then show ?thesis using lg by simp
  next
    assume "\<exists>s. look (heap (cons h)) i = Some s \<and> (sub_closed s \<longrightarrow> sub_closed s') \<and>
         recvd h' i @ concat (queue (ch s')) = recvd h i @ concat (queue (ch s)) \<and>
         replay h' i = replay h i \<and> origin h' i = origin h i"
    then obtain s where s: "look (heap (cons h)) i = Some s" and k: "sub_closed s \<longrightarrow> sub_closed s'"
      "recvd h' i @ concat (queue (ch s')) = recvd h i @ concat (queue (ch s))"
      "replay h' i = replay h i" "origin h' i = origin h i" by blast
    from stream_okD [OF ok s] show ?thesis using k lg by metis
  qed
qed

lemma stream_ok_step: "stream_ok h \<Longrightarrow> stream_ok (con_step h e)"
proof (cases e)
  case (OPublish p)
  then show "stream_ok h \<Longrightarrow> ?thesis" using stream_ok_publish by simp
next
  case (OSubscribe n)
  assume ok: "stream_ok h"
  then have cok: "console_ok (cons h)" and len: "nextID (cons h) = length (heap (cons h))"
    by (simp_all add: stream_ok_def console_ok_def)
  show ?thesis
    by (rule stream_ok_same_log [OF ok]) (use OSubscribe len console_ok_Subscribe [OF cok, of n] in
      \<open>auto simp: Let_def Subscribe_def look_snoc sub_detach_def chan_close_def split: if_splits\<close>)
next
  case (OUnsubscribe i)
  assume ok: "stream_ok h"
  then have cok: "console_ok (cons h)" by (simp add: stream_ok_def)
  show ?thesis
    by (rule stream_ok_same_log [OF ok]) (use OUnsubscribe console_ok_sub_Close [OF cok, of i] in
      \<open>auto simp: sub_Close_def look_update sub_detach_def chan_close_def split: if_splits option.splits\<close>)
next
  case (ORecv i)
  assume ok: "stream_ok h"
  then have cok: "console_ok (cons h)" by (simp add: stream_ok_def)
  show ?thesis
    by (rule stream_ok_same_log [OF ok]) (use ORecv console_ok_recv [OF cok, of i] in
      \<open>auto simp: sub_recv_def look_update dest: look_less split: if_splits option.splits list.splits\<close>)
next
  case OReset
  assume ok: "stream_ok h"
  then have cok: "console_ok (cons h)" by (simp add: stream_ok_def)
  show ?thesis
    by (rule stream_ok_same_log [OF ok]) (use OReset console_ok_Reset [OF cok] in
      \<open>auto simp: con_Reset_def\<close>)
next
  case (OClose x)
  assume ok: "stream_ok h"
  then have cok: "console_ok (cons h)" by (simp add: stream_ok_def)
  show ?thesis
    by (rule stream_ok_same_log [OF ok]) (use OClose console_ok_closeWithErr [OF cok, of x] in
      \<open>auto simp: closeWithErr_def sub_detach_def chan_close_def split: if_splits\<close>)
qed

lemma stream_ok_run: "stream_ok h \<Longrightarrow> stream_ok (con_run h es)"
  by (induction es arbitrary: h) (simp_all add: con_run_def stream_ok_step)




end
