(* ===== verification/Regexp.thy ===== *)
theory Regexp
  imports Go_Std
begin

text \<open>
  The part of Go's \<open>regexp\<close> the program uses: \<open>MatchString\<close> and \<open>FindIndex\<close> on byte
  strings. A compiled expression is its syntax tree; the tree has the RE2 constructs the
  program's own patterns use (literals, classes, \<open>.\<close>, \<open>?\<close>, \<open>*\<close>, alternation, end of
  text). Parsing of a pattern text into a tree (\<open>regexp.Compile\<close>) is a parameter of the
  operations that compile a caller's pattern. \<open>re_ends r s i\<close> lists the ends of the
  matches of \<open>r\<close> that start at \<open>i\<close> in the order a backtracking matcher prefers them, so
  the first is the leftmost-first match RE2 reports.
\<close>

datatype re =
    REps
  | RChar char
  | RClass "char list"
  | RAny
  | REnd
  | RSeq re re
  | RAlt re re
  | ROpt re
  | RStar re

function (sequential) re_ends :: "re \<Rightarrow> bytes \<Rightarrow> nat \<Rightarrow> nat list" where
  "re_ends REps s i = [i]"
| "re_ends (RChar c) s i = (if i < length s \<and> s ! i = c then [Suc i] else [])"
| "re_ends (RClass cs) s i = (if i < length s \<and> s ! i \<in> set cs then [Suc i] else [])"
| "re_ends RAny s i = (if i < length s \<and> s ! i \<noteq> LF then [Suc i] else [])"
| "re_ends REnd s i = (if i = length s then [i] else [])"
| "re_ends (RSeq a b) s i = concat (map (\<lambda>j. re_ends b s j) (re_ends a s i))"
| "re_ends (RAlt a b) s i = re_ends a s i @ re_ends b s i"
| "re_ends (ROpt a) s i = re_ends a s i @ [i]"
| "re_ends (RStar a) s i =
     concat (map (\<lambda>j. if i < j \<and> j \<le> length s then re_ends (RStar a) s j else []) (re_ends a s i)) @ [i]"
  by pat_completeness auto
termination
  by (relation "measures [\<lambda>(r, s, i). size r, \<lambda>(r, s, i). length s - i]") auto

declare re_ends.simps(9) [simp del]

lemma re_ends_star_iff:
  "k \<in> set (re_ends (RStar a) s i) \<longleftrightarrow>
    k = i \<or> (\<exists>j \<in> set (re_ends a s i). i < j \<and> j \<le> length s \<and> k \<in> set (re_ends (RStar a) s j))"
  by (subst re_ends.simps(9)) auto

definition re_find :: "re \<Rightarrow> bytes \<Rightarrow> (nat \<times> nat) option" where
  "re_find r s =
     (case find (\<lambda>i. re_ends r s i \<noteq> []) [0..<Suc (length s)] of
        None \<Rightarrow> None
      | Some i \<Rightarrow> Some (i, hd (re_ends r s i)))"

definition re_match :: "re \<Rightarrow> bytes \<Rightarrow> bool" where
  "re_match r s \<longleftrightarrow> re_find r s \<noteq> None"

fun re_lit :: "string \<Rightarrow> re" where
  "re_lit [] = REps"
| "re_lit [c] = RChar c"
| "re_lit (c # cs) = RSeq (RChar c) (re_lit cs)"

fun re_alts :: "re list \<Rightarrow> re" where
  "re_alts [] = RClass []"
| "re_alts [r] = r"
| "re_alts (r # rs) = RAlt r (re_alts rs)"

text \<open>Trees with no end-of-text assertion, and a bound on the length of a match.\<close>

fun anchor_free :: "re \<Rightarrow> bool" where
  "anchor_free REnd = False"
| "anchor_free (RSeq a b) = (anchor_free a \<and> anchor_free b)"
| "anchor_free (RAlt a b) = (anchor_free a \<and> anchor_free b)"
| "anchor_free (ROpt a) = anchor_free a"
| "anchor_free (RStar a) = anchor_free a"
| "anchor_free r = True"

fun re_width :: "re \<Rightarrow> nat option" where
  "re_width REps = Some 0"
| "re_width REnd = Some 0"
| "re_width (RSeq a b) =
     (case (re_width a, re_width b) of (Some m, Some n) \<Rightarrow> Some (m + n) | _ \<Rightarrow> None)"
| "re_width (RAlt a b) =
     (case (re_width a, re_width b) of (Some m, Some n) \<Rightarrow> Some (max m n) | _ \<Rightarrow> None)"
| "re_width (ROpt a) = re_width a"
| "re_width (RStar a) = None"
| "re_width r = Some 1"

definition re_hit :: "re \<Rightarrow> bytes \<Rightarrow> nat \<Rightarrow> nat \<Rightarrow> bool" where
  "re_hit r s a b \<longleftrightarrow> a \<le> length s \<and> b \<in> set (re_ends r s a)"

lemma re_ends_bounds: "i \<le> length s \<Longrightarrow> j \<in> set (re_ends r s i) \<Longrightarrow> i \<le> j \<and> j \<le> length s"
proof (induction r s i arbitrary: j rule: re_ends.induct)
  case (6 a b s i)
  from "6.prems"(2) obtain k where k: "k \<in> set (re_ends a s i)" "j \<in> set (re_ends b s k)" by auto
  have "i \<le> k \<and> k \<le> length s" by (rule "6.IH"(1) [OF "6.prems"(1) k(1)])
  moreover from this have "k \<le> j \<and> j \<le> length s" using "6.IH"(2) [OF k(1) _ k(2)] by blast
  ultimately show ?case by linarith
next
  case (9 a s i)
  from "9.prems"(2) consider "j = i"
    | k where "k \<in> set (re_ends a s i)" "i < k" "k \<le> length s" "j \<in> set (re_ends (RStar a) s k)"
    by (subst (asm) re_ends_star_iff) auto
  then show ?case
  proof cases
    case 2
    from "9.IH"(2) [OF 2(1) _ 2(3,4)] 2(2,3) show ?thesis by simp
  qed (use "9.prems" in simp)
qed (auto split: if_splits)

lemma re_ends_shift:
  "re_ends r (u @ s) (length u + i) = map ((+) (length u)) (re_ends r s i)"
proof (induction r s i rule: re_ends.induct)
  case (6 a b s i)
  then show ?case by (simp add: map_concat comp_def cong: map_cong)
next
  case (9 a s i)
  have "concat (map (\<lambda>x. if i < x \<and> x \<le> length s then re_ends (RStar a) (u @ s) (length u + x) else [])
          (re_ends a s i))
      = concat (map (\<lambda>x. map ((+) (length u)) (if i < x \<and> x \<le> length s then re_ends (RStar a) s x else []))
          (re_ends a s i))"
    using "9.IH"(2) by (intro arg_cong [of _ _ concat] map_cong) auto
  then show ?case
    using "9.IH"(1)
    by (subst (1 2) re_ends.simps(9)) (simp add: map_concat comp_def)
qed (auto simp: nth_append)

lemma re_ends_extend:
  "anchor_free r \<Longrightarrow> i \<le> length s \<Longrightarrow> j \<le> length s \<Longrightarrow>
   j \<in> set (re_ends r (s @ v) i) \<longleftrightarrow> j \<in> set (re_ends r s i)"
proof (induction r s i arbitrary: j rule: re_ends.induct)
  case (6 a b s i)
  have "(\<exists>k \<in> set (re_ends a (s @ v) i). j \<in> set (re_ends b (s @ v) k)) \<longleftrightarrow>
        (\<exists>k \<in> set (re_ends a s i). j \<in> set (re_ends b s k))" (is "?L \<longleftrightarrow> ?R")
  proof
    assume ?L
    then obtain k where k: "k \<in> set (re_ends a (s @ v) i)" "j \<in> set (re_ends b (s @ v) k)" by auto
    have "k \<le> length (s @ v)" using re_ends_bounds [OF _ k(1)] "6.prems" by auto
    then have kj: "k \<le> length s" using re_ends_bounds [OF _ k(2)] "6.prems" by auto
    with "6" k show ?R by auto
  next
    assume ?R
    then obtain k where k: "k \<in> set (re_ends a s i)" "j \<in> set (re_ends b s k)" by auto
    then have "k \<le> length s" using re_ends_bounds "6.prems" by blast
    with "6" k show ?L by auto
  qed
  then show ?case by simp
next
  case (9 a s i)
  show ?case
  proof
    assume "j \<in> set (re_ends (RStar a) (s @ v) i)"
    then consider "j = i" | k where "k \<in> set (re_ends a (s @ v) i)" "i < k" "k \<le> length (s @ v)"
      "j \<in> set (re_ends (RStar a) (s @ v) k)"
      by (subst (asm) re_ends_star_iff) auto
    then show "j \<in> set (re_ends (RStar a) s i)"
    proof cases
      case 1
      then show ?thesis by (subst re_ends_star_iff) simp
    next
      case 2
      then have kj: "k \<le> length s" using re_ends_bounds [OF _ 2(4)] "9.prems"(3) by auto
      with 2 "9.IH"(1) "9.prems" have k: "k \<in> set (re_ends a s i)" by simp
      with 2 kj "9.IH"(2) [OF k] "9.prems" have "j \<in> set (re_ends (RStar a) s k)" by simp
      with 2 kj k show ?thesis by (subst re_ends_star_iff) auto
    qed
  next
    assume "j \<in> set (re_ends (RStar a) s i)"
    then consider "j = i" | k where "k \<in> set (re_ends a s i)" "i < k" "k \<le> length s"
      "j \<in> set (re_ends (RStar a) s k)"
      by (subst (asm) re_ends_star_iff) auto
    then show "j \<in> set (re_ends (RStar a) (s @ v) i)"
    proof cases
      case 1
      then show ?thesis by (subst re_ends_star_iff) simp
    next
      case 2
      with "9.IH"(1) "9.prems" have k: "k \<in> set (re_ends a (s @ v) i)" by simp
      from 2 "9.IH"(2) [OF 2(1)] "9.prems" have "j \<in> set (re_ends (RStar a) (s @ v) k)" by simp
      with 2 k show ?thesis by (subst re_ends_star_iff) auto
    qed
  qed
qed (auto simp: nth_append)

lemma re_ends_width:
  "re_width r = Some w \<Longrightarrow> j \<in> set (re_ends r s i) \<Longrightarrow> j \<le> i + w"
proof (induction r s i arbitrary: j w rule: re_ends.induct)
  case (6 a b s i)
  then obtain m n where w: "re_width a = Some m" "re_width b = Some n" "w = m + n"
    by (auto split: option.splits)
  from "6.prems"(2) obtain k where k: "k \<in> set (re_ends a s i)" "j \<in> set (re_ends b s k)" by auto
  from "6.IH"(1) [OF w(1) k(1)] "6.IH"(2) [OF k(1) w(2) k(2)] w(3) show ?case by simp
next
  case (7 a b s i)
  then show ?case by (fastforce split: option.splits)
next
  case (8 a s i)
  then show ?case by fastforce
qed (auto split: if_splits)

lemma re_find_Some:
  assumes "re_find r s = Some (a, b)"
  shows "a \<le> b" "b \<le> length s" "re_hit r s a b"
proof -
  from assms have f: "find (\<lambda>i. re_ends r s i \<noteq> []) [0..<Suc (length s)] = Some a"
    and b: "b = hd (re_ends r s a)"
    by (auto simp: re_find_def split: option.splits)
  from f obtain k where "k < length [0..<Suc (length s)]" "re_ends r s ([0..<Suc (length s)] ! k) \<noteq> []"
    "a = [0..<Suc (length s)] ! k"
    unfolding find_Some_iff by blast
  then have a: "a \<le> length s" and "re_ends r s a \<noteq> []" by (auto simp del: upt_Suc)
  with b have m: "b \<in> set (re_ends r s a)" by simp
  from re_ends_bounds [OF a m] a m show "a \<le> b" "b \<le> length s" "re_hit r s a b"
    by (auto simp: re_hit_def)
qed

lemma re_find_None: "re_find r s = None \<Longrightarrow> \<not> re_hit r s a b"
  by (auto simp: re_find_def re_hit_def find_None_iff split: option.splits simp del: upt_Suc)

lemma re_match_iff: "re_match r s \<longleftrightarrow> (\<exists>a b. re_hit r s a b)"
proof (cases "re_find r s")
  case None
  then show ?thesis using re_find_None by (auto simp: re_match_def)
next
  case (Some ab)
  then obtain a b where "re_find r s = Some (a, b)" by (cases ab) auto
  then show ?thesis using re_find_Some(3) by (fastforce simp: re_match_def)
qed

subsection \<open>The matcher interface\<close>

text \<open>
  What an incremental scan relies on: \<open>find\<close> reports a match exactly when there is one,
  a match depends only on the bytes it spans, and no match is longer than \<open>W\<close>.
\<close>

locale matcher =
  fixes srch :: "bytes \<Rightarrow> (nat \<times> nat) option"
    and hit :: "bytes \<Rightarrow> nat \<Rightarrow> nat \<Rightarrow> bool"
    and W :: nat
  assumes srch_hit: "srch s = Some (a, b) \<Longrightarrow> hit s a b"
    and srch_none: "srch s = None \<Longrightarrow> \<not> hit s a b"
    and hit_le: "hit s a b \<Longrightarrow> a \<le> b \<and> b \<le> length s"
    and hit_prepend: "hit (u @ s) (length u + a) (length u + b) = hit s a b"
    and hit_append: "b \<le> length s \<Longrightarrow> hit (s @ v) a b = hit s a b"
    and hit_width: "hit s a b \<Longrightarrow> b - a \<le> W"
begin

lemma srch_none_iff: "srch s = None \<longleftrightarrow> (\<forall>a b. \<not> hit s a b)"
proof
  assume "srch s = None"
  then show "\<forall>a b. \<not> hit s a b" using srch_none by blast
next
  assume "\<forall>a b. \<not> hit s a b"
  then show "srch s = None" using srch_hit by (metis not_None_eq prod.collapse)
qed

lemma hit_drop: "n \<le> a \<Longrightarrow> a \<le> b \<Longrightarrow> n \<le> length s \<Longrightarrow> hit (drop n s) (a - n) (b - n) = hit s a b"
  using hit_prepend [of "take n s" "drop n s" "a - n" "b - n"] by simp

end

lemma re_matcher:
  assumes "anchor_free r" "re_width r = Some w"
  shows "matcher (re_find r) (re_hit r) w"
proof
  show "re_hit r s a b" if "re_find r s = Some (a, b)" for s a b
    using re_find_Some(3) [OF that] .
  show "\<not> re_hit r s a b" if "re_find r s = None" for s a b
    using re_find_None [OF that] .
  show "a \<le> b \<and> b \<le> length s" if "re_hit r s a b" for s a b
    using that re_ends_bounds [of a s b r] by (simp add: re_hit_def)
  show "re_hit r (u @ s) (length u + a) (length u + b) = re_hit r s a b" for u s a b
    by (auto simp: re_hit_def re_ends_shift)
  show "re_hit r (s @ v) a b = re_hit r s a b" if "b \<le> length s" for s v a b
  proof (cases "a \<le> length s")
    case True
    with that assms(1) show ?thesis by (simp add: re_hit_def re_ends_extend)
  next
    case False
    then show ?thesis using that re_ends_bounds [of a "s @ v" b r] by (auto simp: re_hit_def)
  qed
  show "b - a \<le> w" if "re_hit r s a b" for s a b
    using that re_ends_width [OF assms(2)] by (fastforce simp: re_hit_def)
qed

end
