(* ===== verification/Pattern_Wait.thy ===== *)
theory Pattern_Wait
  imports Console Regexp
begin

text \<open>
  The pattern scanner and \<open>WaitForPattern\<close> of \<open>internal/serialconsole/console.go\<close>.

  A goroutine of the program is a function of a script of events. \<open>Go b\<close> schedules the
  goroutine for one atomic action (a critical section of a mutex, or one \<open>select\<close>, where
  \<open>b\<close> chooses the context branch when both branches are ready); every other event is what
  the rest of the program does in between: the console's reader and its other users
  (\<open>Con\<close>), and contexts that end (\<open>Fire\<close>). When the script is used up before the
  goroutine returns, the result is \<open>None\<close> and the state reached: it is still waiting.
  Contexts are numbered by nesting depth, and \<open>context.WithTimeout\<close> of level \<open>k\<close> is level
  \<open>k + 1\<close>: when a level ends, every level below it ends with the same error.
\<close>

datatype ev = Con con_op | Fire nat goerr | Go bool

record 'e world =
  hist :: con_hist
  ctxs :: "goerr option list"
  txres :: "goerr option list"
  sent :: "bytes list"
  emitted :: "'e list"

abbreviation conw :: "('e, 'x) world_scheme \<Rightarrow> console" where
  "conw w \<equiv> cons (hist w)"

definition con_do :: "con_op \<Rightarrow> 'e world \<Rightarrow> 'e world" where
  "con_do e w = w\<lparr>hist := con_step (hist w) e\<rparr>"

text \<open>\<open>ctx.Err()\<close> of the context of level \<open>k\<close>, and the end of a context.\<close>

definition ctx_err :: "'e world \<Rightarrow> nat \<Rightarrow> goerr option" where
  "ctx_err w k = (case look (ctxs w) k of None \<Rightarrow> None | Some e \<Rightarrow> e)"

definition ctx_fire :: "nat \<Rightarrow> goerr \<Rightarrow> 'e world \<Rightarrow> 'e world" where
  "ctx_fire k e w = w\<lparr>ctxs := map_at (\<lambda>j c. if k \<le> j \<and> c = None then Some e else c) (ctxs w)\<rparr>"

fun env :: "ev \<Rightarrow> 'e world \<Rightarrow> 'e world" where
  "env (Con e) w = con_do e w"
| "env (Fire k e) w = ctx_fire k e w"
| "env (Go b) w = w"

lemma ctx_err_frame [simp, frame_simps]:
  "ctx_err (w\<lparr>hist := h\<rparr>) = ctx_err w" "ctx_err (w\<lparr>sent := t\<rparr>) = ctx_err w"
  "ctx_err (w\<lparr>txres := x\<rparr>) = ctx_err w" "ctx_err (w\<lparr>emitted := es\<rparr>) = ctx_err w"
  by (simp_all add: fun_eq_iff ctx_err_def)

text \<open>\<open>context.WithTimeout(ctx, d)\<close>, with \<open>ctx\<close> of level \<open>k\<close>.\<close>

definition with_timeout :: "nat \<Rightarrow> duration \<Rightarrow> 'e world \<Rightarrow> 'e world" where
  "with_timeout k d w =
     w\<lparr>ctxs := take (k + 1) (ctxs w) @
               [if ctx_err w k \<noteq> None then ctx_err w k else if d \<le> 0 then Some Deadline else None]\<rparr>"

lemma fst_triple: "fst x = a \<Longrightarrow> x = (a, fst (snd x), snd (snd x))"
  by (cases x) auto

type_synonym ('a, 'e) proc = "ev list \<Rightarrow> 'e world \<Rightarrow> 'a option \<times> ev list \<times> 'e world"

fun atomic :: "('e world \<Rightarrow> 'a \<times> 'e world) \<Rightarrow> ('a, 'e) proc" where
  "atomic f [] w = (None, [], w)"
| "atomic f (Go b # es) w = (let (a, w') = f w in (Some a, es, w'))"
| "atomic f (e # es) w = atomic f es (env e w)"

definition return_p :: "'a \<Rightarrow> ('a, 'e) proc" where
  "return_p a es w = (Some a, es, w)"

definition bind_p :: "('a, 'e) proc \<Rightarrow> ('a \<Rightarrow> ('b, 'e) proc) \<Rightarrow> ('b, 'e) proc" where
  "bind_p m f es w = (case m es w of (None, es', w') \<Rightarrow> (None, es', w')
                                   | (Some a, es', w') \<Rightarrow> f a es' w')"

text \<open>A local state update between two atomic actions.\<close>

definition modify_p :: "('e world \<Rightarrow> 'e world) \<Rightarrow> (unit, 'e) proc" where
  "modify_p f es w = (Some (), es, f w)"

text \<open>The atomic actions on the console and on a context.\<close>

definition a_Subscribe :: "int \<Rightarrow> 'e world \<Rightarrow> nat \<times> 'e world" where
  "a_Subscribe n w = (nextID (conw w), con_do (OSubscribe n) w)"

definition a_Unsubscribe :: "nat \<Rightarrow> 'e world \<Rightarrow> unit \<times> 'e world" where
  "a_Unsubscribe i w = ((), con_do (OUnsubscribe i) w)"

definition a_ctx_err :: "nat \<Rightarrow> 'e world \<Rightarrow> goerr option \<times> 'e world" where
  "a_ctx_err k w = (ctx_err w k, w)"

definition a_Err :: "'e world \<Rightarrow> goerr option \<times> 'e world" where
  "a_Err w = (con_Err (conw w), w)"

definition a_TotalWritten :: "'e world \<Rightarrow> int \<times> 'e world" where
  "a_TotalWritten w = (TotalWritten (conw w), w)"

text \<open>\<open>Console.Write\<close>: the transport's results are scripted in \<open>txres\<close> (success when it is
  used up), and \<open>sent\<close> collects what was handed to it.\<close>

definition a_Write :: "bytes \<Rightarrow> 'e world \<Rightarrow> goerr option \<times> 'e world" where
  "a_Write p w =
     (let tw = (case txres w of [] \<Rightarrow> (int (length p), None) | r # rs \<Rightarrow> (0, r));
          ((n, e), out) = con_Write tw p (conw w)
      in (e, case out of None \<Rightarrow> w
             | Some q \<Rightarrow> w\<lparr>sent := sent w @ [q], txres := tl (txres w)\<rparr>))"

definition p_Subscribe :: "int \<Rightarrow> (nat, 'e) proc" where
  "p_Subscribe n = atomic (a_Subscribe n)"

definition p_Unsubscribe :: "nat \<Rightarrow> (unit, 'e) proc" where
  "p_Unsubscribe i = atomic (a_Unsubscribe i)"

definition p_ctx_err :: "nat \<Rightarrow> (goerr option, 'e) proc" where
  "p_ctx_err k = atomic (a_ctx_err k)"

definition p_Err :: "(goerr option, 'e) proc" where
  "p_Err = atomic a_Err"

definition p_TotalWritten :: "(int, 'e) proc" where
  "p_TotalWritten = atomic a_TotalWritten"

definition p_Write :: "bytes \<Rightarrow> (goerr option, 'e) proc" where
  "p_Write p = atomic (a_Write p)"

lemmas action_defs = a_Subscribe_def a_Unsubscribe_def a_ctx_err_def a_Err_def a_TotalWritten_def

subsection \<open>The scanner\<close>

definition maxPatternWindow :: int where "maxPatternWindow = 1048576"
definition patternScanOverlap :: int where "patternScanOverlap = 65536"

record patternScanner =
  acc :: bytes
  scanned :: nat

definition bytes_at :: "bytes \<Rightarrow> nat \<Rightarrow> nat \<Rightarrow> bytes" where
  "bytes_at s a b = take (b - a) (drop a s)"

definition scan :: "(bytes \<Rightarrow> (nat \<times> nat) option) \<Rightarrow> patternScanner \<Rightarrow> bytes option \<times> patternScanner" where
  "scan srch s =
     (let start0 = int (scanned s) - patternScanOverlap;
          start = (if start0 < 0 then 0 else nat start0)
      in case srch (drop start (acc s)) of
           Some (a, b) \<Rightarrow> (Some (bytes_at (acc s) (start + a) (start + b)), s)
         | None \<Rightarrow>
             let s1 = s\<lparr>scanned := length (acc s)\<rparr>
             in if maxPatternWindow < int (length (acc s1))
                then let keep = maxPatternWindow div 2; dropped = nat (int (length (acc s1)) - keep)
                     in (None, s1\<lparr>acc := drop dropped (acc s1), scanned := scanned s1 - dropped\<rparr>)
                else (None, s1))"

definition feed :: "(bytes \<Rightarrow> (nat \<times> nat) option) \<Rightarrow> patternScanner \<Rightarrow> bytes
    \<Rightarrow> bytes option \<times> patternScanner" where
  "feed srch s chunk = scan srch (s\<lparr>acc := acc s @ chunk\<rparr>)"

definition scanner_reset :: "patternScanner \<Rightarrow> patternScanner" where
  "scanner_reset s = s\<lparr>acc := [], scanned := 0\<rparr>"

definition scanner_new :: patternScanner where
  "scanner_new = \<lparr>acc = [], scanned = 0\<rparr>"

subsection \<open>Waiting\<close>

text \<open>\<open>drainInto\<close>: the scanner it leaves, then \<open>(matched, match, retry)\<close> once it returns.\<close>

fun drain_into :: "(bytes \<Rightarrow> (nat \<times> nat) option) \<Rightarrow> nat \<Rightarrow> nat \<Rightarrow> patternScanner \<Rightarrow> ev list \<Rightarrow> 'e world
    \<Rightarrow> patternScanner \<times> (bool \<times> bytes \<times> bool) option \<times> ev list \<times> 'e world" where
  "drain_into srch k i sc [] w = (sc, None, [], w)"
| "drain_into srch k i sc (Go b # es) w =
     (let r = fst (sub_recv i (conw w))
      in if ctx_err w k \<noteq> None \<and> (b \<or> r = Empty) then (sc, Some (False, [], False), es, w)
         else (case r of
                 Chunk p \<Rightarrow>
                   (case feed srch sc p of
                      (Some m, sc') \<Rightarrow> (sc', Some (True, m, False), es, con_do (ORecv i) w)
                    | (None, sc') \<Rightarrow> drain_into srch k i sc' es (con_do (ORecv i) w))
               | Ended \<Rightarrow>
                   (case p_Err es w of
                      (None, es', w') \<Rightarrow> (sc, None, es', w')
                    | (Some e, es', w') \<Rightarrow> (sc, Some (False, [], e = None), es', w'))
               | Empty \<Rightarrow> drain_into srch k i sc es w))"
| "drain_into srch k i sc (e # es) w = drain_into srch k i sc es (env e w)"

lemma atomic_shorter: "atomic f es w = (Some a, es', w') \<Longrightarrow> length es' < length es"
  by (induction f es w rule: atomic.induct) (auto split: prod.splits)

lemma atomic_le: "atomic f es w = (r, es', w') \<Longrightarrow> length es' \<le> length es"
  by (induction f es w rule: atomic.induct) (auto split: prod.splits)

lemma drain_shorter: "drain_into srch k i sc es w = (sc', r, es', w') \<Longrightarrow> length es' \<le> length es"
proof (induction srch k i sc es w rule: drain_into.induct)
  case (2 srch k i sc b es w)
  then show ?case
    by (auto simp: Let_def p_Err_def intro!: le_SucI dest: atomic_le split: if_splits recv.splits prod.splits option.splits)
qed auto

text \<open>How much a re-subscription replays.\<close>

definition rearm :: "int \<Rightarrow> int \<Rightarrow> int" where
  "rearm arm tot =
     (let missed = i64 (tot - arm)
      in if maxPatternWindow < missed then maxPatternWindow else missed)"

text \<open>The loop of \<open>WaitForPattern\<close>: \<open>arm\<close> is \<open>armTotal\<close>, \<open>rep\<close> is \<open>replay\<close>.\<close>

function wait_loop :: "(bytes \<Rightarrow> (nat \<times> nat) option) \<Rightarrow> nat \<Rightarrow> int \<Rightarrow> patternScanner \<Rightarrow> int \<Rightarrow> ev list
    \<Rightarrow> 'e world \<Rightarrow> (bytes \<times> bytes \<times> goerr option) option \<times> ev list \<times> 'e world" where
  "wait_loop srch k arm sc rep es w =
     (case p_Subscribe rep es w of
        (None, es1, w1) \<Rightarrow> (None, es1, w1)
      | (Some i, es1, w1) \<Rightarrow>
     (case drain_into srch k i sc es1 w1 of
        (sc2, None, es2, w2) \<Rightarrow> (None, es2, w2)
      | (sc2, Some (matched, m, retry), es2, w2) \<Rightarrow>
     (case p_Unsubscribe i es2 w2 of
        (None, es3, w3) \<Rightarrow> (None, es3, w3)
      | (Some _, es3, w3) \<Rightarrow>
        if matched then (Some (m, acc sc2, None), es3, w3)
        else
     (case p_ctx_err k es3 w3 of
        (None, es4, w4) \<Rightarrow> (None, es4, w4)
      | (Some (Some e), es4, w4) \<Rightarrow> (Some ([], acc sc2, Some e), es4, w4)
      | (Some None, es4, w4) \<Rightarrow>
        if \<not> retry then (Some ([], acc sc2, Some ErrClosed), es4, w4)
        else
     (case p_TotalWritten es4 w4 of
        (None, es5, w5) \<Rightarrow> (None, es5, w5)
      | (Some tot, es5, w5) \<Rightarrow>
        wait_loop srch k arm (scanner_reset sc2) (rearm arm tot) es5 w5)))))"
  by pat_completeness auto
termination
proof (relation "measure (\<lambda>(_, _, _, _, _, es, _). length es)", goal_cases)
  case 1
  then show ?case by simp
next
  case 2
  then show ?case
    by (auto simp: p_Subscribe_def p_Unsubscribe_def p_ctx_err_def p_TotalWritten_def
        dest!: atomic_shorter drain_shorter sym [of "(_, _)" "drain_into _ _ _ _ _ _"]
          sym [of "(_, _)" "atomic _ _ _"])
qed

declare wait_loop.simps [simp del]

definition WaitForPattern :: "re \<Rightarrow> nat \<Rightarrow> int \<Rightarrow> (bytes \<times> bytes \<times> goerr option, 'e) proc" where
  "WaitForPattern r k includeScrollback es w =
     bind_p p_TotalWritten (\<lambda>arm. wait_loop (re_find r) k arm scanner_new includeScrollback) es w"


subsection \<open>What the scanner finds\<close>

abbreviation scanOverlap :: nat where "scanOverlap \<equiv> nat patternScanOverlap"
abbreviation patWindow :: nat where "patWindow \<equiv> nat maxPatternWindow"

lemmas window_defs = maxPatternWindow_def patternScanOverlap_def

lemma scan_nat:
  "scan srch s =
     (let start = scanned s - scanOverlap
      in case srch (drop start (acc s)) of
           Some (a, b) \<Rightarrow> (Some (bytes_at (acc s) (start + a) (start + b)), s)
         | None \<Rightarrow>
             if patWindow < length (acc s)
             then let dropped = length (acc s) - patWindow div 2
                  in (None, s\<lparr>acc := drop dropped (acc s), scanned := length (acc s) - dropped\<rparr>)
             else (None, s\<lparr>scanned := length (acc s)\<rparr>))"
proof -
  have "(if int (scanned s) - patternScanOverlap < 0 then 0 else nat (int (scanned s) - patternScanOverlap))
      = scanned s - scanOverlap"
    by (simp add: window_defs) linarith
  moreover have "maxPatternWindow < int (length (acc s)) \<longleftrightarrow> patWindow < length (acc s)"
    "nat (int (length (acc s)) - maxPatternWindow div 2) = length (acc s) - patWindow div 2"
    by (auto simp: window_defs)
  ultimately show ?thesis
    unfolding scan_def Let_def by (simp cong: if_cong option.case_cong)
qed

text \<open>The scanner state after \<open>F\<close> has been fed to it without a match: a tail of \<open>F\<close>, all of it
  unless the overlap fits.\<close>

definition scan_rep :: "patternScanner \<Rightarrow> bytes \<Rightarrow> bool" where
  "scan_rep sc F \<longleftrightarrow> suffix (acc sc) F \<and> scanned sc = length (acc sc) \<and>
     (acc sc = F \<or> scanOverlap \<le> length (acc sc))"

lemma scan_rep_new [simp]: "scan_rep scanner_new []"
  by (simp add: scan_rep_def scanner_new_def)

lemma scan_rep_reset [simp]: "scan_rep (scanner_reset sc) []"
  by (simp add: scan_rep_def scanner_reset_def)

lemma feed_Some_acc: "feed srch sc p = (Some m, sc') \<Longrightarrow> acc sc' = acc sc @ p"
  by (auto simp: feed_def scan_nat Let_def split: option.splits if_splits prod.splits)

lemma feed_Some:
  assumes "feed srch sc p = (Some m, sc')"
  obtains a b where
    "srch (drop (scanned sc - scanOverlap) (acc sc @ p)) = Some (a, b)"
    "m = bytes_at (acc sc @ p) (scanned sc - scanOverlap + a) (scanned sc - scanOverlap + b)"
  using assms by (auto simp: feed_def scan_nat Let_def split: option.splits if_splits prod.splits)

lemma feed_None:
  assumes "feed srch sc p = (None, sc')"
  shows "srch (drop (scanned sc - scanOverlap) (acc sc @ p)) = None"
    and "scan_rep sc F \<Longrightarrow> scan_rep sc' (F @ p)"
proof -
  let ?A = "acc sc @ p" and ?d = "length (acc sc @ p) - patWindow div 2"
  from assms show "srch (drop (scanned sc - scanOverlap) ?A) = None"
    by (auto simp: feed_def scan_nat Let_def split: option.splits if_splits)
  assume rep: "scan_rep sc F"
  then have suf: "suffix ?A (F @ p)" by (auto simp: scan_rep_def suffix_def)
  from assms consider
      "patWindow < length ?A" "sc' = \<lparr>acc = drop ?d ?A, scanned = length ?A - ?d\<rparr>"
    | "sc' = \<lparr>acc = ?A, scanned = length ?A\<rparr>"
    by (auto simp: feed_def scan_nat Let_def split: option.splits if_splits)
  then show "scan_rep sc' (F @ p)"
  proof cases
    case 1
    then have "scanOverlap \<le> length (drop ?d ?A)" by (simp add: window_defs)
    moreover have "suffix (drop ?d ?A) (F @ p)"
      using suf suffix_drop suffix_order.trans by blast
    ultimately show ?thesis using 1(2) by (simp add: scan_rep_def del: drop_append)
  next
    case 2
    then show ?thesis using rep suf by (auto simp: scan_rep_def)
  qed
qed

context matcher
begin

definition free_of :: "bytes \<Rightarrow> bool" where
  "free_of s \<longleftrightarrow> (\<forall>a b. \<not> hit s a b)"

lemma feed_misses:
  assumes W: "W \<le> scanOverlap" and rep: "scan_rep sc F" and none: "free_of F"
    and f: "feed srch sc p = (None, sc')"
  shows "free_of (F @ p)"
  unfolding free_of_def
proof (intro allI notI)
  fix a b assume h: "hit (F @ p) a b"
  let ?A = "acc sc @ p" and ?n = "scanned sc"
  let ?s = "?n - scanOverlap"
  obtain u where u: "F = u @ acc sc" using rep by (auto simp: scan_rep_def suffix_def)
  have n: "?n = length (acc sc)" using rep by (simp add: scan_rep_def)
  let ?L = "length u + ?s"
  have ab: "a \<le> b" "b \<le> length (F @ p)" using hit_le [OF h] by auto
  show False
  proof (cases "?L \<le> a")
    case True
    have "drop ?L (F @ p) = drop ?s ?A" using u by simp
    with hit_drop [of ?L a b "F @ p"] True ab h have "hit (drop ?s ?A) (a - ?L) (b - ?L)" by simp
    with srch_none [OF feed_None(1) [OF f]] show False by blast
  next
    case False
    have "\<not> b \<le> length F" using hit_append [of b F p a] h none by (auto simp: free_of_def)
    moreover have "length F = length u + ?n" using u n by simp
    moreover have "u = [] \<or> scanOverlap \<le> ?n" using rep u by (auto simp: scan_rep_def)
    ultimately have "scanOverlap < b - a" using False by auto
    with hit_width [OF h] W show False by simp
  qed
qed

lemma feed_finds:
  assumes rep: "scan_rep sc F" and f: "feed srch sc p = (Some m, sc')"
  obtains a b where "hit (acc sc @ p) a b" "m = bytes_at (acc sc @ p) a b"
    "hit (F @ p) (length F - length (acc sc) + a) (length F - length (acc sc) + b)"
proof -
  let ?A = "acc sc @ p" and ?s = "scanned sc - scanOverlap"
  from f obtain a b where ab: "srch (drop ?s ?A) = Some (a, b)" "m = bytes_at ?A (?s + a) (?s + b)"
    by (rule feed_Some)
  have le: "?s \<le> length ?A" using rep by (simp add: scan_rep_def)
  from srch_hit [OF ab(1)] hit_le have h: "hit (drop ?s ?A) a b" "a \<le> b" by blast+
  from hit_drop [of ?s "?s + a" "?s + b" ?A] h le
  have 1: "hit ?A (?s + a) (?s + b)" by (simp del: drop_append)
  obtain u where u: "F = u @ acc sc" using rep by (auto simp: scan_rep_def suffix_def)
  have "hit (F @ p) (length u + (?s + a)) (length u + (?s + b))"
    using hit_prepend [of u ?A] 1 u by simp
  with 1 ab u show thesis by (intro that [of "?s + a" "?s + b"]) auto
qed

lemma feed_finds_stream:
  assumes rep: "scan_rep sc F" and f: "feed srch sc p = (Some m, sc')"
  shows "\<exists>a b. hit (F @ p) a b \<and> m = bytes_at (F @ p) a b"
proof -
  obtain u where u: "F = u @ acc sc" using rep by (auto simp: scan_rep_def suffix_def)
  from feed_finds [OF rep f] obtain a b where
    "m = bytes_at (acc sc @ p) a b" "hit (F @ p) (length u + a) (length u + b)"
    using u by (metis add_diff_cancel_right' length_append)
  then show ?thesis
    using u by (intro exI [of _ "length u + a"] exI [of _ "length u + b"]) (simp add: bytes_at_def)
qed

end

text \<open>Feeding a list of chunks up to the first match: how many were fed, and the match.\<close>

fun scan_chunks :: "(bytes \<Rightarrow> (nat \<times> nat) option) \<Rightarrow> patternScanner \<Rightarrow> bytes list
    \<Rightarrow> (nat \<times> bytes) option" where
  "scan_chunks srch sc [] = None"
| "scan_chunks srch sc (p # ps) =
     (case feed srch sc p of
        (Some m, sc') \<Rightarrow> Some (1, m)
      | (None, sc') \<Rightarrow> map_option (map_prod Suc (\<lambda>m. m)) (scan_chunks srch sc' ps))"

context matcher
begin

lemma scan_chunks_None:
  assumes W: "W \<le> scanOverlap"
  shows "scan_rep sc F \<Longrightarrow> free_of F \<Longrightarrow> scan_chunks srch sc ps = None \<Longrightarrow> free_of (F @ concat ps)"
proof (induction ps arbitrary: sc F)
  case (Cons p ps)
  then obtain sc' where f: "feed srch sc p = (None, sc')" and n: "scan_chunks srch sc' ps = None"
    by (auto split: prod.splits option.splits)
  have "free_of (F @ p)" using feed_misses [OF W Cons.prems(1,2) f] .
  from Cons.IH [OF feed_None(2) [OF f Cons.prems(1)] this n] show ?case by simp
qed simp

lemma scan_chunks_Some:
  assumes W: "W \<le> scanOverlap"
  shows "scan_rep sc F \<Longrightarrow> free_of F \<Longrightarrow> scan_chunks srch sc ps = Some (n, m) \<Longrightarrow>
    0 < n \<and> n \<le> length ps \<and> free_of (F @ concat (take (n - 1) ps)) \<and>
    (\<exists>a b. hit (F @ concat (take n ps)) a b \<and> m = bytes_at (F @ concat (take n ps)) a b)"
proof (induction ps arbitrary: sc F n)
  case (Cons p ps)
  show ?case
  proof (cases "feed srch sc p")
    case (Pair r sc')
    show ?thesis
    proof (cases r)
      case (Some m')
      with Pair Cons.prems have nm: "n = 1" "m' = m" by auto
      with Pair Some have f: "feed srch sc p = (Some m, sc')" by simp
      from feed_finds_stream [OF Cons.prems(1) f] nm Cons.prems(2) show ?thesis by simp
    next
      case None
      with Pair have f: "feed srch sc p = (None, sc')" by simp
      with Cons.prems(3) obtain k where k: "scan_chunks srch sc' ps = Some (k, m)" "n = Suc k"
        by auto
      from feed_None(2) [OF f Cons.prems(1)] feed_misses [OF W Cons.prems(1,2) f] k(1)
      have "0 < k \<and> k \<le> length ps \<and> free_of ((F @ p) @ concat (take (k - 1) ps)) \<and>
        (\<exists>a b. hit ((F @ p) @ concat (take k ps)) a b \<and> m = bytes_at ((F @ p) @ concat (take k ps)) a b)"
        by (rule Cons.IH)
      with k(2) show ?thesis by (cases k) auto
    qed
  qed
qed simp

end


subsection \<open>What an action leaves unchanged\<close>

text \<open>\<open>later w w'\<close>: an ended context keeps its error, a closed console stays closed, the
  streams stay right and nothing is sent.\<close>

definition later :: "'e world \<Rightarrow> 'e world \<Rightarrow> bool" where
  "later w w' \<longleftrightarrow>
     (\<forall>k e. ctx_err w k = Some e \<longrightarrow> ctx_err w' k = Some e) \<and>
     (con_closed (conw w) \<longrightarrow> con_closed (conw w')) \<and>
     (stream_ok (hist w) \<longrightarrow> stream_ok (hist w')) \<and> sent w' = sent w"

lemma later_refl [simp]: "later w w"
  by (simp add: later_def)

lemma later_trans [trans]: "later a b \<Longrightarrow> later b c \<Longrightarrow> later a c"
  by (simp add: later_def)

lemma con_closed_step: "con_closed (cons h) \<Longrightarrow> con_closed (cons (con_step h e))"
  by (cases e) (auto simp: publish_def Subscribe_def sub_Close_def sub_recv_def con_Reset_def
      closeWithErr_def Let_def split: option.splits list.splits)

lemma later_con_do [simp]: "later w (con_do e w)"
  by (simp add: later_def con_do_def con_closed_step stream_ok_step)

lemma later_ctx_fire [simp]: "later w (ctx_fire k e w)"
  by (auto simp: later_def ctx_fire_def ctx_err_def split: option.splits)

lemma later_env [simp]: "later w (env e w)"
  by (cases e) auto

lemmas later_events = later_trans [OF later_con_do] later_trans [OF later_ctx_fire]

lemma later_atomic:
  "(\<And>v. later v (snd (f v))) \<Longrightarrow> atomic f es w = (r, es', w') \<Longrightarrow> later w w'"
proof (induction f es w rule: atomic.induct)
  case (2 f b es w)
  then show ?case by (auto split: prod.splits) (metis snd_conv)
qed (auto intro: later_events)

lemma later_p_Err: "p_Err es w = (r, es', w') \<Longrightarrow> later w w'"
  unfolding p_Err_def by (rule later_atomic [rotated]) (auto simp: action_defs)

lemma later_p_ctx: "p_ctx_err k es w = (r, es', w') \<Longrightarrow> later w w'"
  unfolding p_ctx_err_def by (rule later_atomic [rotated]) (auto simp: action_defs)

lemma later_p_Total: "p_TotalWritten es w = (r, es', w') \<Longrightarrow> later w w'"
  unfolding p_TotalWritten_def by (rule later_atomic [rotated]) (auto simp: action_defs)

lemma later_p_Sub: "p_Subscribe n es w = (r, es', w') \<Longrightarrow> later w w'"
  unfolding p_Subscribe_def by (rule later_atomic [rotated]) (auto simp: action_defs)

lemma later_p_Unsub: "p_Unsubscribe n es w = (r, es', w') \<Longrightarrow> later w w'"
  unfolding p_Unsubscribe_def by (rule later_atomic [rotated]) (auto simp: action_defs)

lemmas later_actions = later_p_Err later_p_ctx later_p_Total later_p_Sub later_p_Unsub

lemma later_drain: "drain_into srch k i sc es w = (sc', r, es', w') \<Longrightarrow> later w w'"
proof (induction srch k i sc es w rule: drain_into.induct)
  case (2 srch k i sc b es w)
  show ?case
  proof (cases "ctx_err w k \<noteq> None \<and> (b \<or> fst (sub_recv i (conw w)) = Empty)")
    case True
    with "2.prems" show ?thesis by (auto simp: Let_def)
  next
    case False
    with "2.prems" "2.IH" show ?thesis
      by (auto simp: Let_def split: recv.splits prod.splits option.splits if_splits
          dest: later_p_Err intro: later_trans [OF later_con_do])
  qed
qed (auto intro: later_events)

lemma atomic_result: "atomic f es w = (Some a, es', w') \<Longrightarrow> \<exists>v. f v = (a, w') \<and> later w v"
proof (induction f es w rule: atomic.induct)
  case (2 f b es w)
  then show ?case by (auto split: prod.splits intro: exI [of _ w])
qed (auto intro: later_events)

text \<open>How \<open>drainInto\<close> ends: without a retry only once the context or the console has ended.\<close>

lemma drain_ends:
  "drain_into srch k i sc es w = (sc', Some (False, m, retry), es', w') \<Longrightarrow> stream_ok (hist w) \<Longrightarrow>
   m = [] \<and> (\<not> retry \<longrightarrow> ctx_err w' k \<noteq> None \<or> con_closed (conw w'))"
proof (induction srch k i sc es w rule: drain_into.induct [case_names nil go con fire])
  case (go srch k i sc b es w)
  have later_ok: "stream_ok (hist v)" if "later w v" for v
    using that go.prems(2) by (simp add: later_def)
  have err: "m = [] \<and> (\<not> retry \<longrightarrow> con_closed (conw w'))"
    if "p_Err es w = (Some e, es', w')" "m = []" "retry = (e = None)" for e
    using atomic_result [OF that(1) [unfolded p_Err_def]] that(2,3) later_ok
    by (auto simp: stream_ok_def console_ok_def con_Err_def action_defs)
  show ?case
  proof (cases "ctx_err w k \<noteq> None \<and> (b \<or> fst (sub_recv i (conw w)) = Empty)")
    case True
    with go.prems show ?thesis by (auto simp: Let_def)
  next
    case False
    note ok = later_ok [OF later_con_do]
    show ?thesis
    proof (cases "fst (sub_recv i (conw w))")
      case (Chunk p)
      with False go.prems(1) obtain sc2 where "feed srch sc p = (None, sc2)"
        "drain_into srch k i sc2 es (con_do (ORecv i) w) = (sc', Some (False, m, retry), es', w')"
        by (auto simp: Let_def split: prod.splits option.splits if_splits)
      with go.IH(1) [OF refl False Chunk] ok show ?thesis by auto
    next
      case Ended
      with False go.prems(1) obtain e where "p_Err es w = (Some e, es', w')" "m = []"
        "retry = (e = None)"
        by (auto simp: Let_def split: prod.splits option.splits if_splits)
      from err [OF this] show ?thesis by blast
    next
      case Empty
      with False go.prems(1) have
        "drain_into srch k i sc es w = (sc', Some (False, m, retry), es', w')"
        by (auto simp: Let_def split: if_splits)
      with go.IH(2) [OF refl False Empty] go.prems(2) show ?thesis by auto
    qed
  qed
next
  case (con srch k i sc v es w)
  then show ?case using later_env by (auto simp: later_def simp del: env.simps)
next
  case (fire srch k i sc v va es w)
  then show ?case using later_env by (auto simp: later_def simp del: env.simps)
qed auto

lemma drain_match:
  "drain_into srch k i sc es w = (sc', Some (True, m, retry), es', w') \<Longrightarrow>
   \<exists>sc0 p v. feed srch sc0 p = (Some m, sc') \<and> (scanned sc = length (acc sc) \<longrightarrow> scanned sc0 = length (acc sc0))"
proof (induction srch k i sc es w rule: drain_into.induct)
  case (2 srch k i sc b es w)
  have keep: "scanned sc2 = length (acc sc2)"
    if "feed srch sc p = (None, sc2)" "scanned sc = length (acc sc)" for p sc2
    using feed_None(2) [OF that(1), of "acc sc"] that(2) by (simp add: scan_rep_def)
  show ?case
  proof (cases "ctx_err w k \<noteq> None \<and> (b \<or> fst (sub_recv i (conw w)) = Empty)")
    case True
    with "2.prems" show ?thesis by (auto simp: Let_def)
  next
    case False
    with "2.prems" "2.IH" keep show ?thesis
      by (auto simp: Let_def split: recv.splits prod.splits option.splits if_splits) blast+
  qed
qed auto


subsection \<open>How a wait ends\<close>

text \<open>One round of the loop, as the rounds a result can come from.\<close>

lemma wait_round:
  assumes "wait_loop srch k arm sc rep es w = (Some (m, c, e), es', w')"
  obtains (matched) i es1 w1 sc2 retry es2 w2 where
      "p_Subscribe rep es w = (Some i, es1, w1)"
      "drain_into srch k i sc es1 w1 = (sc2, Some (True, m, retry), es2, w2)"
      "c = acc sc2" "e = None" "later w w'"
  | (ctx) i es1 w1 sc2 m' retry es2 w2 x where
      "p_Subscribe rep es w = (Some i, es1, w1)"
      "drain_into srch k i sc es1 w1 = (sc2, Some (False, m', retry), es2, w2)"
      "c = acc sc2" "m = []" "e = Some x" "ctx_err w' k = Some x" "later w w'"
  | (closed) i es1 w1 sc2 m' es2 w2 where
      "p_Subscribe rep es w = (Some i, es1, w1)"
      "drain_into srch k i sc es1 w1 = (sc2, Some (False, m', False), es2, w2)"
      "c = acc sc2" "m = []" "e = Some ErrClosed" "ctx_err w' k = None"
      "later w w1" "later w2 w'" "later w w'"
  | (again) sc2 tot es5 w5 where
      "wait_loop srch k arm (scanner_reset sc2) (rearm arm tot) es5 w5
         = (Some (m, c, e), es', w')"
      "length es5 < length es" "later w w5"
proof -
  obtain i es1 w1 where s1: "p_Subscribe rep es w = (Some i, es1, w1)"
    using assms by (subst (asm) wait_loop.simps) (auto split: prod.splits option.splits)
  obtain sc2 mt m' retry es2 w2 where
    s2: "drain_into srch k i sc es1 w1 = (sc2, Some (mt, m', retry), es2, w2)"
    using assms s1 by (subst (asm) wait_loop.simps) (auto split: prod.splits option.splits)
  obtain es3 w3 where s3: "p_Unsubscribe i es2 w2 = (Some (), es3, w3)"
    using assms s1 s2 by (subst (asm) wait_loop.simps) (auto split: prod.splits option.splits)
  note l1 = later_p_Sub [OF s1] and l2 = later_drain [OF s2] and l3 = later_p_Unsub [OF s3]
  note l13 = later_trans [OF later_trans [OF l1 l2] l3]
  show thesis
  proof (cases mt)
    case True
    with assms s1 s2 s3 have "m = m'" "c = acc sc2" "e = None" "w' = w3"
      by (simp_all add: wait_loop.simps)
    with True s1 s2 l13 show thesis by (intro matched) auto
  next
    case False
    obtain ce es4 w4 where s4: "p_ctx_err k es3 w3 = (Some ce, es4, w4)"
      using assms s1 s2 s3 False
      by (subst (asm) wait_loop.simps) (auto split: prod.splits option.splits)
    note l4 = later_p_ctx [OF s4]
    have ce: "ce = ctx_err w4 k" using atomic_result [OF s4 [unfolded p_ctx_err_def]] by (auto simp: action_defs)
    show thesis
    proof (cases ce)
      case (Some x)
      with assms s1 s2 s3 s4 False have r: "c = acc sc2" "m = []" "e = Some x" and w': "w' = w4"
        by (simp_all add: wait_loop.simps)
      from s2 False have "drain_into srch k i sc es1 w1 = (sc2, Some (False, m', retry), es2, w2)" by simp
      moreover from ce Some w' have "ctx_err w' k = Some x" by simp
      moreover from later_trans [OF l13 l4] w' have "later w w'" by simp
      ultimately show thesis using ctx [OF s1 _ r] by blast
    next
      case None
      show thesis
      proof (cases retry)
        case True
        obtain tot es5 w5 where s5: "p_TotalWritten es4 w4 = (Some tot, es5, w5)"
          using assms s1 s2 s3 s4 False None True
          by (subst (asm) wait_loop.simps) (auto split: prod.splits option.splits)
        have "length es5 < length es"
          using atomic_shorter [OF s1 [unfolded p_Subscribe_def]] drain_shorter [OF s2]
            atomic_shorter [OF s3 [unfolded p_Unsubscribe_def]]
            atomic_shorter [OF s4 [unfolded p_ctx_err_def]]
            atomic_shorter [OF s5 [unfolded p_TotalWritten_def]]
          by linarith
        moreover have "later w w5"
          by (rule later_trans [OF later_trans [OF l13 l4] later_p_Total [OF s5]])
        moreover have "wait_loop srch k arm (scanner_reset sc2) (rearm arm tot) es5 w5
         = (Some (m, c, e), es', w')"
          using assms s1 s2 s3 s4 s5 False None True
          by (subst (asm) wait_loop.simps) (simp add: Let_def)
        ultimately show thesis by (intro again)
      next
        case re: False
        with assms s1 s2 s3 s4 False None have "m = []" "c = acc sc2" "e = Some ErrClosed" "w' = w4"
          by (simp_all add: wait_loop.simps)
        moreover have "later w2 w4" by (rule later_trans [OF l3 l4])
        ultimately show thesis
          using False re s1 s2 l1 later_trans [OF l13 l4] ce None by (intro closed) auto
      qed
    qed
  qed
qed

lemma later_wait_loop: "wait_loop srch k arm sc rep es w = (r, es', w') \<Longrightarrow> later w w'"
proof (induction "length es" arbitrary: sc rep es w rule: less_induct)
  case less
  note W = less.prems
  obtain x1 es1 w1 where s1: "p_Subscribe rep es w = (x1, es1, w1)" by (metis prod.collapse)
  note l1 = later_p_Sub [OF s1]
  show ?case
  proof (cases x1)
    case None
    with W s1 l1 show ?thesis by (simp add: wait_loop.simps)
  next
    case (Some i)
    obtain sc2 x2 es2 w2 where s2: "drain_into srch k i sc es1 w1 = (sc2, x2, es2, w2)" by (metis prod.collapse)
    note l2 = later_trans [OF l1 later_drain [OF s2]]
    show ?thesis
    proof (cases x2)
      case None
      with W s1 s2 l2 Some show ?thesis by (simp add: wait_loop.simps)
    next
      case r2: (Some res)
      obtain mt m re where res: "res = (mt, m, re)" by (metis prod.collapse)
      obtain x3 es3 w3 where s3: "p_Unsubscribe i es2 w2 = (x3, es3, w3)" by (metis prod.collapse)
      note l3 = later_trans [OF l2 later_p_Unsub [OF s3]]
      obtain x4 es4 w4 where s4: "p_ctx_err k es3 w3 = (x4, es4, w4)" by (metis prod.collapse)
      note l4 = later_trans [OF l3 later_p_ctx [OF s4]]
      obtain x5 es5 w5 where s5: "p_TotalWritten es4 w4 = (x5, es5, w5)" by (metis prod.collapse)
      note l5 = later_trans [OF l4 later_p_Total [OF s5]]
      show ?thesis
      proof (cases "x3 \<noteq> None \<and> \<not> mt \<and> x4 = Some None \<and> re \<and> x5 \<noteq> None")
        case False
        with W s1 s2 s3 s4 s5 l3 l4 l5 Some r2 res show ?thesis
          by (subst (asm) wait_loop.simps) (auto split: option.splits if_splits)
      next
        case True
        then obtain tot where x5: "x5 = Some tot" by blast
        have "length es5 < length es"
          using atomic_shorter [OF s1 [unfolded p_Subscribe_def Some]] drain_shorter [OF s2]
            atomic_le [OF s3 [unfolded p_Unsubscribe_def]] atomic_le [OF s4 [unfolded p_ctx_err_def]]
            atomic_le [OF s5 [unfolded p_TotalWritten_def]]
          by linarith
        moreover have "wait_loop srch k arm (scanner_reset sc2) (rearm arm tot) es5 w5 = (r, es', w')"
          using W s1 s2 s3 s4 s5 Some r2 res True x5
          by (subst (asm) wait_loop.simps) (auto split: option.splits)
        ultimately show ?thesis using later_trans [OF l5] less.hyps by blast
      qed
    qed
  qed
qed

lemma later_WaitForPattern: "WaitForPattern r k n es w = (x, es', w') \<Longrightarrow> later w w'"
  unfolding WaitForPattern_def bind_p_def
  by (auto split: prod.splits option.splits dest!: later_wait_loop later_p_Total intro: later_trans)

text \<open>A match it returns is in the context it returns; an error it returns is the context's, or
  \<open>ErrClosed\<close> of a console that is closed.\<close>

lemma wait_loop_result:
  "wait_loop srch k arm sc rep es w = (Some (m, c, e), es', w') \<Longrightarrow> stream_ok (hist w) \<Longrightarrow>
   scanned sc = length (acc sc) \<Longrightarrow>
   (case e of
      None \<Rightarrow> \<exists>sc0 p sc1. feed srch sc0 p = (Some m, sc1) \<and> c = acc sc1 \<and> scanned sc0 = length (acc sc0)
    | Some x \<Rightarrow> m = [] \<and> (ctx_err w' k = Some x \<or> x = ErrClosed \<and> con_closed (conw w')))"
proof (induction "length es" arbitrary: sc rep es w rule: less_induct)
  case less
  from less.prems(1) show ?case
  proof (cases rule: wait_round)
    case (matched i es1 w1 sc2 retry es2 w2)
    from drain_match [OF matched(2)] less.prems(3) matched(3,4) show ?thesis by auto
  next
    case (ctx i es1 w1 sc2 m' retry es2 w2 x)
    then show ?thesis by simp
  next
    case (closed i es1 w1 sc2 m' es2 w2)
    have "stream_ok (hist w1)" using less.prems(2) closed(7) by (simp add: later_def)
    from drain_ends [OF closed(2) this] have "ctx_err w2 k \<noteq> None \<or> con_closed (conw w2)" by simp
    with closed(6,8) have "con_closed (conw w')" by (auto simp: later_def)
    with closed show ?thesis by simp
  next
    case (again sc2 tot es5 w5)
    have "stream_ok (hist w5)" using less.prems(2) again(3) by (simp add: later_def)
    from less.hyps [OF again(2,1) this] show ?thesis by (simp add: scanner_reset_def)
  qed
qed


subsection \<open>Nothing delivered is overlooked\<close>

lemma nextID_con_step: "nextID (cons h) \<le> nextID (cons (con_step h e))"
  by (cases e) (auto simp: publish_def Subscribe_def sub_Close_def sub_recv_def con_Reset_def
      closeWithErr_def Let_def split: option.splits list.splits)

lemma recvd_con_step:
  "e \<noteq> ORecv i \<Longrightarrow> i < nextID (cons h) \<Longrightarrow> recvd (con_step h e) i = recvd h i"
  by (cases e) (auto simp: Subscribe_def Let_def split: prod.splits recv.splits)

lemma recvd_chunk:
  "fst (sub_recv i (cons h)) = Chunk p \<Longrightarrow> recvd (con_step h (ORecv i)) i = recvd h i @ p"
  by (auto split: prod.splits recv.splits)

lemma recvd_env:
  "e \<noteq> Con (ORecv i) \<Longrightarrow> i < nextID (conw w) \<Longrightarrow>
   recvd (hist (env e w)) i = recvd (hist w) i \<and> i < nextID (conw (env e w))"
proof (cases e)
  case (Con x)
  assume "e \<noteq> Con (ORecv i)" "i < nextID (conw w)"
  with Con show ?thesis
    using nextID_con_step [of "hist w" x] by (auto simp: con_do_def recvd_con_step)
qed (auto simp: ctx_fire_def)

lemma recvd_p_Err:
  "p_Err es w = (r, es', w') \<Longrightarrow> Con (ORecv i) \<notin> set es \<Longrightarrow> i < nextID (conw w) \<Longrightarrow>
   recvd (hist w') i = recvd (hist w) i"
  unfolding p_Err_def
proof (induction "a_Err :: 'a world \<Rightarrow> _" es w rule: atomic.induct [case_names nil go con fire])
  case (con v es w)
  have a: "recvd (hist (con_do v w)) i = recvd (hist w) i" "i < nextID (conw (con_do v w))"
    using recvd_env [of "Con v" i w] con.prems by auto
  show ?case using con.hyps con.prems a by simp
next
  case (fire v va es w)
  have a: "recvd (hist (ctx_fire v va w)) i = recvd (hist w) i" "i < nextID (conw (ctx_fire v va w))"
    using recvd_env [of "Fire v va" i w] fire.prems by auto
  show ?case using fire.hyps fire.prems a by simp
qed (auto simp: action_defs)

context matcher
begin

lemma drain_scans:
  assumes W: "W \<le> scanOverlap"
  shows "drain_into srch k i sc es w = (sc', r, es', w') \<Longrightarrow> i < nextID (conw w) \<Longrightarrow>
    Con (ORecv i) \<notin> set es \<Longrightarrow> scan_rep sc (recvd (hist w) i) \<Longrightarrow> free_of (recvd (hist w) i) \<Longrightarrow>
    (case r of
       Some (True, m, _) \<Rightarrow> \<exists>F p a b. recvd (hist w') i = F @ p \<and> free_of F \<and>
         hit (F @ p) a b \<and> m = bytes_at (F @ p) a b
     | _ \<Rightarrow> scan_rep sc' (recvd (hist w') i) \<and> free_of (recvd (hist w') i))"
proof (induction es arbitrary: sc w)
  case Nil
  then show ?case by simp
next
  case (Cons e es)
  show ?case
  proof (cases e)
    case (Go b)
  let ?r = "fst (sub_recv i (conw w))" and ?w = "con_do (ORecv i) w"
  have nx: "i < nextID (conw ?w)"
    using Cons.prems(2) nextID_con_step [of "hist w" "ORecv i"] by (simp add: con_do_def)
  have foreign: "Con (ORecv i) \<notin> set es" using Cons.prems(3) by simp
  show ?thesis
  proof (cases "ctx_err w k \<noteq> None \<and> (b \<or> ?r = Empty)")
    case True
    with Go Cons.prems show ?thesis by (auto simp: Let_def)
  next
    case False
    show ?thesis
    proof (cases ?r)
      case (Chunk p)
      have rc: "recvd (hist ?w) i = recvd (hist w) i @ p"
        using recvd_chunk [OF Chunk] by (simp add: con_do_def)
      obtain fr sc2 where f: "feed srch sc p = (fr, sc2)" by fastforce
      show ?thesis
      proof (cases fr)
        case None
        with f have fN: "feed srch sc p = (None, sc2)" by simp
        with False Chunk Go Cons.prems(1) have
          d: "drain_into srch k i sc2 es ?w = (sc', r, es', w')"
          by (auto simp: Let_def split: if_splits)
        have "scan_rep sc2 (recvd (hist ?w) i)" "free_of (recvd (hist ?w) i)"
          using feed_None(2) [OF fN Cons.prems(4)] feed_misses [OF W Cons.prems(4,5) fN] rc by simp_all
        with Cons.IH [OF d nx foreign] show ?thesis by blast
      next
        case (Some m)
        with f have fS: "feed srch sc p = (Some m, sc2)" by simp
        with False Chunk Go Cons.prems(1) have "r = Some (True, m, False)" "w' = ?w"
          by (auto simp: Let_def split: if_splits)
        moreover obtain a b where "hit (recvd (hist w) i @ p) a b" "m = bytes_at (recvd (hist w) i @ p) a b"
          using feed_finds_stream [OF Cons.prems(4) fS] by blast
        ultimately show ?thesis using rc Cons.prems(5) by auto
      qed
    next
      case Ended
      with False Go Cons.prems(1) obtain x w2 where p: "p_Err es w = (x, es', w')" and "sc' = sc"
        "\<And>m rt. r \<noteq> Some (True, m, rt)"
        by (auto simp: Let_def split: prod.splits option.splits if_splits)
      with recvd_p_Err [OF p foreign Cons.prems(2)] Cons.prems(4,5) show ?thesis
        by (auto split: option.splits bool.splits)
    next
      case Empty
      with False Go Cons.prems(1) have "drain_into srch k i sc es w = (sc', r, es', w')"
        by (auto simp: Let_def split: if_splits)
      with Cons.IH Cons.prems(2,4,5) foreign show ?thesis by blast
    qed
  qed
  next
    case (Con x)
    have "recvd (hist (con_do x w)) i = recvd (hist w) i" "i < nextID (conw (con_do x w))"
      using recvd_env [of "Con x" i w] Cons.prems Con by auto
    with Con Cons show ?thesis by simp
  next
    case (Fire n x)
    have "recvd (hist (ctx_fire n x w)) i = recvd (hist w) i" "i < nextID (conw (ctx_fire n x w))"
      using recvd_env [of "Fire n x" i w] Cons.prems Fire by auto
    with Fire Cons show ?thesis by simp
  qed
qed

end


subsection \<open>The properties of waiting\<close>

definition world0 :: "nat \<Rightarrow> int \<Rightarrow> 'e world" where
  "world0 cap n = \<lparr>hist = con_start cap n, ctxs = [None], txres = [], sent = [], emitted = []\<rparr>"

lemma stream_ok_world0 [inv_intros, simp]: "stream_ok (hist (world0 cap n))"
  by (simp add: world0_def stream_ok_start)

lemma re_free_of: "anchor_free r \<Longrightarrow> re_width r = Some W \<Longrightarrow>
    matcher.free_of (re_hit r) s \<longleftrightarrow> \<not> re_match r s"
  using matcher.free_of_def [OF re_matcher] by (simp add: re_match_iff)

text \<open>Steps of a concrete run.\<close>

lemma p_Go [simp]:
  "p_Subscribe n (Go b # es) w = (Some (nextID (conw w)), es, con_do (OSubscribe n) w)"
  "p_Unsubscribe i (Go b # es) w = (Some (), es, con_do (OUnsubscribe i) w)"
  "p_ctx_err k (Go b # es) w = (Some (ctx_err w k), es, w)"
  "p_Err (Go b # es) w = (Some (con_Err (conw w)), es, w)"
  "p_TotalWritten (Go b # es) w = (Some (TotalWritten (conw w)), es, w)"
  by (simp_all add: p_Subscribe_def p_Unsubscribe_def p_ctx_err_def p_Err_def p_TotalWritten_def action_defs)

lemma fst_quad: "fst x = a \<Longrightarrow> fst (snd x) = b \<Longrightarrow> fst (snd (snd x)) = c \<Longrightarrow> x = (a, b, c, snd (snd (snd x)))"
  by (cases x) auto

lemma wait_loop_matched:
  "drain_into srch k (nextID (conw w)) sc es (con_do (OSubscribe rep) w) = (sc2, Some (True, m, rt), Go b2 # es2, w2) \<Longrightarrow>
   wait_loop srch k arm sc rep (Go b # es) w = (Some (m, acc sc2, None), es2, con_do (OUnsubscribe (nextID (conw w))) w2)"
  by (subst wait_loop.simps) simp

lemma wait_loop_again:
  "drain_into srch k (nextID (conw w)) sc es (con_do (OSubscribe rep) w) =
     (sc2, Some (False, m, True), Go b2 # Go b3 # Go b4 # es2, w2) \<Longrightarrow>
   ctx_err w2 k = None \<Longrightarrow> w3 = con_do (OUnsubscribe (nextID (conw w))) w2 \<Longrightarrow>
   wait_loop srch k arm sc rep (Go b # es) w =
     wait_loop srch k arm (scanner_reset sc2) (rearm arm (TotalWritten (conw w3))) es2 w3"
  by (subst wait_loop.simps) (simp add: con_do_def)

lemma wait_loop_waiting:
  "drain_into srch k (nextID (conw w)) sc es (con_do (OSubscribe rep) w) = (sc2, None, es2, w2) \<Longrightarrow>
   wait_loop srch k arm sc rep (Go b # es) w = (None, es2, w2)"
  by (subst wait_loop.simps) simp

lemma WaitForPattern_Go:
  "WaitForPattern r k n (Go b # es) w = wait_loop (re_find r) k (TotalWritten (conw w)) scanner_new n es w"
  by (simp add: WaitForPattern_def bind_p_def)

text \<open>C3: Incremental scanning is complete. For every expression that does not match the empty
  text, does not assert the end of the text and whose matches are at most 64 KiB long, feeding a
  stream chunk by chunk, with a bounded window and overlap, reports a match exactly at the first
  chunk after which the stream fed so far contains one, however the stream was cut into chunks;
  the text it reports is a match in the stream.\<close>

theorem scanner_complete:
  assumes "anchor_free r" "re_width r = Some W" "W \<le> scanOverlap" "\<not> re_match r []"
  shows "(case scan_chunks (re_find r) scanner_new ps of
            None \<Rightarrow> \<not> re_match r (concat ps)
          | Some (n, m) \<Rightarrow> 0 < n \<and> n \<le> length ps \<and> \<not> re_match r (concat (take (n - 1) ps)) \<and>
              (\<exists>a b. re_hit r (concat (take n ps)) a b \<and> m = bytes_at (concat (take n ps)) a b))"
proof (cases "scan_chunks (re_find r) scanner_new ps")
  case None
  with matcher.scan_chunks_None [OF re_matcher [OF assms(1,2)] assms(3) scan_rep_new _ None]
  show ?thesis by (simp add: re_free_of [OF assms(1,2)] assms(4))
next
  case (Some nm)
  then obtain n m where s: "scan_chunks (re_find r) scanner_new ps = Some (n, m)" by (cases nm) auto
  with matcher.scan_chunks_Some [OF re_matcher [OF assms(1,2)] assms(3) scan_rep_new _ s]
  show ?thesis by (simp add: re_free_of [OF assms(1,2)] assms(4))
qed

theorem scanner_complete_witness:
  "scan_chunks (re_find (re_lit ''ok'')) scanner_new [''boot o'', ''k> ''] = Some (2, ''ok'') \<and>
   re_match (re_lit ''ok'') ''boot ok> '' \<and> \<not> re_match (re_lit ''ok'') ''boot o''"
proof -
  have s: "scan_chunks (re_find (re_lit ''ok'')) scanner_new [''boot o'', ''k> ''] = Some (2, ''ok'')"
    by code_simp
  have "\<not> re_match (re_lit ''ok'') []" by code_simp
  then show ?thesis
    using scanner_complete [of "re_lit ''ok''" 2 "[''boot o'', ''k> '']"] s
    by (auto simp: window_defs re_match_iff)
qed

text \<open>C4: How a wait for a pattern ends, whatever the console, its other users and the contexts do.
  A match it returns is one the expression found in the output it returns with it. An error comes
  with no match and is the error of the context, or \<open>ErrClosed\<close>, and the latter only when the
  console really is closed: being detached as a slow subscriber never surfaces as an error.\<close>

theorem WaitForPattern_result:
  assumes "WaitForPattern r k n es w = (Some (m, c, e), es', w')" "stream_ok (hist w)"
  shows "(case e of
            None \<Rightarrow> \<exists>s a b. re_find r (drop s c) = Some (a, b) \<and> m = bytes_at c (s + a) (s + b)
          | Some x \<Rightarrow> m = [] \<and> (ctx_err w' k = Some x \<or> x = ErrClosed \<and> con_closed (conw w')))"
proof -
  obtain arm es1 w1 where t: "p_TotalWritten es w = (Some arm, es1, w1)"
    and l: "wait_loop (re_find r) k arm scanner_new n es1 w1 = (Some (m, c, e), es', w')"
    using assms(1) by (auto simp: WaitForPattern_def bind_p_def split: prod.splits option.splits)
  have "stream_ok (hist w1)" using later_p_Total [OF t] assms(2) by (simp add: later_def)
  note R = wait_loop_result [OF l this]
  show ?thesis
  proof (cases e)
    case None
    with R obtain sc0 p sc1 where f: "feed (re_find r) sc0 p = (Some m, sc1)" and c: "c = acc sc1"
      by (auto simp: scanner_new_def)
    from feed_Some [OF f] obtain a b where
      "re_find r (drop (scanned sc0 - scanOverlap) (acc sc0 @ p)) = Some (a, b)"
      "m = bytes_at (acc sc0 @ p) (scanned sc0 - scanOverlap + a) (scanned sc0 - scanOverlap + b)" .
    with None c feed_Some_acc [OF f] show ?thesis by (auto simp del: drop_append)
  next
    case (Some x)
    with R show ?thesis by (simp add: scanner_new_def)
  qed
qed

text \<open>A run: armed, subscribed, the output arrives in two chunks, then the channel is drained.\<close>

definition ok_script :: "ev list" where
  "ok_script = [Con (OPublish ''a o''), Con (OPublish ''k b''), Go False, Go False, Go False]"

theorem WaitForPattern_result_witness:
  "fst (WaitForPattern (re_lit ''ok'') 0 0 (Go False # Go False # ok_script) (world0 8 64 :: unit world)) =
     Some (''ok'', ''a ok b'', None) \<and>
   (\<exists>s a b. re_find (re_lit ''ok'') (drop s ''a ok b'') = Some (a, b) \<and> bytes_at ''a ok b'' (s + a) (s + b) = ''ok'')"
proof -
  let ?w = "world0 8 64 :: unit world"
  let ?d = "drain_into (re_find (re_lit ''ok'')) 0 (nextID (conw ?w)) scanner_new ok_script (con_do (OSubscribe 0) ?w)"
  have "fst ?d = \<lparr>acc = ''a ok b'', scanned = 3\<rparr>" "fst (snd ?d) = Some (True, ''ok'', False)"
    "fst (snd (snd ?d)) = [Go False]"
    by code_simp+
  from wait_loop_matched [OF fst_quad [OF this]]
  have r: "WaitForPattern (re_lit ''ok'') 0 0 (Go False # Go False # ok_script) ?w =
      (Some (''ok'', ''a ok b'', None), [], con_do (OUnsubscribe (nextID (conw ?w))) (snd (snd (snd ?d))))"
    by (simp add: WaitForPattern_Go)
  from WaitForPattern_result [OF r stream_ok_world0]
  have "\<exists>s a b. re_find (re_lit ''ok'') (drop s ''a ok b'') = Some (a, b) \<and>
      ''ok'' = bytes_at ''a ok b'' (s + a) (s + b)"
    by (simp only: option.case)
  with r show ?thesis by (metis fst_conv)
qed

text \<open>C5: Nothing delivered is overlooked. While the goroutine that waits for a pattern is still
  waiting, with its subscription attached and its channel empty, neither the scrollback it asked
  for followed by all output published since contains the pattern; and when it returns a match,
  the match is in what it received, which up to the last chunk contains none.\<close>

theorem drain_overlooks_nothing:
  assumes "anchor_free r" "re_width r = Some W" "W \<le> scanOverlap" "\<not> re_match r []"
    and "stream_ok (hist w)" "i < nextID (conw w)" "recvd (hist w) i = []" "Con (ORecv i) \<notin> set es"
    and "drain_into (re_find r) k i scanner_new es w = (sc', res, es', w')"
  shows "(case res of
            None \<Rightarrow> (\<forall>s. look (heap (conw w')) i = Some s \<and> \<not> sub_closed s \<and> queue (ch s) = [] \<longrightarrow>
              \<not> re_match r (replay (hist w') i @ drop (origin (hist w') i) (log (hist w'))))
          | Some (matched, m, _) \<Rightarrow>
              if matched then \<exists>F p a b. recvd (hist w') i = F @ p \<and> \<not> re_match r F \<and>
                re_hit r (F @ p) a b \<and> m = bytes_at (F @ p) a b
              else \<not> re_match r (recvd (hist w') i))"
proof -
  note free = re_free_of [OF assms(1,2)]
  have D: "case res of
       Some (True, m, _) \<Rightarrow> \<exists>F p a b. recvd (hist w') i = F @ p \<and> \<not> re_match r F \<and>
         re_hit r (F @ p) a b \<and> m = bytes_at (F @ p) a b
     | _ \<Rightarrow> scan_rep sc' (recvd (hist w') i) \<and> \<not> re_match r (recvd (hist w') i)"
    using matcher.drain_scans [OF re_matcher [OF assms(1,2)] assms(3,9,6,8)] assms(4,7)
    unfolding free by simp
  show ?thesis
  proof (cases res)
    case None
    have "stream_ok (hist w')" using later_drain [OF assms(9)] assms(5) by (simp add: later_def)
    then have "recvd (hist w') i = replay (hist w') i @ drop (origin (hist w') i) (log (hist w'))"
      if "look (heap (conw w')) i = Some s" "\<not> sub_closed s" "queue (ch s) = []" for s
      using stream_okD [OF _ that(1)] that(2,3) by fastforce
    with D None show ?thesis by auto
  next
    case (Some x)
    with D show ?thesis by (auto split: prod.splits bool.splits)
  qed
qed

definition quiet_script :: "ev list" where
  "quiet_script = [Con (OPublish ''no match''), Go False, Con (OPublish '' here''), Go False]"

theorem drain_overlooks_nothing_witness:
  "(let w = con_do (OSubscribe 0) (world0 8 64 :: unit world);
        (sc, res, es, w') = drain_into (re_find (re_lit ''ok'')) 0 0 scanner_new quiet_script w
    in res = None \<and> \<not> re_match (re_lit ''ok'') (recvd (hist w') 0) \<and>
       recvd (hist w') 0 = ''no match here'')"
proof -
  let ?w = "con_do (OSubscribe 0) (world0 8 64 :: unit world)"
  obtain sc res es' w' where d:
    "drain_into (re_find (re_lit ''ok'')) 0 0 scanner_new quiet_script ?w = (sc, res, es', w')"
    by (metis prod.collapse)
  have e: "(let (sc, res, es, w') = drain_into (re_find (re_lit ''ok'')) 0 0 scanner_new quiet_script ?w
    in res = None \<and> recvd (hist w') 0 = ''no match here'' \<and>
      (case look (heap (conw w')) 0 of None \<Rightarrow> False | Some s \<Rightarrow> \<not> sub_closed s \<and> queue (ch s) = []) \<and>
      replay (hist w') 0 @ drop (origin (hist w') 0) (log (hist w')) = ''no match here'')"
    by code_simp
  have n: "\<not> re_match (re_lit ''ok'') []" "0 < nextID (conw ?w)" "recvd (hist ?w) 0 = []" by code_simp+
  have "stream_ok (hist ?w)" using later_con_do [of "world0 8 64 :: unit world"] by (simp add: later_def)
  from drain_overlooks_nothing [OF _ _ _ n(1) this n(2,3) _ d] e d show ?thesis
    by (auto simp: window_defs quiet_script_def split: option.splits)
qed

lemma new_subscriber_replay:
  "concat (queue (ch (new_subscriber n c))) = (if 0 < n then fst (ring_snapshot (scroll c) n) else [])"
  by (simp add: new_subscriber_def Let_def)


text \<open>With a one-chunk queue: the burst after the waiter armed detaches it, and the pattern arrives
  in the chunk that did not fit. Without a reset the second subscription finds it; with one it
  is never found, although it is in the scrollback.\<close>

definition burst :: "ev list \<Rightarrow> ev list" where
  "burst mid = mid @ [Con (OPublish ''a''), Con (OPublish ''OK'')] @ replicate 9 (Go False)"

definition armed_world :: "unit world" where
  "armed_world = con_do (OPublish ''old old'') (world0 1 16)"

abbreviation first_drain :: "ev list \<Rightarrow> patternScanner \<times> (bool \<times> bytes \<times> bool) option \<times> ev list \<times> unit world" where
  "first_drain mid \<equiv> drain_into (re_find (re_lit ''OK'')) 0 (nextID (conw armed_world)) scanner_new (burst mid)
     (con_do (OSubscribe 0) armed_world)"

abbreviation after_first :: "ev list \<Rightarrow> unit world" where
  "after_first mid \<equiv> con_do (OUnsubscribe (nextID (conw armed_world))) (snd (snd (snd (first_drain mid))))"

lemma first_round:
  assumes "fst (first_drain mid) = sc" "fst (snd (first_drain mid)) = Some (False, [], True)"
    "fst (snd (snd (first_drain mid))) = Go False # Go False # Go False # es"
    "ctx_err (snd (snd (snd (first_drain mid)))) 0 = None"
  shows "WaitForPattern (re_lit ''OK'') 0 0 (Go False # Go False # burst mid) armed_world =
    wait_loop (re_find (re_lit ''OK'')) 0 (TotalWritten (conw armed_world)) (scanner_reset sc)
      (rearm (TotalWritten (conw armed_world)) (TotalWritten (conw (after_first mid)))) es (after_first mid)"
  using wait_loop_again [OF fst_quad [OF assms(1-3)] assms(4) refl] by (simp add: WaitForPattern_Go)


end
