(* ===== verification/Session_Lock.thy ===== *)
theory Session_Lock
  imports Go_Std "HOL-Library.Multiset"
begin

text \<open>
  \<open>internal/session/session.go\<close>: the single-user hardware lock. Each operation below is one
  critical section of \<open>Manager.mu\<close>; the clock reading \<open>now\<close> and the id \<open>g\<close> a call of
  \<open>gen\<close> would return are arguments, as they are injected in the code. Times are
  nanoseconds on an unbounded axis. A channel made by \<open>make(chan struct{})\<close> is its number;
  \<open>chans\<close> counts them and \<open>closedChans\<close> has those that were closed. The goroutines (the
  reaper, the callers blocked in \<open>Acquire\<close>, the calls in flight) are steps of a relation
  on the lock together with them.
\<close>

type_synonym time = int

record info =
  Active :: bool
  ID :: string
  Owner :: string
  StartedAt :: time
  ExpiresAt :: time

datatype acquire_err = BusyError string time | CtxError goerr

record manager =
  ttl :: duration
  id_m :: string
  owner :: string
  startedAt :: time
  lastActivity :: time
  activeCalls :: int
  released :: "nat option"
  chans :: nat
  closedChans :: "nat list"

definition DefaultTTL :: duration where
  "DefaultTTL = 5 * minute"

definition NewManager :: "duration \<Rightarrow> manager" where
  "NewManager t =
     \<lparr>ttl = (if t \<le> 0 then DefaultTTL else t), id_m = [], owner = [], startedAt = 0, lastActivity = 0,
      activeCalls = 0, released = None, chans = 0, closedChans = []\<rparr>"

definition zero_info :: info where
  "zero_info = \<lparr>Active = False, ID = [], Owner = [], StartedAt = 0, ExpiresAt = 0\<rparr>"

definition expiresAtLocked :: "manager \<Rightarrow> time" where
  "expiresAtLocked m = lastActivity m + ttl m"

definition clearLocked :: "manager \<Rightarrow> manager" where
  "clearLocked m =
     (let m1 = m\<lparr>id_m := [], owner := [], activeCalls := 0\<rparr>
      in case released m1 of
           None \<Rightarrow> m1
         | Some r \<Rightarrow> m1\<lparr>closedChans := r # closedChans m1, released := None\<rparr>)"

definition expireIfIdleLocked :: "time \<Rightarrow> manager \<Rightarrow> manager" where
  "expireIfIdleLocked now m =
     (if id_m m = [] \<or> 0 < activeCalls m then m
      else if expiresAtLocked m < now then clearLocked m
      else m)"

definition infoLocked :: "manager \<Rightarrow> info" where
  "infoLocked m =
     (if id_m m = [] then zero_info
      else \<lparr>Active = True, ID = id_m m, Owner = owner m, StartedAt = startedAt m,
            ExpiresAt = expiresAtLocked m\<rparr>)"

text \<open>One turn of the loop of \<open>Acquire\<close>: the lock, or the channel to wait on and the error to
  return if the wait is given up.\<close>

definition acquire_try :: "time \<Rightarrow> string \<Rightarrow> string \<Rightarrow> manager \<Rightarrow> (info + nat option \<times> acquire_err) \<times> manager" where
  "acquire_try now g own m0 =
     (let m = expireIfIdleLocked now m0
      in if id_m m = []
         then let m1 = m\<lparr>id_m := g, owner := own, startedAt := now, lastActivity := now, activeCalls := 0,
                         released := Some (chans m), chans := chans m + 1\<rparr>
              in (Inl (infoLocked m1), m1)
         else (Inr (released m, BusyError (owner m) (expiresAtLocked m)), m))"

definition Finish :: "string \<Rightarrow> manager \<Rightarrow> goerr option \<times> manager" where
  "Finish i m =
     (if id_m m = [] \<or> id_m m = i
      then (None, if id_m m = i then clearLocked m else m)
      else (Some (Err (''session: '' @ quote i @ '' is not the lock holder'')), m))"

definition no_session :: "string \<Rightarrow> goerr" where
  "no_session i = Err (''session: no active session '' @ quote i)"

definition Refresh :: "time \<Rightarrow> string \<Rightarrow> manager \<Rightarrow> goerr option \<times> manager" where
  "Refresh now i m0 =
     (let m = expireIfIdleLocked now m0
      in if id_m m = [] \<or> id_m m \<noteq> i then (Some (no_session i), m)
         else (None, m\<lparr>lastActivity := now\<rparr>))"

definition CallStart :: "time \<Rightarrow> string \<Rightarrow> manager \<Rightarrow> goerr option \<times> manager" where
  "CallStart now i m0 =
     (let m = expireIfIdleLocked now m0
      in if id_m m = [] \<or> id_m m \<noteq> i then (Some (no_session i), m)
         else (None, m\<lparr>lastActivity := now, activeCalls := activeCalls m + 1\<rparr>))"

definition CallEnd :: "time \<Rightarrow> string \<Rightarrow> manager \<Rightarrow> manager" where
  "CallEnd now i m =
     (if id_m m = i \<and> 0 < activeCalls m
      then m\<lparr>activeCalls := activeCalls m - 1, lastActivity := now\<rparr> else m)"

definition Info :: "time \<Rightarrow> manager \<Rightarrow> info \<times> manager" where
  "Info now m = (let m1 = expireIfIdleLocked now m in (infoLocked m1, m1))"

subsection \<open>The lock and its users\<close>

text \<open>
  A caller blocked in the \<open>select\<close> of \<open>Acquire\<close>: the channel it waits on, its owner, the
  time at which its timer fires (\<open>None\<close> without one) and the \<open>BusyError\<close> it would return.
  \<open>inflight\<close> has the id of every call between its \<open>CallStart\<close> and its \<open>CallEnd\<close>;
  \<open>minted\<close> the ids ever generated and \<open>clock\<close> the time.
\<close>

record waiter =
  wchan :: "nat option"
  wowner :: string
  wfires :: "time option"
  wbusy :: acquire_err

record lock_sys =
  mgr :: manager
  clock :: time
  inflight :: "string multiset"
  minted :: "string set"
  waiting :: "waiter multiset"

definition lock_start :: "duration \<Rightarrow> time \<Rightarrow> lock_sys" where
  "lock_start t now = \<lparr>mgr = NewManager t, clock = now, inflight = {#}, minted = {}, waiting = {#}\<rparr>"

text \<open>The labels carry what the step answers to its caller.\<close>

datatype lock_act =
    Tick
  | Reap
  | Granted string
  | Refused acquire_err
  | Blocked
  | Finished string "goerr option"
  | Refreshed string "goerr option"
  | Started string "goerr option"
  | Ended string
  | Observed info

inductive lock_step :: "lock_sys \<Rightarrow> lock_act \<Rightarrow> lock_sys \<Rightarrow> bool" where
  tick: "0 \<le> d \<Longrightarrow> lock_step s Tick (s\<lparr>clock := clock s + d\<rparr>)"
| reap: "lock_step s Reap (s\<lparr>mgr := expireIfIdleLocked (clock s) (mgr s)\<rparr>)"
| grant: "acquire_try (clock s) g own (mgr s) = (Inl i, m') \<Longrightarrow> g \<noteq> [] \<Longrightarrow> g \<notin> minted s \<Longrightarrow>
    lock_step s (Granted g) (s\<lparr>mgr := m', minted := insert g (minted s)\<rparr>)"
| refuse: "acquire_try (clock s) g own (mgr s) = (Inr (rel, busy), m') \<Longrightarrow> (wait :: duration) < 0 \<Longrightarrow>
    lock_step s (Refused busy) (s\<lparr>mgr := m'\<rparr>)"
| block: "acquire_try (clock s) g own (mgr s) = (Inr (rel, busy), m') \<Longrightarrow> 0 \<le> wait \<Longrightarrow>
    lock_step s Blocked
      (s\<lparr>mgr := m',
         waiting := add_mset \<lparr>wchan = rel, wowner = own,
            wfires = (if 0 < wait then Some (clock s + wait) else None), wbusy = busy\<rparr> (waiting s)\<rparr>)"
| wake_grant: "w \<in># waiting s \<Longrightarrow> wchan w = Some r \<Longrightarrow> r \<in> set (closedChans (mgr s)) \<Longrightarrow>
    acquire_try (clock s) g (wowner w) (mgr s) = (Inl i, m') \<Longrightarrow> g \<noteq> [] \<Longrightarrow> g \<notin> minted s \<Longrightarrow>
    lock_step s (Granted g)
      (s\<lparr>mgr := m', minted := insert g (minted s), waiting := waiting s - {#w#}\<rparr>)"
| wake_block: "w \<in># waiting s \<Longrightarrow> wchan w = Some r \<Longrightarrow> r \<in> set (closedChans (mgr s)) \<Longrightarrow>
    acquire_try (clock s) g (wowner w) (mgr s) = (Inr (rel, busy), m') \<Longrightarrow>
    lock_step s Blocked
      (s\<lparr>mgr := m', waiting := add_mset (w\<lparr>wchan := rel, wbusy := busy\<rparr>) (waiting s - {#w#})\<rparr>)"
| cancel: "w \<in># waiting s \<Longrightarrow> lock_step s (Refused (CtxError e)) (s\<lparr>waiting := waiting s - {#w#}\<rparr>)"
| timeout: "w \<in># waiting s \<Longrightarrow> wfires w = Some t \<Longrightarrow> t \<le> clock s \<Longrightarrow>
    lock_step s (Refused (wbusy w)) (s\<lparr>waiting := waiting s - {#w#}\<rparr>)"
| finish: "Finish i (mgr s) = (e, m') \<Longrightarrow> lock_step s (Finished i e) (s\<lparr>mgr := m'\<rparr>)"
| refresh: "Refresh (clock s) i (mgr s) = (e, m') \<Longrightarrow> lock_step s (Refreshed i e) (s\<lparr>mgr := m'\<rparr>)"
| start: "CallStart (clock s) i (mgr s) = (e, m') \<Longrightarrow>
    lock_step s (Started i e)
      (s\<lparr>mgr := m', inflight := (if e = None then add_mset i (inflight s) else inflight s)\<rparr>)"
| call_end: "i \<in># inflight s \<Longrightarrow>
    lock_step s (Ended i) (s\<lparr>mgr := CallEnd (clock s) i (mgr s), inflight := inflight s - {#i#}\<rparr>)"
| observe: "Info (clock s) (mgr s) = (r, m') \<Longrightarrow> lock_step s (Observed r) (s\<lparr>mgr := m'\<rparr>)"

inductive lock_run :: "lock_sys \<Rightarrow> lock_act list \<Rightarrow> lock_sys \<Rightarrow> bool" where
  run_nil: "lock_run s [] s"
| run_step: "lock_step s a s' \<Longrightarrow> lock_run s' acts s'' \<Longrightarrow> lock_run s (a # acts) s''"

inductive_cases run_nilE: "lock_run s [] s'"
inductive_cases run_consE: "lock_run s (a # acts) s'"
inductive_simps lock_run_simps [simp]: "lock_run s [] s'" "lock_run s (a # acts) s'"

subsection \<open>The invariant\<close>

text \<open>The channel is there exactly while the lock is held and is still open; the counter counts
  the calls in flight of the current holder only; and every blocked caller waits on a channel that
  is closed or that the current holder will close.\<close>

definition mgr_ok :: "manager \<Rightarrow> bool" where
  "mgr_ok m \<longleftrightarrow> (id_m m = [] \<longleftrightarrow> released m = None) \<and> 0 < ttl m \<and>
     (\<forall>r. released m = Some r \<longrightarrow> r \<notin> set (closedChans m)) \<and>
     (\<forall>r \<in> set (closedChans m) \<union> set_option (released m). r < chans m) \<and>
     (id_m m = [] \<longrightarrow> activeCalls m = 0)"

definition lock_ok :: "lock_sys \<Rightarrow> bool" where
  "lock_ok s \<longleftrightarrow> mgr_ok (mgr s) \<and>
     (id_m (mgr s) \<noteq> [] \<longrightarrow> activeCalls (mgr s) = int (count (inflight s) (id_m (mgr s)))) \<and>
     (id_m (mgr s) \<noteq> [] \<longrightarrow> id_m (mgr s) \<in> minted s) \<and> set_mset (inflight s) \<subseteq> minted s \<and> [] \<notin> minted s \<and>
     (\<forall>w \<in># waiting s. \<exists>r. wchan w = Some r \<and>
        (r \<in> set (closedChans (mgr s)) \<or> released (mgr s) = Some r))"

text \<open>Every operation of the manager leaves the waiters right: an open channel a caller waits on
  stays the current one or is closed.\<close>

definition wakes :: "manager \<Rightarrow> manager \<Rightarrow> bool" where
  "wakes m m' \<longleftrightarrow> set (closedChans m) \<subseteq> set (closedChans m') \<and>
     (\<forall>r. released m = Some r \<longrightarrow> released m' = Some r \<or> r \<in> set (closedChans m'))"

lemma wakes_refl [simp]: "wakes m m"
  by (simp add: wakes_def)

lemma wakes_trans: "wakes a b \<Longrightarrow> wakes b c \<Longrightarrow> wakes a c"
  by (auto simp: wakes_def)

lemma wakes_waiters:
  "wakes m m' \<Longrightarrow> \<forall>w \<in># W. \<exists>r. wchan w = Some r \<and> (r \<in> set (closedChans m) \<or> released m = Some r) \<Longrightarrow>
   \<forall>w \<in># W. \<exists>r. wchan w = Some r \<and> (r \<in> set (closedChans m') \<or> released m' = Some r)"
  by (fastforce simp: wakes_def)

lemma clear_simps [simp]:
  "id_m (clearLocked m) = []" "activeCalls (clearLocked m) = 0" "released (clearLocked m) = None"
  "ttl (clearLocked m) = ttl m" "chans (clearLocked m) = chans m"
  "set (closedChans (clearLocked m)) = set (closedChans m) \<union> set_option (released m)"
  by (auto simp: clearLocked_def Let_def split: option.splits)

lemma mgr_ok_clear [inv_intros]: "mgr_ok m \<Longrightarrow> mgr_ok (clearLocked m)"
  by (auto simp: mgr_ok_def)

lemma wakes_clear [simp]: "wakes m (clearLocked m)"
  by (auto simp: wakes_def)

lemma expire_cases:
  obtains "expireIfIdleLocked now m = m"
  | "expireIfIdleLocked now m = clearLocked m" "id_m m \<noteq> []" "activeCalls m \<le> 0" "expiresAtLocked m < now"
  unfolding expireIfIdleLocked_def
  by (cases "id_m m = [] \<or> 0 < activeCalls m"; cases "expiresAtLocked m < now") auto

lemma mgr_ok_expire [inv_intros]: "mgr_ok m \<Longrightarrow> mgr_ok (expireIfIdleLocked now m)"
  by (cases rule: expire_cases [of now m]) (auto intro: mgr_ok_clear)

lemma wakes_expire [simp]: "wakes m (expireIfIdleLocked now m)"
  by (cases rule: expire_cases [of now m]) auto

lemma id_expire: "id_m (expireIfIdleLocked now m) = id_m m \<or> id_m (expireIfIdleLocked now m) = []"
  by (cases rule: expire_cases [of now m]) auto

lemma id_expire_keep:
  "id_m (expireIfIdleLocked now m) \<noteq> [] \<Longrightarrow> id_m (expireIfIdleLocked now m) = id_m m"
  using id_expire [of now m] by simp

lemma acquire_cases:
  obtains (got) "id_m (expireIfIdleLocked now m) = []"
      "acquire_try now g own m =
        (let m1 = (expireIfIdleLocked now m)\<lparr>id_m := g, owner := own, startedAt := now, lastActivity := now,
           activeCalls := 0, released := Some (chans m), chans := chans m + 1\<rparr> in (Inl (infoLocked m1), m1))"
  | (busy) rel b where "id_m (expireIfIdleLocked now m) \<noteq> []"
      "acquire_try now g own m = (Inr (released (expireIfIdleLocked now m), b), expireIfIdleLocked now m)"
proof -
  have "chans (expireIfIdleLocked now m) = chans m"
    by (cases rule: expire_cases [of now m]) auto
  then show thesis using that by (auto simp: acquire_try_def Let_def)
qed


lemma acquire_got:
  assumes "acquire_try now g own m = (Inl i, m')" "mgr_ok m" "g \<noteq> []"
  shows "mgr_ok m'" "wakes m m'" "id_m m' = g" "activeCalls m' = 0" "ID i = g"
proof -
  let ?e = "expireIfIdleLocked now m"
  have e: "mgr_ok ?e" by (rule mgr_ok_expire [OF assms(2)])
  have ch: "chans ?e = chans m" by (cases rule: expire_cases [of now m]) auto
  have id0: "id_m ?e = []" and m': "m' = ?e\<lparr>id_m := g, owner := own, startedAt := now,
      lastActivity := now, activeCalls := 0, released := Some (chans m), chans := chans m + 1\<rparr>"
    and i: "i = infoLocked m'"
    using assms(1) by (cases rule: acquire_cases [of now m g own]; simp add: Let_def)+
  from id0 e have rel: "released ?e = None" by (simp add: mgr_ok_def)
  show "mgr_ok m'" using e m' ch assms(3) by (fastforce simp: mgr_ok_def)
  show "wakes m m'" using wakes_expire [of m now] rel m' by (auto simp: wakes_def)
  show "id_m m' = g" "activeCalls m' = 0" using m' by simp_all
  show "ID i = g" using i m' assms(3) by (simp add: infoLocked_def)
qed

lemma acquire_busy:
  assumes "acquire_try now g own m = (Inr (rel, b), m')"
  shows "m' = expireIfIdleLocked now m" "rel = released m'" "id_m m' \<noteq> []"
  using assms by (cases rule: acquire_cases [of now m g own]; simp add: Let_def)+

subsection \<open>Every step keeps the invariant\<close>

text \<open>A step that leaves the manager with the same holder and counter, or clears it.\<close>

lemma lock_ok_same:
  assumes ok: "lock_ok s" and m: "mgr_ok m'" and w: "wakes (mgr s) m'"
    and hold: "id_m m' = [] \<or> (id_m m' = id_m (mgr s) \<and> activeCalls m' = activeCalls (mgr s))"
  shows "lock_ok (s\<lparr>mgr := m'\<rparr>)"
  using ok m hold wakes_waiters [OF w, of "waiting s"] by (auto simp: lock_ok_def)

lemma expire_hold:
  "id_m (expireIfIdleLocked now m) = [] \<or>
   (id_m (expireIfIdleLocked now m) = id_m m \<and> activeCalls (expireIfIdleLocked now m) = activeCalls m)"
  by (cases rule: expire_cases [of now m]) auto

lemma lock_ok_expire:
  assumes "lock_ok s"
  shows "lock_ok (s\<lparr>mgr := expireIfIdleLocked now (mgr s)\<rparr>)"
  using assms by (intro lock_ok_same expire_hold) (simp_all add: lock_ok_def mgr_ok_expire)

lemma lock_ok_grant:
  assumes ok: "lock_ok s" and a: "acquire_try now g own (mgr s) = (Inl i, m')"
    and g: "g \<noteq> []" "g \<notin> minted s" and W: "set_mset W \<subseteq> set_mset (waiting s)"
  shows "lock_ok (s\<lparr>mgr := m', minted := insert g (minted s), waiting := W\<rparr>)"
proof -
  from ok have m: "mgr_ok (mgr s)" by (simp add: lock_ok_def)
  note got = acquire_got [OF a m g(1)]
  have "count (inflight s) g = 0" using ok g(2) by (auto simp: lock_ok_def count_eq_zero_iff)
  then show ?thesis
    using ok got g W wakes_waiters [OF got(2), of "waiting s"] by (auto simp: lock_ok_def)
qed

lemma waiters_sub:
  "set_mset W \<subseteq> set_mset (waiting s) \<Longrightarrow> lock_ok s \<Longrightarrow> lock_ok (s\<lparr>waiting := W\<rparr>)"
  by (auto simp: lock_ok_def)

lemma waiters_add:
  "lock_ok s \<Longrightarrow> id_m (mgr s) \<noteq> [] \<Longrightarrow> wchan w = released (mgr s) \<Longrightarrow>
   lock_ok (s\<lparr>waiting := add_mset w (waiting s)\<rparr>)"
  by (auto simp: lock_ok_def mgr_ok_def)

lemma lock_step_ok: "lock_step s a s' \<Longrightarrow> lock_ok s \<Longrightarrow> lock_ok s'"
proof (induction rule: lock_step.induct)
  case (tick d s)
  then show ?case by (simp add: lock_ok_def)
next
  case (reap s)
  then show ?case by (rule lock_ok_expire)
next
  case (grant s g own i m')
  have "lock_ok (s\<lparr>mgr := m', minted := insert g (minted s), waiting := waiting s\<rparr>)"
    by (rule lock_ok_grant [OF grant.prems grant.hyps]) simp
  then show ?case by simp
next
  case (refuse s g own rel busy m' wait)
  note b = acquire_busy [OF refuse.hyps(1)]
  show ?case unfolding b(1) by (rule lock_ok_expire [OF refuse.prems])
next
  case (block s g own rel busy m' wait)
  note b = acquire_busy [OF block.hyps(1)]
  let ?s = "s\<lparr>mgr := m'\<rparr>"
  have "lock_ok ?s" unfolding b(1) by (rule lock_ok_expire [OF block.prems])
  from waiters_add [OF this] b(2,3) show ?case by simp
next
  case (wake_grant w s r g i m')
  then show ?case
    by (intro lock_ok_grant [OF wake_grant.prems wake_grant.hyps(4-6)]) (auto dest: in_diffD)
next
  case (wake_block w s r g rel busy m')
  note b = acquire_busy [OF wake_block.hyps(4)]
  let ?s = "s\<lparr>mgr := m', waiting := waiting s - {#w#}\<rparr>"
  have "lock_ok (s\<lparr>mgr := m'\<rparr>)" unfolding b(1) by (rule lock_ok_expire [OF wake_block.prems])
  then have "lock_ok ((s\<lparr>mgr := m'\<rparr>)\<lparr>waiting := waiting s - {#w#}\<rparr>)"
    by (rule waiters_sub [rotated]) (auto dest: in_diffD)
  then have "lock_ok ?s" by simp
  from waiters_add [OF this] b(2,3) show ?case by simp
next
  case (cancel w s e)
  then show ?case by (intro waiters_sub) (auto dest: in_diffD)
next
  case (timeout w s t)
  then show ?case by (intro waiters_sub) (auto dest: in_diffD)
next
  case (finish i s e m')
  have m: "mgr_ok (mgr s)" using finish.prems by (simp add: lock_ok_def)
  have "m' = mgr s \<or> m' = clearLocked (mgr s)"
    using finish.hyps by (auto simp: Finish_def split: if_splits)
  then show ?case using finish.prems m
    by (intro lock_ok_same) (auto intro: mgr_ok_clear)
next
  case (refresh s i e m')
  let ?e = "expireIfIdleLocked (clock s) (mgr s)"
  have ok: "lock_ok (s\<lparr>mgr := ?e\<rparr>)" by (rule lock_ok_expire [OF refresh.prems])
  have "m' = ?e \<or> m' = ?e\<lparr>lastActivity := clock s\<rparr>"
    using refresh.hyps by (auto simp: Refresh_def Let_def split: if_splits)
  then show ?case using ok by (auto simp: lock_ok_def mgr_ok_def)
next
  case (start s i e m')
  let ?e = "expireIfIdleLocked (clock s) (mgr s)"
  have ok: "lock_ok (s\<lparr>mgr := ?e\<rparr>)" by (rule lock_ok_expire [OF start.prems])
  show ?case
  proof (cases e)
    case None
    with start.hyps have "id_m ?e = i" "id_m ?e \<noteq> []"
      "m' = ?e\<lparr>lastActivity := clock s, activeCalls := activeCalls ?e + 1\<rparr>"
      by (auto simp: CallStart_def Let_def split: if_splits)
    then show ?thesis using ok None by (auto simp: lock_ok_def mgr_ok_def)
  next
    case (Some x)
    with start.hyps have "m' = ?e" by (auto simp: CallStart_def Let_def split: if_splits)
    then show ?thesis using ok Some by (simp add: lock_ok_def)
  qed
next
  case (call_end i s)
  show ?case
  proof (cases "id_m (mgr s) = i \<and> 0 < activeCalls (mgr s)")
    case True
    with call_end show ?thesis
      by (auto simp: lock_ok_def mgr_ok_def CallEnd_def dest: in_diffD)
  next
    case False
    moreover have "id_m (mgr s) \<noteq> i"
    proof
      assume e: "id_m (mgr s) = i"
      have "i \<in> minted s" "[] \<notin> minted s" using call_end by (auto simp: lock_ok_def)
      then have "i \<noteq> []" by auto
      with e call_end have "0 < activeCalls (mgr s)" by (simp add: lock_ok_def)
      with e False show False by simp
    qed
    ultimately show ?thesis using call_end by (auto simp: lock_ok_def CallEnd_def dest: in_diffD)
  qed
next
  case (observe s r m')
  then show ?case by (auto simp: Info_def Let_def intro: lock_ok_expire)
qed

lemma lock_ok_start [inv_intros]: "lock_ok (lock_start t now)"
  by (simp add: lock_ok_def mgr_ok_def lock_start_def NewManager_def DefaultTTL_def duration_defs)

lemma lock_run_ok: "lock_run s acts s' \<Longrightarrow> lock_ok s \<Longrightarrow> lock_ok s'"
  by (induction rule: lock_run.induct) (auto dest: lock_step_ok)


subsection \<open>The properties of the lock\<close>

lemma lock_step_id:
  "lock_step s a s' \<Longrightarrow> id_m (mgr s') = id_m (mgr s) \<or> id_m (mgr s') = [] \<or>
     (id_m (mgr s') \<notin> minted s \<and> a = Granted (id_m (mgr s')))"
proof (induction rule: lock_step.induct)
  case (grant s g own i m')
  then show ?case by (auto simp: acquire_try_def Let_def split: if_splits)
next
  case (wake_grant w s r g i m')
  then show ?case by (auto simp: acquire_try_def Let_def split: if_splits)
next
  case (refuse s g own rel busy m' wait)
  show ?case using acquire_busy [OF refuse.hyps(1)] id_expire [of "clock s" "mgr s"] by simp
next
  case (block s g own rel busy m' wait)
  show ?case using acquire_busy [OF block.hyps(1)] id_expire [of "clock s" "mgr s"] by simp
next
  case (wake_block w s r g rel busy m')
  show ?case using acquire_busy [OF wake_block.hyps(4)] id_expire [of "clock s" "mgr s"] by simp
next
  case (finish i s e m')
  then show ?case by (auto simp: Finish_def split: if_splits)
next
  case (refresh s i e m')
  then show ?case using id_expire [of "clock s" "mgr s"]
    by (auto simp: Refresh_def Let_def split: if_splits)
next
  case (start s i e m')
  then show ?case using id_expire [of "clock s" "mgr s"]
    by (auto simp: CallStart_def Let_def split: if_splits)
qed (auto simp: CallEnd_def Info_def Let_def intro!: id_expire_keep)

lemma minted_step: "lock_step s a s' \<Longrightarrow> minted s \<subseteq> minted s'"
  by (induction rule: lock_step.induct) auto

lemma stale_run:
  "lock_run s acts s' \<Longrightarrow> i \<in> minted s \<Longrightarrow> i \<noteq> [] \<Longrightarrow> id_m (mgr s) \<noteq> i \<Longrightarrow>
   id_m (mgr s') \<noteq> i \<and> i \<in> minted s'"
proof (induction rule: lock_run.induct)
  case (run_step s a s' acts s'')
  have "i \<in> minted s'" using minted_step [OF run_step.hyps(1)] run_step.prems(1) by blast
  moreover have "id_m (mgr s') \<noteq> i" using lock_step_id [OF run_step.hyps(1)] run_step.prems by auto
  ultimately show ?case using run_step.IH run_step.prems(2) by blast
qed simp

lemma expire_other_id:
  "id_m m \<noteq> i \<Longrightarrow> i \<noteq> [] \<Longrightarrow> id_m (expireIfIdleLocked now m) \<noteq> i"
  using id_expire [of now m] by auto

lemma grantI:
  "fst (acquire_try (clock s) g own (mgr s)) = Inl i \<Longrightarrow> g \<noteq> [] \<Longrightarrow> g \<notin> minted s \<Longrightarrow>
   lock_step s (Granted g)
     (s\<lparr>mgr := snd (acquire_try (clock s) g own (mgr s)), minted := insert g (minted s)\<rparr>)"
  by (rule grant) (auto simp: prod_eq_iff)

text \<open>A run used by the witnesses: \<open>a\<close> holds the lock with a call in flight and \<open>bob\<close> waits.\<close>

definition demo1 :: lock_sys where
  "demo1 = \<lparr>mgr = \<lparr>ttl = 10, id_m = ''a'', owner = ''ann'', startedAt = 0, lastActivity = 0,
      activeCalls = 0, released = Some 0, chans = 1, closedChans = []\<rparr>,
    clock = 0, inflight = {#}, minted = {''a''}, waiting = {#}\<rparr>"

definition bob :: waiter where
  "bob = \<lparr>wchan = Some 0, wowner = ''bob'', wfires = None, wbusy = BusyError ''ann'' 10\<rparr>"

definition demo2 :: lock_sys where
  "demo2 = demo1\<lparr>waiting := {#bob#}\<rparr>"

definition demo3 :: lock_sys where
  "demo3 = demo2\<lparr>mgr := (mgr demo2)\<lparr>activeCalls := 1\<rparr>, inflight := {#''a''#}\<rparr>"

lemmas demo_defs = demo1_def demo2_def demo3_def bob_def

lemma demo_steps:
  "lock_step (lock_start 10 0) (Granted ''a'') demo1" "lock_step demo1 Blocked demo2"
  "lock_step demo2 (Started ''a'' None) demo3"
proof -
  have "acquire_try 0 ''a'' ''ann'' (mgr (lock_start 10 0)) = (Inl (infoLocked (mgr demo1)), mgr demo1)"
    by (simp add: acquire_try_def expireIfIdleLocked_def lock_start_def NewManager_def demo1_def Let_def)
  from lock_step.grant [of "lock_start 10 0" "''a''" "''ann''"] this
  show "lock_step (lock_start 10 0) (Granted ''a'') demo1"
    by (simp add: lock_start_def demo1_def NewManager_def)
  have "acquire_try 0 ''z'' ''bob'' (mgr demo1) = (Inr (Some 0, BusyError ''ann'' 10), mgr demo1)"
    by (simp add: acquire_try_def expireIfIdleLocked_def expiresAtLocked_def demo1_def Let_def)
  from lock_step.block [of demo1 "''z''" "''bob''" "Some 0" "BusyError ''ann'' 10" "mgr demo1" 0] this
  show "lock_step demo1 Blocked demo2"
    by (simp add: demo_defs)
  have "CallStart 0 ''a'' (mgr demo2) = (None, mgr demo3)"
    by (simp add: CallStart_def expireIfIdleLocked_def expiresAtLocked_def demo_defs Let_def)
  from lock_step.start [of demo2 "''a''" None "mgr demo3"] this
  show "lock_step demo2 (Started ''a'' None) demo3"
    by (simp add: demo_defs)
qed

lemma demo_runs:
  "lock_run (lock_start 10 0) [Granted ''a'', Blocked] demo2"
  "lock_run (lock_start 10 0) [Granted ''a'', Blocked, Started ''a'' None] demo3"
  using demo_steps by (blast intro: run_step run_nil)+

text \<open>C7: The lock is consistent in every run of its users. The channel exists exactly while the
  lock is held; the in-flight counter is the number of calls of the current holder still in
  flight, never one left over from an earlier session; and no wake-up is lost: every caller
  blocked in \<open>Acquire\<close> waits on a channel that is closed or that the current holder's end will
  close, so when the lock is free all of them can retry.\<close>

theorem lock_consistent:
  assumes "lock_run (lock_start t now) acts s"
  shows "(id_m (mgr s) = [] \<longleftrightarrow> released (mgr s) = None) \<and>
         activeCalls (mgr s) = (if id_m (mgr s) = [] then 0 else int (count (inflight s) (id_m (mgr s)))) \<and>
         (\<forall>w \<in># waiting s. \<exists>r. wchan w = Some r \<and>
            (r \<in> set (closedChans (mgr s)) \<or> id_m (mgr s) \<noteq> [] \<and> released (mgr s) = Some r))"
proof -
  have "lock_ok s" by (rule lock_run_ok [OF assms lock_ok_start])
  then show ?thesis by (auto simp: lock_ok_def mgr_ok_def)
qed

theorem lock_consistent_witness:
  "lock_run (lock_start 10 0) [Granted ''a'', Blocked, Started ''a'' None] demo3 \<and>
   activeCalls (mgr demo3) = 1 \<and> bob \<in># waiting demo3 \<and> released (mgr demo3) = wchan bob"
  using lock_consistent [OF demo_runs(2)] demo_runs(2) by (simp add: demo_defs)

text \<open>C8: A session that has lost the lock stays out. Once an id that was handed out is no longer
  the holder's, it never becomes the holder again whatever happens; every call, refresh or finish
  that carries it is refused or does nothing.\<close>

theorem stale_session_refused:
  assumes "lock_run (lock_start t now) acts s" "i \<in> minted s" "id_m (mgr s) \<noteq> i"
    and "lock_run s acts' s'"
  shows "id_m (mgr s') \<noteq> i \<and>
         fst (CallStart n i (mgr s')) = Some (no_session i) \<and>
         fst (Refresh n i (mgr s')) = Some (no_session i) \<and>
         snd (Finish i (mgr s')) = mgr s'"
proof -
  have "lock_ok s" by (rule lock_run_ok [OF assms(1) lock_ok_start])
  then have i: "i \<noteq> []" using assms(2) by (auto simp: lock_ok_def)
  have n: "id_m (mgr s') \<noteq> i" using stale_run [OF assms(4,2) i assms(3)] by simp
  with expire_other_id [OF n i, of n] i show ?thesis
    by (simp add: CallStart_def Refresh_def Finish_def Let_def)
qed

theorem stale_session_refused_witness:
  "\<exists>s'. lock_run demo3 [Finished ''a'' None] s' \<and>
     fst (CallStart 1 ''a'' (mgr s')) = Some (no_session ''a'') \<and>
     lock_run s' [Ended ''a''] (s'\<lparr>inflight := {#}\<rparr>)"
proof -
  let ?s = "demo3\<lparr>mgr := clearLocked (mgr demo3)\<rparr>"
  have f: "lock_step demo3 (Finished ''a'' None) ?s"
    by (rule lock_step.finish) (simp add: Finish_def demo_defs)
  have r: "lock_run (lock_start 10 0) [Granted ''a'', Blocked, Started ''a'' None, Finished ''a'' None] ?s"
    using demo_steps f by (blast intro: run_step run_nil)
  have e: "lock_step ?s (Ended ''a'') (?s\<lparr>inflight := {#}\<rparr>)"
    using lock_step.call_end [of "''a''" ?s]
    by (simp add: CallEnd_def clearLocked_def Let_def demo_defs)
  have "''a'' \<in> minted ?s" "id_m (mgr ?s) \<noteq> ''a''" by (simp_all add: demo_defs)
  note st = stale_session_refused [OF r this run_nil, of 1]
  have "lock_run demo3 [Finished ''a'' None] ?s" using f by (blast intro: run_step run_nil)
  moreover have "lock_run ?s [Ended ''a''] (?s\<lparr>inflight := {#}\<rparr>)" using e by (blast intro: run_step run_nil)
  ultimately show ?thesis using st by blast
qed

text \<open>C9: A call in flight keeps the lock. While a call of the holder is in flight the session
  cannot expire, however much time passes; and without one it expires as soon as the idle time is
  over, and not before.\<close>

theorem expiry_exact:
  assumes "lock_run (lock_start t now) acts s" "id_m (mgr s) \<noteq> []"
  shows "expireIfIdleLocked n (mgr s) =
           (if id_m (mgr s) \<notin># inflight s \<and> lastActivity (mgr s) + ttl (mgr s) < n
            then clearLocked (mgr s) else mgr s)"
proof -
  have "lock_ok s" by (rule lock_run_ok [OF assms(1) lock_ok_start])
  with assms(2) have "activeCalls (mgr s) = int (count (inflight s) (id_m (mgr s)))"
    by (simp add: lock_ok_def)
  with assms(2) show ?thesis
    by (simp add: expireIfIdleLocked_def expiresAtLocked_def count_eq_zero_iff)
qed

theorem expiry_exact_witness:
  "expireIfIdleLocked 1000 (mgr demo3) = mgr demo3 \<and> expireIfIdleLocked 11 (mgr demo2) = clearLocked (mgr demo2) \<and>
   expireIfIdleLocked 10 (mgr demo2) = mgr demo2"
  using expiry_exact [OF demo_runs(2), of 1000] expiry_exact [OF demo_runs(1), of 11]
    expiry_exact [OF demo_runs(1), of 10]
  by (simp add: demo_defs)

text \<open>C10: No caller is blocked forever by a dead client. From any reachable state in which a caller
  is blocked in \<open>Acquire\<close> and the holder has no call in flight, letting time pass, one tick of
  the reaper and one turn of that caller hand it the lock.\<close>

theorem waiter_gets_lock:
  assumes "lock_run (lock_start t now) acts s" "w \<in># waiting s" "id_m (mgr s) \<notin># inflight s"
    and "g \<noteq> []" "g \<notin> minted s"
  shows "\<exists>s'. lock_run s [Tick, Reap, Granted g] s' \<and> id_m (mgr s') = g \<and> waiting s' = waiting s - {#w#}"
proof -
  have ok: "lock_ok s" by (rule lock_run_ok [OF assms(1) lock_ok_start])
  let ?d = "max 0 (expiresAtLocked (mgr s) - clock s + 1)"
  let ?s1 = "s\<lparr>clock := clock s + ?d\<rparr>"
  let ?m = "expireIfIdleLocked (clock ?s1) (mgr ?s1)"
  let ?s2 = "?s1\<lparr>mgr := ?m\<rparr>"
  have s1: "lock_step s Tick ?s1" by (rule lock_step.tick) simp
  have s2: "lock_step ?s1 Reap ?s2" by (rule lock_step.reap)
  have ok2: "lock_ok ?s2" using lock_step_ok [OF s2] lock_step_ok [OF s1 ok] by blast
  have "id_m (mgr s) = [] \<or> activeCalls (mgr s) = 0"
    using ok assms(3) by (auto simp: lock_ok_def count_eq_zero_iff)
  then have free: "id_m ?m = []"
    by (auto simp: expireIfIdleLocked_def)
  then have again: "expireIfIdleLocked n ?m = ?m" for n by (simp add: expireIfIdleLocked_def)
  obtain r where r: "wchan w = Some r" "r \<in> set (closedChans ?m)"
    using ok2 assms(2) free by (force simp: lock_ok_def mgr_ok_def)
  obtain i m' where a: "acquire_try (clock ?s2) g (wowner w) (mgr ?s2) = (Inl i, m')"
    and m': "id_m m' = g"
    using free again by (auto simp: acquire_try_def Let_def)
  have "lock_step ?s2 (Granted g)
      (?s2\<lparr>mgr := m', minted := insert g (minted ?s2), waiting := waiting ?s2 - {#w#}\<rparr>)"
    by (rule lock_step.wake_grant [OF _ r(1) _ a]) (use assms r in auto)
  with s1 s2 m' show ?thesis by (fastforce intro!: exI run_step run_nil)
qed

theorem waiter_gets_lock_witness:
  "\<exists>s'. lock_run demo2 [Tick, Reap, Granted ''b''] s' \<and> id_m (mgr s') = ''b'' \<and> waiting s' = {#}"
proof -
  have "bob \<in># waiting demo2" "id_m (mgr demo2) \<notin># inflight demo2" "''b'' \<notin> minted demo2"
    by (simp_all add: demo_defs)
  from waiter_gets_lock [OF demo_runs(1) this(1,2) _ this(3)] show ?thesis by (simp add: demo_defs)
qed

end
