(* ===== verification/Power_Control.thy ===== *)
theory Power_Control
  imports Console
begin

text \<open>
  \<open>internal/power\<close>: switching the target's mains outlet. A \<open>controller\<close> is the Go interface
  as a record of operations on the state \<open>'s\<close> of whatever it controls. The SNMP library is a
  parameter (\<open>snmp\<close>, the part of it \<open>snmpConn\<close> names), and so is the passing of time:
  \<open>wait d\<close> is the \<open>select\<close> of \<open>cycle\<close> between the context's end (\<open>Some e\<close>) and a timer of
  \<open>d\<close> (\<open>None\<close>).
\<close>

datatype power_state = StateUnknown | StateOn | StateOff

definition State_String :: "power_state \<Rightarrow> string" where
  "State_String s = (case s of StateOn \<Rightarrow> ''on'' | StateOff \<Rightarrow> ''off'' | StateUnknown \<Rightarrow> ''unknown'')"

record 's controller =
  cStatus :: "'s \<Rightarrow> (power_state \<times> goerr option) \<times> 's"
  cOn :: "'s \<Rightarrow> goerr option \<times> 's"
  cOff :: "'s \<Rightarrow> goerr option \<times> 's"
  cCycle :: "duration \<Rightarrow> 's \<Rightarrow> goerr option \<times> 's"

definition DefaultOffDuration :: duration where
  "DefaultOffDuration = 5 * second"

definition cycle :: "(duration \<Rightarrow> 's \<Rightarrow> goerr option \<times> 's) \<Rightarrow> ('s \<Rightarrow> goerr option \<times> 's)
    \<Rightarrow> ('s \<Rightarrow> goerr option \<times> 's) \<Rightarrow> duration \<Rightarrow> (power_state \<Rightarrow> 's \<Rightarrow> goerr option \<times> 's) option
    \<Rightarrow> 's \<Rightarrow> goerr option \<times> 's" where
  "cycle wait off on offFor0 poll s =
     (let offFor = (if offFor0 \<le> 0 then DefaultOffDuration else offFor0)
      in case off s of
           (Some e, s1) \<Rightarrow> (Some (Wrap ''power off'' e), s1)
         | (None, s1) \<Rightarrow>
      (case (case poll of None \<Rightarrow> (None, s1) | Some p \<Rightarrow> p StateOff s1) of
           (Some e, s2) \<Rightarrow> (Some e, s2)
         | (None, s2) \<Rightarrow>
      (case wait offFor s2 of
           (Some e, s3) \<Rightarrow> (Some e, s3)
         | (None, s3) \<Rightarrow>
      (case on s3 of
           (Some e, s4) \<Rightarrow> (Some (Wrap ''power on'' e), s4)
         | (None, s4) \<Rightarrow>
      (case poll of None \<Rightarrow> (None, s4) | Some p \<Rightarrow> p StateOn s4)))))"

subsection \<open>The fake controller\<close>

record fake =
  fstate :: power_state
  fevents :: "string list"

definition NewFake :: "power_state \<Rightarrow> fake" where
  "NewFake s = \<lparr>fstate = s, fevents = []\<rparr>"

definition fake_Status :: "fake \<Rightarrow> (power_state \<times> goerr option) \<times> fake" where
  "fake_Status f = ((fstate f, None), f)"

definition fake_On :: "fake \<Rightarrow> goerr option \<times> fake" where
  "fake_On f = (None, f\<lparr>fstate := StateOn, fevents := fevents f @ [''on'']\<rparr>)"

definition fake_Off :: "fake \<Rightarrow> goerr option \<times> fake" where
  "fake_Off f = (None, f\<lparr>fstate := StateOff, fevents := fevents f @ [''off'']\<rparr>)"

definition fake_Cycle :: "(duration \<Rightarrow> fake \<Rightarrow> goerr option \<times> fake) \<Rightarrow> duration \<Rightarrow> fake \<Rightarrow> goerr option \<times> fake" where
  "fake_Cycle wait offFor0 f =
     (let offFor = (if offFor0 \<le> 0 then millisecond else offFor0)
      in cycle wait fake_Off fake_On offFor None (f\<lparr>fevents := fevents f @ [''cycle'']\<rparr>))"

definition fake_controller :: "(duration \<Rightarrow> fake \<Rightarrow> goerr option \<times> fake) \<Rightarrow> fake controller" where
  "fake_controller wait = \<lparr>cStatus = fake_Status, cOn = fake_On, cOff = fake_Off, cCycle = fake_Cycle wait\<rparr>"

subsection \<open>The power-loss hook\<close>

definition Hook :: "'s controller \<Rightarrow> ('s \<Rightarrow> 's) option \<Rightarrow> 's controller" where
  "Hook c onPowerLoss =
     (case onPowerLoss of
        None \<Rightarrow> c
      | Some h \<Rightarrow> c\<lparr>cOff := (\<lambda>s. cOff c (h s)), cCycle := (\<lambda>d s. cCycle c d (h s))\<rparr>)"

subsection \<open>The APC PDU over SNMP\<close>

record apc_config =
  Address :: string
  Community :: string
  Outlet :: int
  Version :: string
  Timeout :: duration
  Retries :: int
  CommandOIDBase :: string
  StateOIDBase :: string
  OffDuration :: duration

definition oidOutletCommand :: string where
  "oidOutletCommand = ''1.3.6.1.4.1.318.1.1.12.3.3.1.1.4''"

definition oidOutletState :: string where
  "oidOutletState = ''1.3.6.1.4.1.318.1.1.12.3.5.1.1.4''"

definition cmdImmediateOn :: int where "cmdImmediateOn = 1"
definition cmdImmediateOff :: int where "cmdImmediateOff = 2"

record apc =
  cfg :: apc_config
  cmdOID :: string
  stOID :: string

definition NewAPC :: "apc_config \<Rightarrow> goerr + apc" where
  "NewAPC c =
     (if Address c = [] then Inl (Err ''power: APC address required'')
      else if Outlet c < 1
      then Inl (Err (''power: APC outlet must be >= 1, got '' @ itoa (Outlet c)))
      else let cmdBase = (if CommandOIDBase c = [] then oidOutletCommand else CommandOIDBase c);
               stBase = (if StateOIDBase c = [] then oidOutletState else StateOIDBase c)
           in Inr \<lparr>cfg = c, cmdOID = cmdBase @ ''.'' @ itoa (Outlet c),
                   stOID = stBase @ ''.'' @ itoa (Outlet c)\<rparr>)"

text \<open>\<open>parsePort\<close>: the loop over the digits, with the value so far.\<close>

fun port_loop :: "int \<Rightarrow> string \<Rightarrow> int option" where
  "port_loop n [] = Some n"
| "port_loop n (c # s) =
     (if ord c < 48 \<or> 57 < ord c then None
      else let n' = n * 10 + int (ord c - 48) in if 65535 < n' then None else port_loop n' s)"

definition parsePort :: "string \<Rightarrow> int option" where
  "parsePort s = (if s = [] then None else port_loop 0 s)"

definition splitHostPort :: "string \<Rightarrow> int \<Rightarrow> string \<times> int" where
  "splitHostPort addr defPort =
     (let plain =
        (case last_index_char addr (CHR '':'') of
           Some i \<Rightarrow>
             if index_char addr (CHR '':'') = Some i
             then (case parsePort (drop (i + 1) addr) of
                     Some p \<Rightarrow> (take i addr, p) | None \<Rightarrow> (addr, defPort))
             else (addr, defPort)
         | None \<Rightarrow> (addr, defPort))
      in if addr = [] then (addr, defPort)
         else if hd addr = CHR ''[''
         then (case index_char addr (CHR '']'') of
                 Some i \<Rightarrow>
                   let host = drop 1 (take i addr); rest = drop (i + 1) addr
                   in if 1 < length rest \<and> hd rest = CHR '':''
                      then (case parsePort (drop 1 rest) of Some p \<Rightarrow> (host, p) | None \<Rightarrow> (host, defPort))
                      else (host, defPort)
               | None \<Rightarrow> plain)
         else plain)"

text \<open>What \<open>defaultDial\<close> hands to the SNMP library.\<close>

record dial =
  Target :: string
  Port :: int
  dCommunity :: string
  v2c :: bool
  dTimeout :: duration
  dRetries :: int

definition defaultDial :: "apc \<Rightarrow> dial" where
  "defaultDial a =
     (let (host, port) = splitHostPort (Address (cfg a)) 161
      in \<lparr>Target = host, Port = port,
          dCommunity = (if Community (cfg a) = [] then ''private'' else Community (cfg a)),
          v2c = (Version (cfg a) \<in> {''2c'', ''v2c'', ''2''}),
          dTimeout = (if Timeout (cfg a) = 0 then 3 * second else Timeout (cfg a)),
          dRetries = Retries (cfg a)\<rparr>)"

text \<open>The library: connecting, one \<open>Set\<close> of an integer (an error, or the error status of the
  response if there is one), one \<open>Get\<close> (an error, or the values), closing.\<close>

datatype snmp_val = VInt int | VInt64 int | VUint int | VUint64 int | VUint32 int | VOther string

record 's snmp =
  sConnect :: "dial \<Rightarrow> 's \<Rightarrow> goerr option \<times> 's"
  sSet :: "string \<Rightarrow> int \<Rightarrow> 's \<Rightarrow> (goerr + string option) \<times> 's"
  sGet :: "string \<Rightarrow> 's \<Rightarrow> (goerr + snmp_val list) \<times> 's"
  sClose :: "'s \<Rightarrow> 's"

definition apc_do :: "'s snmp \<Rightarrow> apc \<Rightarrow> ('s \<Rightarrow> 'r \<times> 's) \<Rightarrow> (goerr \<Rightarrow> 'r) \<Rightarrow> 's \<Rightarrow> 'r \<times> 's" where
  "apc_do L a fn fail s =
     (case sConnect L (defaultDial a) s of
        (Some e, s1) \<Rightarrow> (fail (Wrap (''power: snmp connect '' @ Address (cfg a)) e), s1)
      | (None, s1) \<Rightarrow> (let (r, s2) = fn s1 in (r, sClose L s2)))"

definition setCommand :: "'s snmp \<Rightarrow> apc \<Rightarrow> int \<Rightarrow> 's \<Rightarrow> goerr option \<times> 's" where
  "setCommand L a cmd =
     apc_do L a (\<lambda>s.
       case sSet L (cmdOID a) cmd s of
         (Inl e, s1) \<Rightarrow> (Some (Wrap (''power: snmp set '' @ cmdOID a @ ''='' @ itoa cmd) e), s1)
       | (Inr None, s1) \<Rightarrow> (None, s1)
       | (Inr (Some st), s1) \<Rightarrow>
           (if st = ''NoError'' then None
            else Some (Err (''power: snmp set '' @ cmdOID a @ '' returned '' @ st)), s1)) Some"

definition apc_On :: "'s snmp \<Rightarrow> apc \<Rightarrow> 's \<Rightarrow> goerr option \<times> 's" where
  "apc_On L a = setCommand L a cmdImmediateOn"

definition apc_Off :: "'s snmp \<Rightarrow> apc \<Rightarrow> 's \<Rightarrow> goerr option \<times> 's" where
  "apc_Off L a = setCommand L a cmdImmediateOff"

definition asInt :: "snmp_val \<Rightarrow> int option" where
  "asInt v = (case v of VInt n \<Rightarrow> Some n | VInt64 n \<Rightarrow> Some n | VUint n \<Rightarrow> Some (i64 n)
              | VUint64 n \<Rightarrow> Some (i64 n) | VUint32 n \<Rightarrow> Some n | VOther _ \<Rightarrow> None)"

text \<open>A value of another type is its \<open>%v\<close> rendering.\<close>

definition apc_Status :: "'s snmp \<Rightarrow> apc \<Rightarrow> 's \<Rightarrow> (power_state \<times> goerr option) \<times> 's" where
  "apc_Status L a =
     apc_do L a (\<lambda>s.
       case sGet L (stOID a) s of
         (Inl e, s1) \<Rightarrow> ((StateUnknown, Some (Wrap (''power: snmp get '' @ stOID a) e)), s1)
       | (Inr [], s1) \<Rightarrow>
           ((StateUnknown, Some (Err (''power: snmp get '' @ stOID a @ '' returned no variables''))), s1)
       | (Inr (v # _), s1) \<Rightarrow>
           (case asInt v of
              None \<Rightarrow> ((StateUnknown, Some (Err (''power: unexpected outlet state value '' @
                        (case v of VOther t \<Rightarrow> t | _ \<Rightarrow> [])))), s1)
            | Some n \<Rightarrow> ((if n = 1 then StateOn else if n = 2 then StateOff else StateUnknown, None), s1)))
     (\<lambda>e. (StateUnknown, Some e))"

definition apc_Cycle :: "(duration \<Rightarrow> 's \<Rightarrow> goerr option \<times> 's) \<Rightarrow> 's snmp \<Rightarrow> apc \<Rightarrow> duration \<Rightarrow> 's \<Rightarrow> goerr option \<times> 's" where
  "apc_Cycle wait L a offFor0 =
     (let offFor = (if offFor0 \<le> 0 then OffDuration (cfg a) else offFor0)
      in cycle wait (apc_Off L a) (apc_On L a) offFor None)"

definition apc_controller :: "(duration \<Rightarrow> 's \<Rightarrow> goerr option \<times> 's) \<Rightarrow> 's snmp \<Rightarrow> apc \<Rightarrow> 's controller" where
  "apc_controller wait L a =
     \<lparr>cStatus = apc_Status L a, cOn = apc_On L a, cOff = apc_Off L a, cCycle = apc_Cycle wait L a\<rparr>"


subsection \<open>Ports\<close>

text \<open>\<open>parsePort\<close> gives up as soon as the value passes 65535; the outcome is that of parsing the
  whole text as a 16-bit number.\<close>

lemma parse_digits_mono: "parse_digits b a s = Some n \<Longrightarrow> 0 < b \<Longrightarrow> a \<le> n"
proof (induction b a s rule: parse_digits.induct)
  case (2 b acc c s)
  then obtain d where "digit_val c = Some d" "parse_digits b (acc * b + d) s = Some n"
    by (auto split: option.splits if_splits)
  with 2 have "acc * b + d \<le> n" by (auto split: if_splits)
  moreover have "acc \<le> acc * b" using 2 by simp
  ultimately show ?case by linarith
qed simp

lemma digit_val_10: "(case digit_val c of None \<Rightarrow> False | Some d \<Rightarrow> d < 10) \<longleftrightarrow> 48 \<le> ord c \<and> ord c \<le> 57"
  by (auto simp: digit_val_def)

lemma port_loop_digits:
  "a \<le> 65535 \<Longrightarrow> port_loop (int a) s = (case parse_digits 10 a s of None \<Rightarrow> None
     | Some n \<Rightarrow> if n \<le> 65535 then Some (int n) else None)"
proof (induction s arbitrary: a)
  case (Cons c s)
  show ?case
  proof (cases "48 \<le> ord c \<and> ord c \<le> 57")
    case False
    then have "\<not> (case digit_val c of None \<Rightarrow> False | Some d \<Rightarrow> d < 10)" using digit_val_10 by blast
    with False show ?thesis by (auto split: option.splits)
  next
    case True
    let ?a = "a * 10 + (ord c - 48)"
    from True have "digit_val c = Some (ord c - 48)" "ord c - 48 < 10"
      by (simp add: digit_val_def, linarith)
    then have d: "parse_digits 10 a (c # s) = parse_digits 10 ?a s" by simp
    have "int a * 10 + int (ord c - 48) = int ?a" by simp
    with True have l: "port_loop (int a) (c # s) = (if 65535 < int ?a then None else port_loop (int ?a) s)"
      unfolding port_loop.simps Let_def by (simp add: add_diff_eq)
    show ?thesis
    proof (cases "?a \<le> 65535")
      case le: True
      then have "\<not> 65535 < int ?a" by linarith
      then show ?thesis unfolding l d using Cons.IH [OF le] by simp
    next
      case gt: False
      then have "65535 < int ?a" by linarith
      moreover have "parse_digits 10 ?a s = Some n \<Longrightarrow> 65535 < n" for n
        using parse_digits_mono [of 10 ?a s n] gt by simp
      ultimately show ?thesis unfolding l d by (auto split: option.splits)
    qed
  qed
qed simp

lemma parsePort_uint: "parsePort s = map_option int (parse_uint s 10 16)"
  using port_loop_digits [of 0 s] by (auto simp: parsePort_def parse_uint_def split: option.splits)

lemma parsePort_itoa: "0 \<le> p \<Longrightarrow> p < 65536 \<Longrightarrow> parsePort (itoa p) = Some p"
  by (simp add: parsePort_uint itoa_def parse_uint_to_base nat_less_iff)

lemma digit_val_colon: "digit_val (CHR '':'') = None"
  by code_simp

lemma colon_not_digit: "parsePort s = Some p \<Longrightarrow> CHR '':'' \<notin> set s"
  unfolding parsePort_uint parse_uint_def
  using parse_digits_chars [of 10 0 s _ "CHR '':''"] digit_val_colon
  by (auto split: if_splits option.splits)

text \<open>C11: PDU addresses. Parsing a port is the same as reading a 16-bit decimal number. Printing
  a host and a port and splitting the result gives them back, for a bare host and for an IPv6
  address in brackets; without a port the default is taken; and the port always fits 16 bits when
  the default does.\<close>

theorem splitHostPort_roundtrip:
  "parsePort s = map_option int (parse_uint s 10 16) \<and>
   (0 \<le> p \<and> p < 65536 \<and> CHR '':'' \<notin> set h \<and> h \<noteq> [] \<and> hd h \<noteq> CHR ''['' \<longrightarrow>
      splitHostPort (h @ '':'' @ itoa p) d = (h, p) \<and> splitHostPort h d = (h, d)) \<and>
   (0 \<le> p \<and> p < 65536 \<and> CHR '']'' \<notin> set h \<longrightarrow>
      splitHostPort (''['' @ h @ '']:'' @ itoa p) d = (h, p) \<and> splitHostPort (''['' @ h @ '']'') d = (h, d)) \<and>
   (0 \<le> d \<and> d < 65536 \<longrightarrow> 0 \<le> snd (splitHostPort a d) \<and> snd (splitHostPort a d) < 65536)"
proof (intro conjI impI)
  show "parsePort s = map_option int (parse_uint s 10 16)" by (rule parsePort_uint)
next
  assume a: "0 \<le> p \<and> p < 65536 \<and> CHR '':'' \<notin> set h \<and> h \<noteq> [] \<and> hd h \<noteq> CHR ''[''"
  then have p: "parsePort (itoa p) = Some p" by (simp add: parsePort_itoa)
  with a colon_not_digit [OF p] show "splitHostPort (h @ '':'' @ itoa p) d = (h, p)"
    by (simp add: splitHostPort_def Let_def index_char_append last_index_char_append)
  from a show "splitHostPort h d = (h, d)"
    by (simp add: splitHostPort_def Let_def last_index_char_None [THEN iffD2])
next
  assume a: "0 \<le> p \<and> p < 65536 \<and> CHR '']'' \<notin> set h"
  then have p: "parsePort (itoa p) = Some p" by (simp add: parsePort_itoa)
  have "itoa p \<noteq> []" by (simp add: itoa_def)
  with a p index_char_append [of "CHR '']''" "''['' @ h" "'':'' @ itoa p"]
  show "splitHostPort (''['' @ h @ '']:'' @ itoa p) d = (h, p)"
    by (simp add: splitHostPort_def Let_def)
  from a index_char_append [of "CHR '']''" "''['' @ h" "[]"]
  show "splitHostPort (''['' @ h @ '']'') d = (h, d)"
    by (simp add: splitHostPort_def Let_def)
next
  assume d: "0 \<le> d \<and> d < 65536"
  have p: "0 \<le> n \<and> n < 65536" if "parsePort t = Some n" for t n
    using that by (auto simp: parsePort_uint parse_uint_def split: if_splits option.splits)
  show "0 \<le> snd (splitHostPort a d)" "snd (splitHostPort a d) < 65536"
    using d p by (auto simp: splitHostPort_def Let_def split: option.splits)
qed

theorem splitHostPort_roundtrip_witness:
  "splitHostPort ''10.0.0.9:1161'' 161 = (''10.0.0.9'', 1161) \<and> splitHostPort ''[::1]:99'' 161 = (''::1'', 99) \<and>
   splitHostPort ''pdu'' 161 = (''pdu'', 161) \<and> splitHostPort ''pdu:70000'' 161 = (''pdu:70000'', 161)"
proof -
  have i: "itoa 1161 = ''1161''" "itoa 99 = ''99''" by code_simp+
  have "splitHostPort (''10.0.0.9'' @ '':'' @ itoa 1161) 161 = (''10.0.0.9'', 1161)"
    using splitHostPort_roundtrip [of "[]" 1161 "''10.0.0.9''"] by simp
  moreover have "splitHostPort (''['' @ ''::1'' @ '']:'' @ itoa 99) 161 = (''::1'', 99)"
    using splitHostPort_roundtrip [of "[]" 99 "''::1''"] by simp
  moreover have "splitHostPort ''pdu'' 161 = (''pdu'', 161)"
    using splitHostPort_roundtrip [of "[]" 0 "''pdu''"] by simp
  moreover have "splitHostPort ''pdu:70000'' 161 = (''pdu:70000'', 161)" by code_simp
  ultimately show ?thesis by (simp add: i)
qed


subsection \<open>The outlet contract\<close>

text \<open>
  What switching an outlet promises: a successful command leaves it in the commanded state, a
  failed one leaves it as it was, and waiting does not touch it. Under it a power cycle that
  reports success ends with the outlet on, and one that fails leaves it as it was if the command
  to cut power failed, and off otherwise.
\<close>

locale outlet =
  fixes off :: "'s \<Rightarrow> goerr option \<times> 's"
    and on :: "'s \<Rightarrow> goerr option \<times> 's"
    and wait :: "duration \<Rightarrow> 's \<Rightarrow> goerr option \<times> 's"
    and pwr :: "'s \<Rightarrow> power_state"
  assumes off_ok: "off s = (None, s') \<Longrightarrow> pwr s' = StateOff"
    and off_err: "off s = (Some e, s') \<Longrightarrow> pwr s' = pwr s"
    and on_ok: "on s = (None, s') \<Longrightarrow> pwr s' = StateOn"
    and on_err: "on s = (Some e, s') \<Longrightarrow> pwr s' = pwr s"
    and wait_power: "wait d s = (r, s') \<Longrightarrow> pwr s' = pwr s"
begin

lemma cycle_power:
  assumes "cycle wait off on d None s = (r, s')"
  shows "pwr s' = (if r = None then StateOn else if fst (off s) = None then StateOff else pwr s)"
proof (cases "fst (off s)")
  case (Some e)
  then obtain s1 where "off s = (Some e, s1)" by (metis prod.collapse)
  with assms off_err show ?thesis by (auto simp: cycle_def Let_def)
next
  case None
  then obtain s1 where 1: "off s = (None, s1)" by (metis prod.collapse)
  let ?d = "if d \<le> 0 then DefaultOffDuration else d"
  obtain w s3 where 2: "wait ?d s1 = (w, s3)" by fastforce
  have p3: "pwr s3 = StateOff" using wait_power [OF 2] off_ok [OF 1] by simp
  show ?thesis
  proof (cases w)
    case (Some e)
    with assms 1 2 p3 None show ?thesis by (auto simp: cycle_def Let_def)
  next
    case wn: None
    obtain o4 s4 where 4: "on s3 = (o4, s4)" by fastforce
    show ?thesis
      using assms 1 2 4 p3 None wn on_ok on_err by (cases o4) (auto simp: cycle_def Let_def)
  qed
qed

end

definition fake_timer :: "duration \<Rightarrow> fake \<Rightarrow> goerr option \<times> fake" where
  "fake_timer d f = (None, f)"

interpretation fake_outlet: outlet fake_Off fake_On fake_timer fstate
  by unfold_locales (auto simp: fake_Off_def fake_On_def fake_timer_def)

text \<open>The outlet of an APC unit, seen through the SNMP library: a \<open>Set\<close> of the outlet's command
  object switches it when the unit answers without an error status, and nothing else does.\<close>

definition pdu_laws :: "'s snmp \<Rightarrow> apc \<Rightarrow> (duration \<Rightarrow> 's \<Rightarrow> goerr option \<times> 's) \<Rightarrow> ('s \<Rightarrow> power_state) \<Rightarrow> bool" where
  "pdu_laws L a wait pwr \<longleftrightarrow>
     (\<forall>d s. pwr (snd (sConnect L d s)) = pwr s) \<and> (\<forall>s. pwr (sClose L s) = pwr s) \<and>
     (\<forall>d s. pwr (snd (wait d s)) = pwr s) \<and>
     (\<forall>s n. n \<in> {cmdImmediateOn, cmdImmediateOff} \<longrightarrow>
        pwr (snd (sSet L (cmdOID a) n s)) =
          (if fst (sSet L (cmdOID a) n s) \<in> {Inr None, Inr (Some ''NoError'')}
           then (if n = cmdImmediateOn then StateOn else StateOff) else pwr s))"

lemma setCommand_power:
  assumes "pdu_laws L a wait pwr" "n \<in> {cmdImmediateOn, cmdImmediateOff}"
    and "setCommand L a n s = (r, s')"
  shows "pwr s' = (if r = None then (if n = cmdImmediateOn then StateOn else StateOff) else pwr s)"
proof -
  obtain c s1 where c: "sConnect L (defaultDial a) s = (c, s1)" by fastforce
  have s1: "pwr s1 = pwr s" using assms(1) c by (metis pdu_laws_def snd_conv)
  obtain x s2 where x: "sSet L (cmdOID a) n s1 = (x, s2)" by fastforce
  have s2: "pwr s2 = (if x \<in> {Inr None, Inr (Some ''NoError'')}
      then (if n = cmdImmediateOn then StateOn else StateOff) else pwr s)"
    using assms(1,2) x s1 unfolding pdu_laws_def by (metis fst_conv snd_conv)
  have cl: "pwr (sClose L s2) = pwr s2" using assms(1) by (simp add: pdu_laws_def)
  show ?thesis
    using assms(3) c x s1 s2 cl
    by (auto simp: setCommand_def apc_do_def split: option.splits sum.splits if_splits)
qed

lemma apc_outlet:
  assumes "pdu_laws L a wait pwr"
  shows "outlet (apc_Off L a) (apc_On L a) wait pwr"
proof
  show "pwr s' = pwr s" if "wait d s = (r, s')" for d s r s'
    using assms that by (metis pdu_laws_def snd_conv)
qed (auto simp: apc_Off_def apc_On_def cmdImmediateOn_def cmdImmediateOff_def
    dest!: setCommand_power [OF assms, rotated])


text \<open>A unit whose state is its outlet, and a wait that is cut short by the context.\<close>

definition unit_pdu :: "power_state snmp" where
  "unit_pdu = \<lparr>sConnect = (\<lambda>_ s. (None, s)), sSet = (\<lambda>_ n _. (Inr None, if n = 1 then StateOn else StateOff)),
     sGet = (\<lambda>_ s. (Inr [VInt (if s = StateOn then 1 else 2)], s)), sClose = (\<lambda>s. s)\<rparr>"

definition rack_apc :: apc where
  "rack_apc = \<lparr>cfg = \<lparr>Address = ''10.0.0.9'', Community = [], Outlet = 3, Version = [], Timeout = 0,
     Retries = 1, CommandOIDBase = [], StateOIDBase = [], OffDuration = 0\<rparr>,
     cmdOID = oidOutletCommand @ ''.3'', stOID = oidOutletState @ ''.3''\<rparr>"


text \<open>The scrollback is cleared when power is lost. Wrapping a controller with the hook the
  daemon installs clears the console before every \<open>Off\<close> and \<open>Cycle\<close>, and on no other
  operation: after a successful cycle the log holds only what was published since.\<close>

lemma hook_clears_scrollback:
  "(let h = Hook c (Some (\<lambda>(con, s). (con_Reset con, s)))
    in cOff h (con, s) = cOff c (con_Reset con, s) \<and> cCycle h d (con, s) = cCycle c d (con_Reset con, s) \<and>
       cOn h = cOn c \<and> cStatus h = cStatus c) \<and> Hook c None = c \<and>
   (let con' = foldl (\<lambda>k p. publish p k) (con_Reset con) ps
    in ring_ok (scroll con) \<longrightarrow> ring_abs (scroll con') = last_n (ring_cap (scroll con)) (concat ps))"
proof -
  have s: "scroll (foldl (\<lambda>k p. publish p k) k ps) = foldl ring_write (scroll k) ps" for k
    by (induction ps arbitrary: k) (simp_all add: publish_def)
  have "ring_abs (foldl ring_write (ring_reset (scroll con)) ps) = last_n (ring_cap (scroll con)) (concat ps)"
    if "ring_ok (scroll con)"
    using ringlog.abs_writes [OF ring_ok_reset [OF that], of ps] by simp
  then show ?thesis by (simp add: Hook_def s con_Reset_def Let_def)
qed

lemma hook_clears_scrollback_witness:
  "(let con = publish ''old boot'' (new_console 4 64);
        con' = foldl (\<lambda>k p. publish p k) (con_Reset con) [''new'', '' boot'']
    in ring_abs (scroll con') = ''new boot'')"
proof -
  let ?con = "publish ''old boot'' (new_console 4 64)"
  have ok: "ring_ok (scroll ?con)"
    by (simp add: publish_def new_console_def ring_ok_write ring_ok_newRing)
  have cap: "ring_cap (scroll ?con) = 64"
    by (simp add: publish_def new_console_def) (simp add: ring_cap_def newRing_def Let_def)
  let ?c = "\<lparr>cStatus = Pair (StateOn, None), cOn = Pair None, cOff = Pair None, cCycle = (\<lambda>_. Pair None)\<rparr>
    :: (console \<times> unit) controller"
  have "length (concat [''new'', '' boot'']) = 8" by simp
  then have "last_n 64 (concat [''new'', '' boot'']) = ''new boot''" by (simp add: last_n_all)
  with hook_clears_scrollback [of ?c ?con "()" 0 "[''new'', '' boot'']"] ok cap show ?thesis
    by (simp only: Let_def)
qed

end
