(* ===== verification/Uboot.thy ===== *)
theory Uboot
  imports Pattern_Wait
begin

text \<open>
  \<open>internal/uboot/uboot.go\<close>: driving the U-Boot prompt over the console. The operations are
  goroutines over the same script of events as \<open>WaitForPattern\<close>; what an operation hands to
  the transport is collected in \<open>sent\<close>, and the progress events it emits in \<open>emitted\<close>. An
  \<open>Emit\<close> that is nil is \<open>False\<close>. Compiling a pattern text is the parameter \<open>compile\<close>, and the
  power controller's \<open>Cycle\<close> is a goroutine handed in, \<open>None\<close> when there is no controller.
\<close>

datatype event_kind = EventInfo | EventConsole | EventStage | EventSuccess | EventError

record uevent =
  Kind :: event_kind
  Stage :: string
  Message :: string
  EvConsole :: bytes

record uconfig =
  PromptPattern :: string
  InterruptPattern :: string
  InterruptKey :: string
  EthAct :: string
  LoadAddr :: string
  CoreMask :: string
  ServerIP :: string
  CommandTimeout :: duration
  KernelBanner :: string

definition default_prompt :: string where "default_prompt = ''=> ?$''"
definition default_interrupt :: string where "default_interrupt = ''Hit ctrl-x to stop booting''"
definition default_banner :: string where
  "default_banner = ''(Linux version|Loading big-endian Linux kernel|Starting cores)''"

definition withDefaults :: "uconfig \<Rightarrow> uconfig" where
  "withDefaults c =
     c\<lparr>PromptPattern := (if PromptPattern c = [] then default_prompt else PromptPattern c),
       InterruptPattern := (if InterruptPattern c = [] then default_interrupt else InterruptPattern c),
       InterruptKey := (if InterruptKey c = [] then ''ctrl-x'' else InterruptKey c),
       EthAct := (if EthAct c = [] then ''octmgmt0'' else EthAct c),
       LoadAddr := (if LoadAddr c = [] then ''0x20000000'' else LoadAddr c),
       CoreMask := (if CoreMask c = [] then ''f'' else CoreMask c),
       CommandTimeout := (if CommandTimeout c = 0 then 30 * second else CommandTimeout c),
       KernelBanner := (if KernelBanner c = [] then default_banner else KernelBanner c)\<rparr>"

type_synonym uworld = "uevent world"

definition emit_info :: "bool \<Rightarrow> string \<Rightarrow> string \<Rightarrow> uworld \<Rightarrow> uworld" where
  "emit_info e stage msg w =
     (if e then w\<lparr>emitted := emitted w @ [\<lparr>Kind = EventInfo, Stage = stage, Message = msg, EvConsole = []\<rparr>]\<rparr> else w)"

definition emit_stage :: "bool \<Rightarrow> string \<Rightarrow> string \<Rightarrow> uworld \<Rightarrow> uworld" where
  "emit_stage e stage msg w =
     (if e then w\<lparr>emitted := emitted w @ [\<lparr>Kind = EventStage, Stage = stage, Message = msg, EvConsole = []\<rparr>]\<rparr> else w)"

definition emit_console :: "bool \<Rightarrow> string \<Rightarrow> bytes \<Rightarrow> uworld \<Rightarrow> uworld" where
  "emit_console e stage b w =
     (if e \<and> 0 < length b
      then w\<lparr>emitted := emitted w @ [\<lparr>Kind = EventConsole, Stage = stage, Message = [], EvConsole = b\<rparr>]\<rparr> else w)"

record orch =
  ucfg :: uconfig
  promptRE :: re
  interruptRE :: re
  bannerRE :: re
  interruptKB :: bytes

definition New :: "(string \<Rightarrow> goerr + re) \<Rightarrow> uconfig \<Rightarrow> goerr + orch" where
  "New compile c0 =
     (let c = withDefaults c0
      in case compile (PromptPattern c) of
           Inl e \<Rightarrow> Inl (Wrap ''uboot: bad prompt pattern'' e)
         | Inr p \<Rightarrow>
      (case compile (InterruptPattern c) of
           Inl e \<Rightarrow> Inl (Wrap ''uboot: bad interrupt pattern'' e)
         | Inr i \<Rightarrow>
      (case compile (KernelBanner c) of
           Inl e \<Rightarrow> Inl (Wrap ''uboot: bad kernel banner pattern'' e)
         | Inr b \<Rightarrow>
      (case KeyBytes (InterruptKey c) of
           Inl e \<Rightarrow> Inl (Wrap ''uboot: bad interrupt key'' e)
         | Inr kb \<Rightarrow> Inr \<lparr>ucfg = c, promptRE = p, interruptRE = i, bannerRE = b, interruptKB = kb\<rparr>))))"

subsection \<open>Sending and expecting\<close>

definition trim_acc :: "bytes \<Rightarrow> bytes" where
  "trim_acc a = (if maxPatternWindow < int (length a) then drop (length a - 524288) a else a)"

text \<open>The loop of \<open>sendAndExpect\<close> over its subscription \<open>i\<close>.\<close>

fun expect :: "re \<Rightarrow> nat \<Rightarrow> nat \<Rightarrow> bool \<Rightarrow> string \<Rightarrow> bytes \<Rightarrow> ev list \<Rightarrow> uworld
    \<Rightarrow> (bytes \<times> bool \<times> goerr option) option \<times> ev list \<times> uworld" where
  "expect r k i e st a [] w = (None, [], w)"
| "expect r k i e st a (Go b # es) w =
     (let c = fst (sub_recv i (conw w))
      in if ctx_err w k \<noteq> None \<and> (b \<or> c = Empty) then (Some (a, False, ctx_err w k), es, w)
         else (case c of
                 Chunk p \<Rightarrow>
                   let w1 = emit_console e st p (con_do (ORecv i) w); a1 = a @ p
                   in if re_match r a1 then (Some (a1, True, None), es, w1)
                      else expect r k i e st (trim_acc a1) es w1
               | Ended \<Rightarrow> (Some (a, False, Some ErrClosed), es, w)
               | Empty \<Rightarrow> expect r k i e st a es w))"
| "expect r k i e st a (v # es) w = expect r k i e st a es (env v w)"

definition sendAndExpect :: "nat \<Rightarrow> bytes \<Rightarrow> re \<Rightarrow> bool \<Rightarrow> string \<Rightarrow> (bytes \<times> bool \<times> goerr option, uevent) proc" where
  "sendAndExpect k toSend r e st =
     bind_p (p_Subscribe 0) (\<lambda>i.
     bind_p (if 0 < length toSend then p_Write toSend else return_p None) (\<lambda>we.
     bind_p (case we of
               Some x \<Rightarrow> return_p ([], False, Some (Wrap ''uboot: write'' x))
             | None \<Rightarrow> expect r k i e st []) (\<lambda>res.
     bind_p (p_Unsubscribe i) (\<lambda>_. return_p res))))"

text \<open>\<open>cleanCommandOutput\<close>: the loop drops trailing lines that are empty or the prompt.\<close>

fun drop_prompts :: "string list \<Rightarrow> string list" where
  "drop_prompts [] = []"
| "drop_prompts (l # ls) =
     (let t = trim_right l [CR, CHR '' '', TAB]
      in if t = ''=>'' \<or> t = [] then drop_prompts ls else l # ls)"

definition cleanCommandOutput :: "string \<Rightarrow> string \<Rightarrow> string" where
  "cleanCommandOutput raw command =
     (let s = (case index_str raw command of None \<Rightarrow> raw | Some i \<Rightarrow> drop (i + length command) raw);
          s = trim_left s [CR, LF];
          lines = split_char s LF
      in join_str (rev (drop_prompts (rev lines))) [LF])"

definition RunCommand :: "orch \<Rightarrow> nat \<Rightarrow> string \<Rightarrow> (string \<times> goerr option, uevent) proc" where
  "RunCommand ob k0 command =
     (let t = CommandTimeout (ucfg ob); k = (if 0 < t then k0 + 1 else k0)
      in bind_p (modify_p (if 0 < t then with_timeout k0 t else (\<lambda>w. w))) (\<lambda>_.
         bind_p (sendAndExpect k (command @ [CR]) (promptRE ob) False ''cmd'') (\<lambda>(a, ok, err).
           let out = cleanCommandOutput a command
           in return_p (out,
                case err of
                  Some x \<Rightarrow> Some x
                | None \<Rightarrow> if ok then None
                          else Some (Err (''uboot: prompt did not return after '' @ quote command))))))"

fun first_marker :: "string \<Rightarrow> string list \<Rightarrow> string option" where
  "first_marker low [] = None"
| "first_marker low (m # ms) = (if contains_str low (to_lower m) then Some m else first_marker low ms)"

definition runChecked :: "orch \<Rightarrow> nat \<Rightarrow> bool \<Rightarrow> string \<Rightarrow> string \<Rightarrow> string list \<Rightarrow> (string \<times> goerr option, uevent) proc" where
  "runChecked ob k e st command errMarkers =
     bind_p (modify_p (emit_info e st (''uboot> '' @ command))) (\<lambda>_.
     bind_p (RunCommand ob k command) (\<lambda>(out, err).
     bind_p (modify_p (emit_console e st out)) (\<lambda>_.
       return_p (out,
         case err of
           Some x \<Rightarrow> Some x
         | None \<Rightarrow>
             (case first_marker (to_lower out) errMarkers of
                None \<Rightarrow> None
              | Some m \<Rightarrow> Some (Err (''uboot: '' @ quote command @ '' reported error (matched '' @ quote m @ '')'')))))))"

subsection \<open>Interrupting the boot\<close>

fun interrupt_loop :: "orch \<Rightarrow> nat \<Rightarrow> bool \<Rightarrow> nat \<Rightarrow> (goerr option, uevent) proc" where
  "interrupt_loop ob k e 0 =
     return_p (Some (Err ''uboot: sent interrupt key but never reached prompt''))"
| "interrupt_loop ob k e (Suc n) =
     bind_p (p_Write (interruptKB ob)) (\<lambda>we.
       case we of
         Some x \<Rightarrow> return_p (Some (Wrap ''uboot: send interrupt'' x))
       | None \<Rightarrow>
           bind_p (modify_p (with_timeout k (750 * millisecond))) (\<lambda>_.
           bind_p (WaitForPattern (promptRE ob) (k + 1) 256) (\<lambda>(m, c, err).
             case err of
               None \<Rightarrow> bind_p (modify_p (emit_stage e ''prompt'' ''reached U-Boot prompt'')) (\<lambda>_. return_p None)
             | Some _ \<Rightarrow>
                 bind_p (p_ctx_err k) (\<lambda>ce.
                   case ce of Some x \<Rightarrow> return_p (Some x) | None \<Rightarrow> interrupt_loop ob k e n))))"

definition InterruptBoot :: "orch \<Rightarrow> (duration \<Rightarrow> (goerr option, uevent) proc) option \<Rightarrow> nat \<Rightarrow> bool \<Rightarrow> bool
    \<Rightarrow> (goerr option, uevent) proc" where
  "InterruptBoot ob pw k powerCycle e =
     bind_p
       (if powerCycle
        then (case pw of
                None \<Rightarrow> return_p (Some (Err ''uboot: power cycle requested but no power controller configured''))
              | Some cyc \<Rightarrow>
                  bind_p (modify_p (emit_stage e ''power_cycle'' ''power-cycling target'')) (\<lambda>_.
                  bind_p (cyc 0) (\<lambda>r. return_p (map_option (Wrap ''uboot: power cycle'') r))))
        else return_p None)
       (\<lambda>pe. case pe of
          Some x \<Rightarrow> return_p (Some x)
        | None \<Rightarrow>
            bind_p (modify_p (emit_stage e ''await_interrupt'' ''waiting for U-Boot autoboot prompt'')) (\<lambda>_.
            bind_p (WaitForPattern (interruptRE ob) k 0) (\<lambda>(m, c, err).
              case err of
                Some x \<Rightarrow> return_p (Some (Wrap ''uboot: never saw autoboot prompt'' x))
              | None \<Rightarrow>
                  bind_p (modify_p (emit_info e ''await_interrupt''
                    (''autoboot prompt seen; sending interrupt key '' @ quote (InterruptKey (ucfg ob))))) (\<lambda>_.
                  interrupt_loop ob k e 8))))"

subsection \<open>Netboot\<close>

record netboot_params =
  Image :: string
  PowerCycle :: bool
  nServerIP :: string
  KernelArgs :: string
  VerifyCRC32 :: bool
  ImageLen :: int
  ImageCRC32 :: "32 word"
  nTimeout :: duration

text \<open>\<open>if _, err := ...; err != nil { return err }\<close>.\<close>

definition try_p :: "(string \<times> goerr option, uevent) proc \<Rightarrow> (goerr option, uevent) proc \<Rightarrow> (goerr option, uevent) proc" where
  "try_p m f = bind_p m (\<lambda>(out, err). case err of Some x \<Rightarrow> return_p (Some x) | None \<Rightarrow> f)"

definition boot_cmd :: "orch \<Rightarrow> netboot_params \<Rightarrow> string" where
  "boot_cmd ob p =
     ''bootoctlinux $loadaddr coremask='' @ CoreMask (ucfg ob) @ '' endbootargs panic=0'' @
     (if trim_space (KernelArgs p) \<noteq> [] then '' '' @ trim_space (KernelArgs p) else [])"

definition crc_cmd :: "orch \<Rightarrow> netboot_params \<Rightarrow> string" where
  "crc_cmd ob p =
     ''crc32 -v '' @ LoadAddr (ucfg ob) @ '' 0x'' @ fmt_x (ImageLen p) @ '' '' @
     zero_pad 8 (to_base 16 (unat (ImageCRC32 p)))"

definition Netboot :: "orch \<Rightarrow> (duration \<Rightarrow> (goerr option, uevent) proc) option \<Rightarrow> nat \<Rightarrow> netboot_params \<Rightarrow> bool
    \<Rightarrow> (goerr option, uevent) proc" where
  "Netboot ob pw k0 p e =
     (if Image p = [] then return_p (Some (Err ''uboot: netboot image name required''))
      else
      let serverIP = (if nServerIP p = [] then ServerIP (ucfg ob) else nServerIP p)
      in if serverIP = []
         then return_p (Some (Err ''uboot: netboot serverip required (controller IP reachable from target)''))
         else
      let k = (if 0 < nTimeout p then k0 + 1 else k0)
      in bind_p (modify_p (if 0 < nTimeout p then with_timeout k0 (nTimeout p) else (\<lambda>w. w))) (\<lambda>_.
         bind_p (if PowerCycle p then InterruptBoot ob pw k True e else return_p None) (\<lambda>ie.
         case ie of Some x \<Rightarrow> return_p (Some x) | None \<Rightarrow>
         try_p (runChecked ob k e ''net'' (''setenv ethact '' @ EthAct (ucfg ob)) [''Unknown command'']) (
         try_p (runChecked ob k e ''net'' ''dhcp'' [''TIMEOUT'', ''not set'', ''failed'']) (
         try_p (runChecked ob k e ''net'' (''setenv serverip '' @ serverIP) []) (
         try_p (runChecked ob k e ''net'' (''setenv loadaddr '' @ LoadAddr (ucfg ob)) []) (
         bind_p (modify_p (emit_stage e ''tftp'' ''fetching image over TFTP'')) (\<lambda>_.
         try_p (runChecked ob k e ''tftp'' (''tftpboot $loadaddr $serverip:/'' @ Image p)
                  [''TFTP error'', ''Retry count exceeded'', ''not set'', ''abort'']) (
         try_p (if VerifyCRC32 p
                then bind_p (modify_p (emit_stage e ''verify'' ''verifying CRC32 of loaded image'')) (\<lambda>_.
                     runChecked ob k e ''verify'' (crc_cmd ob p) [''bad'', ''!='', ''error''])
                else return_p ([], None)) (
         bind_p (modify_p (emit_stage e ''boot'' (''booting kernel: '' @ boot_cmd ob p))) (\<lambda>_.
         bind_p (sendAndExpect k (boot_cmd ob p @ [CR]) (bannerRE ob) e ''boot'') (\<lambda>(a, ok, err).
           case err of
             Some x \<Rightarrow> return_p (Some (Wrap ''uboot: booting kernel'' x))
           | None \<Rightarrow>
               if \<not> ok then return_p (Some (Err ''uboot: kernel banner not seen after bootoctlinux''))
               else bind_p (modify_p (emit_stage e ''boot'' ''kernel is booting'')) (\<lambda>_. return_p None)))))))))))))"


subsection \<open>What an operation puts on the wire\<close>

text \<open>\<open>sends m A\<close>: whatever the script, running \<open>m\<close> only appends to \<open>sent\<close>, and the bytes
  it appended and its result are related by \<open>A\<close>. The contract is compositional, so the wire
  traffic of each operation is read off its body.\<close>

definition sends :: "('a, 'e) proc \<Rightarrow> ('a option \<Rightarrow> bytes list \<Rightarrow> bool) \<Rightarrow> bool" where
  "sends m A \<longleftrightarrow> (\<forall>es w r es' w'. m es w = (r, es', w') \<longrightarrow> (\<exists>d. sent w' = sent w @ d \<and> A r d))"

lemma sends_I: "(\<And>es w r es' w'. m es w = (r, es', w') \<Longrightarrow> \<exists>d. sent w' = sent w @ d \<and> A r d) \<Longrightarrow> sends m A"
  by (simp add: sends_def)

lemma sends_D: "sends m A \<Longrightarrow> m es w = (r, es', w') \<Longrightarrow> \<exists>d. sent w' = sent w @ d \<and> A r d"
  by (simp add: sends_def)

lemma sends_weaken: "sends m A \<Longrightarrow> (\<And>r d. A r d \<Longrightarrow> B r d) \<Longrightarrow> sends m B"
  unfolding sends_def by blast

lemma sends_return: "A (Some a) [] \<Longrightarrow> sends (return_p a) A"
  by (simp add: sends_def return_p_def)

lemma sends_modify: "(\<And>w. sent (f w) = sent w) \<Longrightarrow> A (Some ()) [] \<Longrightarrow> sends (modify_p f) A"
  by (simp add: sends_def modify_p_def)

lemma sends_bind:
  assumes m: "sends m A" and f: "\<And>a. sends (f a) (B a)"
    and stop: "\<And>d. A None d \<Longrightarrow> C None d"
    and go: "\<And>a r d1 d2. A (Some a) d1 \<Longrightarrow> B a r d2 \<Longrightarrow> C r (d1 @ d2)"
  shows "sends (bind_p m f) C"
proof (rule sends_I)
  fix es w r es' w' assume b: "bind_p m f es w = (r, es', w')"
  obtain x es1 w1 where x: "m es w = (x, es1, w1)" by (metis prod.collapse)
  from sends_D [OF m x] obtain d1 where d1: "sent w1 = sent w @ d1" "A x d1" by blast
  show "\<exists>d. sent w' = sent w @ d \<and> C r d"
  proof (cases x)
    case None
    with b x d1 stop show ?thesis by (auto simp: bind_p_def)
  next
    case (Some a)
    with b x have "f a es1 w1 = (r, es', w')" by (simp add: bind_p_def)
    from sends_D [OF f this] d1 go Some show ?thesis by fastforce
  qed
qed

text \<open>A step that puts nothing on the wire.\<close>

definition silent :: "('a, 'e) proc \<Rightarrow> bool" where
  "silent m \<longleftrightarrow> sends m (\<lambda>_ d. d = [])"

lemma silent_bind_first:
  assumes "silent m" "\<And>a. sends (f a) C" "C None []"
  shows "sends (bind_p m f) C"
  by (rule sends_bind [OF assms(1) [unfolded silent_def] assms(2)]) (use assms(3) in auto)

lemma silent_bind: "silent m \<Longrightarrow> (\<And>a. silent (f a)) \<Longrightarrow> silent (bind_p m f)"
  unfolding silent_def by (rule sends_bind [where B = "\<lambda>_ _ d. d = []"]) auto

lemma silent_return [simp]: "silent (return_p a)"
  by (simp add: silent_def sends_return)

lemma sent_frame [simp, frame_simps]:
  "sent (con_do e w) = sent w" "sent (ctx_fire k x w) = sent w" "sent (with_timeout k d w) = sent w"
  by (simp_all add: con_do_def ctx_fire_def with_timeout_def)

lemma sent_emit [simp, frame_simps]:
  "sent (emit_info b st m w) = sent w" "sent (emit_stage b st m w) = sent w"
  "sent (emit_console b st p w) = sent w"
  by (simp_all add: emit_info_def emit_stage_def emit_console_def)

lemma sent_env [simp]: "sent (env v w) = sent w"
  by (cases v) simp_all

lemma silent_modify: "(\<And>w. sent (f w) = sent w) \<Longrightarrow> silent (modify_p f)"
  by (simp add: silent_def sends_modify)

lemma sends_atomic:
  assumes "\<And>w a w'. f w = (a, w') \<Longrightarrow> \<exists>d. sent w' = sent w @ d \<and> A (Some a) d" "A None []"
  shows "sends (atomic f) A"
proof (rule sends_I)
  fix es w r es' w' assume "atomic f es w = (r, es', w')"
  then show "\<exists>d. sent w' = sent w @ d \<and> A r d"
  proof (induction es arbitrary: w)
    case Nil
    with assms(2) show ?case by simp
  next
    case (Cons e es)
    show ?case
    proof (cases e)
      case (Go b)
      obtain a v where "f w = (a, v)" by fastforce
      with Go Cons.prems assms(1) show ?thesis by auto
    next
      case (Con x)
      with Cons.IH [of "con_do x w"] Cons.prems show ?thesis by simp
    next
      case (Fire k x)
      with Cons.IH [of "ctx_fire k x w"] Cons.prems show ?thesis by simp
    qed
  qed
qed

lemma silent_actions [simp]:
  "silent (p_Subscribe n)" "silent (p_Unsubscribe i)" "silent (p_ctx_err k)" "silent p_Err" "silent p_TotalWritten"
  unfolding silent_def p_Subscribe_def p_Unsubscribe_def p_ctx_err_def p_Err_def p_TotalWritten_def
  by (rule sends_atomic; simp add: action_defs)+

lemma sends_Write: "sends (p_Write p) (\<lambda>r d. prefix d [p] \<and> (r = Some None \<longrightarrow> d = [p]))"
  unfolding p_Write_def
  by (rule sends_atomic)
    (auto simp: a_Write_def con_Write_def Let_def split: list.splits if_splits prod.splits)

lemma silent_WaitForPattern [simp]: "silent (WaitForPattern r k n)"
  unfolding silent_def by (rule sends_I) (auto dest: later_WaitForPattern simp: later_def)


lemma sent_expect: "expect r k i e st a es w = (x, es', w') \<Longrightarrow> sent w' = sent w"
proof (induction r k i e st a es w rule: expect.induct [case_names nil go con fire])
  case (go r k i e st a b es w)
  show ?case
  proof (cases "ctx_err w k \<noteq> None \<and> (b \<or> fst (sub_recv i (conw w)) = Empty)")
    case True
    with go.prems show ?thesis by (auto simp: Let_def)
  next
    case False
    show ?thesis
    proof (cases "fst (sub_recv i (conw w))")
      case (Chunk p)
      with False go.prems go.IH(1) [OF refl False Chunk refl refl] show ?thesis
        by (cases "re_match r (a @ p)") (auto simp: Let_def)
    next
      case Ended
      with False go.prems show ?thesis by (auto simp: Let_def)
    next
      case Empty
      with False go.prems go.IH(2) [OF refl False Empty] show ?thesis by (auto simp: Let_def)
    qed
  qed
qed auto

lemma silent_expect [simp]: "silent (expect r k i e st a)"
  unfolding silent_def by (rule sends_I) (auto dest: sent_expect)

text \<open>How \<open>expect\<close> ends: \<open>ok\<close> exactly with a match of the accumulated text and no error.\<close>

lemma expect_result:
  "expect r k i e st a es w = (Some (a', ok, err), es', w') \<Longrightarrow>
   (ok \<longleftrightarrow> err = None) \<and> (ok \<longrightarrow> re_match r a')"
proof (induction r k i e st a es w rule: expect.induct [case_names nil go con fire])
  case (go r k i e st a b es w)
  show ?case
  proof (cases "ctx_err w k \<noteq> None \<and> (b \<or> fst (sub_recv i (conw w)) = Empty)")
    case True
    with go.prems show ?thesis by (auto simp: Let_def)
  next
    case False
    show ?thesis
    proof (cases "fst (sub_recv i (conw w))")
      case (Chunk p)
      with False go.prems go.IH(1) [OF refl False Chunk refl refl] show ?thesis
        by (cases "re_match r (a @ p)") (auto simp: Let_def)
    next
      case Ended
      with False go.prems show ?thesis by (auto simp: Let_def)
    next
      case Empty
      with False go.prems go.IH(2) [OF refl False Empty] show ?thesis by (auto simp: Let_def)
    qed
  qed
qed auto

text \<open>The outcome of one command: its bytes, once, or nothing when it could not be written; all
  of them when it succeeded.\<close>

definition one :: "bytes \<Rightarrow> bool \<Rightarrow> bytes list \<Rightarrow> bool" where
  "one c succeeded d \<longleftrightarrow> prefix d [c] \<and> (succeeded \<longrightarrow> d = [c])"

lemma one_Nil [simp]: "one c False []"
  by (simp add: one_def)

text \<open>The contract of an operation that is to send the commands \<open>cs\<close> and reports its error in
  the last component.\<close>

definition seqs :: "('a \<Rightarrow> goerr option) \<Rightarrow> bytes list \<Rightarrow> 'a option \<Rightarrow> bytes list \<Rightarrow> bool" where
  "seqs err cs r d \<longleftrightarrow> prefix d cs \<and> (\<forall>a. r = Some a \<and> err a = None \<longrightarrow> d = cs)"

lemma seqs_None [simp]: "seqs err cs None []"
  by (simp add: seqs_def)

lemma seqs_error: "err a \<noteq> None \<Longrightarrow> prefix d cs \<Longrightarrow> seqs err cs (Some a) d"
  by (auto simp: seqs_def)

lemma silent_then:
  assumes "silent m" "\<And>a. sends (f a) (seqs err cs)"
  shows "sends (bind_p m f) (seqs err cs)"
  by (rule silent_bind_first [OF assms]) simp

lemma sends_sendAndExpect:
  assumes "c \<noteq> []"
  shows "sends (sendAndExpect k c r e st) (seqs (\<lambda>(a, ok, err). err) [c])"
  unfolding sendAndExpect_def
proof (rule silent_then)
  fix i
  show "sends
     (bind_p (if 0 < length c then p_Write c else return_p None) (\<lambda>we.
      bind_p (case we of Some x \<Rightarrow> return_p ([], False, Some (Wrap ''uboot: write'' x)) | None \<Rightarrow> expect r k i e st [])
        (\<lambda>res. bind_p (p_Unsubscribe i) (\<lambda>_. return_p res))))
     (seqs (\<lambda>(a, ok, err). err) [c])" (is "sends (bind_p _ ?rest) _")
  proof (rule sends_bind [where A = "\<lambda>r d. prefix d [c] \<and> (r = Some None \<longrightarrow> d = [c])"
        and B = "\<lambda>we r d. d = [] \<and> (we \<noteq> None \<longrightarrow> (\<forall>a. r = Some a \<longrightarrow> snd (snd a) \<noteq> None))"])
    show "sends (if 0 < length c then p_Write c else return_p None) (\<lambda>r d. prefix d [c] \<and> (r = Some None \<longrightarrow> d = [c]))"
      using assms sends_Write by simp
    show "sends (?rest we) (\<lambda>r d. d = [] \<and> (we \<noteq> None \<longrightarrow> (\<forall>a. r = Some a \<longrightarrow> snd (snd a) \<noteq> None)))" for we
    proof (cases we)
      case None
      have "silent (?rest we)" using None by (auto intro!: silent_bind)
      then show ?thesis unfolding silent_def by (rule sends_weaken) (simp add: None)
    next
      case (Some x)
      then have "?rest we = bind_p (p_Unsubscribe i) (\<lambda>_. return_p ([], False, Some (Wrap ''uboot: write'' x)))"
        by (simp add: bind_p_def return_p_def fun_eq_iff)
      moreover have "sends (bind_p (p_Unsubscribe i) (\<lambda>_. return_p ([], False, Some (Wrap ''uboot: write'' x))))
          (\<lambda>r d. d = [] \<and> (we \<noteq> None \<longrightarrow> (\<forall>a. r = Some a \<longrightarrow> snd (snd a) \<noteq> None)))"
        by (rule silent_bind_first) (auto intro!: sends_return)
      ultimately show ?thesis by simp
    qed
  qed (auto simp: seqs_def split: option.splits)
qed simp


lemma sends_RunCommand: "sends (RunCommand ob k c) (seqs snd [c @ [CR]])"
  unfolding RunCommand_def Let_def
proof (rule silent_then)
  show "silent (modify_p (if 0 < CommandTimeout (ucfg ob) then with_timeout k (CommandTimeout (ucfg ob)) else (\<lambda>w. w)))"
    by (rule silent_modify) simp
next
  fix u
  have "c @ [CR] \<noteq> []" by simp
  from sends_sendAndExpect [OF this]
  show "sends (bind_p (sendAndExpect (if 0 < CommandTimeout (ucfg ob) then k + 1 else k) (c @ [CR]) (promptRE ob) False ''cmd'')
      (\<lambda>(a, ok, err). return_p (cleanCommandOutput a c,
         case err of Some x \<Rightarrow> Some x
         | None \<Rightarrow> if ok then None else Some (Err (''uboot: prompt did not return after '' @ quote c)))))
      (seqs snd [c @ [CR]])"
    by (rule sends_bind [where B = "\<lambda>(a, ok, err) r d. d = [] \<and> (\<forall>x. r = Some x \<and> snd x = None \<longrightarrow> err = None)"])
      (auto simp: seqs_def intro!: sends_return split: option.splits if_splits)
qed

lemma sends_runChecked: "sends (runChecked ob k e st c ms) (seqs snd [c @ [CR]])"
  unfolding runChecked_def
proof (rule silent_then)
  show "silent (modify_p (emit_info e st (''uboot> '' @ c)))" by (rule silent_modify) simp
next
  fix u
  show "sends (bind_p (RunCommand ob k c) (\<lambda>(out, err). bind_p (modify_p (emit_console e st out)) (\<lambda>_.
      return_p (out, case err of Some x \<Rightarrow> Some x | None \<Rightarrow>
        (case first_marker (to_lower out) ms of None \<Rightarrow> None
         | Some m \<Rightarrow> Some (Err (''uboot: '' @ quote c @ '' reported error (matched '' @ quote m @ '')'')))))))
      (seqs snd [c @ [CR]])"
    by (rule sends_bind [OF sends_RunCommand,
          where B = "\<lambda>(out, err) r d. d = [] \<and> (\<forall>x. r = Some x \<and> snd x = None \<longrightarrow> err = None)"])
      (auto simp: seqs_def intro!: sends_return silent_bind_first silent_modify split: option.splits)
qed

text \<open>Error-checked sequencing concatenates what is sent.\<close>

lemma sends_check:
  assumes m: "sends m (seqs err cs)" and f: "\<And>a. err a = None \<Longrightarrow> sends (f a) (seqs (\<lambda>e. e) ds)"
    and e: "\<And>a x. err a = Some x \<Longrightarrow> \<exists>y. f a = return_p (Some y)"
  shows "sends (bind_p m f) (seqs (\<lambda>e. e) (cs @ ds))"
proof (rule sends_bind [OF m, where B = "\<lambda>a r d. if err a = None then seqs (\<lambda>e. e) ds r d
    else d = [] \<and> (\<forall>x. r = Some x \<longrightarrow> x \<noteq> None)"])
  show "sends (f a) (\<lambda>r d. if err a = None then seqs (\<lambda>e. e) ds r d else d = [] \<and> (\<forall>x. r = Some x \<longrightarrow> x \<noteq> None))" for a
  proof (cases "err a")
    case None
    then show ?thesis using f by simp
  next
    case (Some x)
    then obtain y where "f a = return_p (Some y)" using e by blast
    then show ?thesis using Some by (auto intro!: sends_return)
  qed
qed (auto simp: seqs_def split: if_splits)

lemma sends_try:
  assumes "sends m (seqs snd cs)" "sends f (seqs (\<lambda>e. e) ds)"
  shows "sends (try_p m f) (seqs (\<lambda>e. e) (cs @ ds))"
  unfolding try_p_def by (rule sends_check [OF assms(1)]) (use assms(2) in \<open>auto split: option.splits\<close>)

text \<open>The keys of an interrupt: at most \<open>n\<close> of them, and at least one when the prompt was reached.\<close>

lemma sends_interrupt_loop:
  "sends (interrupt_loop ob k e n)
     (\<lambda>r d. \<exists>j \<le> n. d = replicate j (interruptKB ob) \<and> (r = Some None \<longrightarrow> 0 < j))"
proof (induction n)
  case 0
  show ?case by (simp add: sends_return)
next
  case (Suc n)
  let ?kb = "interruptKB ob"
  show ?case unfolding interrupt_loop.simps(2)
  proof (rule sends_bind [OF sends_Write, where B = "\<lambda>we r d.
      if we = None then \<exists>j \<le> n. d = replicate j ?kb else d = [] \<and> (\<forall>x. r = Some x \<longrightarrow> x \<noteq> None)"], goal_cases)
    case (1 we)
    have n: "sends (interrupt_loop ob k e n) (\<lambda>r d. \<exists>j \<le> n. d = replicate j ?kb)"
      by (rule sends_weaken [OF Suc.IH]) auto
    show ?case
    proof (cases we)
      case None
      show ?thesis unfolding None
        by (auto intro!: silent_bind_first silent_modify sends_return exI [of _ 0] n
            split: prod.splits option.splits)
    next
      case (Some x)
      then show ?thesis by (auto intro!: sends_return)
    qed
  next
    case (2 d)
    then consider "d = []" | "d = [?kb]" by (auto simp: prefix_Cons)
    then show ?case
    proof cases
      case 1
      then show ?thesis by (intro exI [of _ 0]) simp
    next
      case 2
      then show ?thesis by (intro exI [of _ 1]) simp
    qed
  next
    case (3 we r d1 d2)
    show ?case
    proof (cases we)
      case None
      with 3 obtain j where "j \<le> n" "d2 = replicate j ?kb" "d1 = [?kb]" by auto
      then show ?thesis by (intro exI [of _ "Suc j"]) simp
    next
      case (Some x)
      with 3 consider "d1 = []" "d2 = []" | "d1 = [?kb]" "d2 = []" by (auto simp: prefix_Cons)
      then show ?thesis
      proof cases
        case 1
        with 3 Some show ?thesis by (intro exI [of _ 0]) auto
      next
        case 2
        then show ?thesis by (intro exI [of _ 1]) simp
      qed
    qed
  qed
qed

lemma sends_InterruptBoot:
  assumes "\<And>cyc. pw = Some cyc \<Longrightarrow> silent (cyc 0)"
  shows "sends (InterruptBoot ob pw k pc e)
     (\<lambda>r d. \<exists>j \<le> 8. d = replicate j (interruptKB ob) \<and> (r = Some None \<longrightarrow> 0 < j \<and> (pc \<longrightarrow> pw \<noteq> None)))"
  unfolding InterruptBoot_def
proof (rule sends_bind [where A = "\<lambda>r d. d = [] \<and> (r = Some None \<longrightarrow> pc \<longrightarrow> pw \<noteq> None)" and
      B = "\<lambda>pe r d. \<exists>j \<le> 8. d = replicate j (interruptKB ob) \<and> (r = Some None \<longrightarrow> pe = None \<and> 0 < j)"], goal_cases)
  case 1
  show ?case using assms
    by (auto intro!: sends_return silent_bind_first silent_modify split: option.splits)
next
  case (2 pe)
  have L: "sends (interrupt_loop ob k e 8)
      (\<lambda>r d. \<exists>j \<le> 8. d = replicate j (interruptKB ob) \<and> (r = Some None \<longrightarrow> 0 < j))"
    by (rule sends_interrupt_loop)
  show ?case
    by (cases pe) (auto intro!: silent_bind_first silent_modify sends_return exI [of _ 0] L split: option.splits)
qed auto

text \<open>The commands of a network boot, in order.\<close>

definition netboot_cmds :: "orch \<Rightarrow> netboot_params \<Rightarrow> bytes list" where
  "netboot_cmds ob p =
     map (\<lambda>c. c @ [CR])
       ([''setenv ethact '' @ EthAct (ucfg ob), ''dhcp'',
         ''setenv serverip '' @ (if nServerIP p = [] then ServerIP (ucfg ob) else nServerIP p),
         ''setenv loadaddr '' @ LoadAddr (ucfg ob), ''tftpboot $loadaddr $serverip:/'' @ Image p] @
        (if VerifyCRC32 p then [crc_cmd ob p] else []) @ [boot_cmd ob p])"

lemma sends_boot_tail:
  assumes "b \<noteq> []"
  shows "sends (bind_p (sendAndExpect k b r e st) (\<lambda>(a, ok, err).
           case err of
             Some x \<Rightarrow> return_p (Some (Wrap ''uboot: booting kernel'' x))
           | None \<Rightarrow>
               if \<not> ok then return_p (Some (Err ''uboot: kernel banner not seen after bootoctlinux''))
               else bind_p (modify_p (emit_stage e ''boot'' ''kernel is booting'')) (\<lambda>_. return_p None)))
      (seqs (\<lambda>e. e) [b])"
  by (rule sends_bind [OF sends_sendAndExpect [OF assms],
        where B = "\<lambda>(a, ok, err) r d. d = [] \<and> (r = Some None \<longrightarrow> err = None)"])
    (auto simp: seqs_def intro!: sends_return silent_bind_first silent_modify split: option.splits)

lemma silent_emit: "silent (modify_p (emit_stage e a b))"
  by (rule silent_modify) simp

lemma sends_crc_step:
  "sends (if V then bind_p (modify_p (emit_stage e ''verify'' m)) (\<lambda>_. runChecked ob k e st c ms) else return_p ([], None))
     (seqs snd (if V then [c @ [CR]] else []))"
proof (cases V)
  case True
  show ?thesis unfolding if_P [OF True] by (rule silent_then [OF silent_emit sends_runChecked])
next
  case False
  show ?thesis using False by (simp add: sends_return seqs_def)
qed

lemmas netboot_step = sends_try [OF sends_runChecked] sends_try [OF sends_crc_step] silent_then [OF silent_emit]

lemma sends_Netboot:
  assumes pw: "\<And>cyc. pw = Some cyc \<Longrightarrow> silent (cyc 0)"
  shows "sends (Netboot ob pw k p e)
     (\<lambda>r d. \<exists>j \<le> 8. (\<not> PowerCycle p \<longrightarrow> j = 0) \<and> prefix d (replicate j (interruptKB ob) @ netboot_cmds ob p) \<and>
        (r = Some None \<longrightarrow> d = replicate j (interruptKB ob) @ netboot_cmds ob p \<and> (PowerCycle p \<longrightarrow> 0 < j)))"
    (is "sends _ ?C")
proof -
  let ?cmds = "netboot_cmds ob p" and ?kb = "interruptKB ob"
  let ?sip = "if nServerIP p = [] then ServerIP (ucfg ob) else nServerIP p"
  have cmds: "?cmds = [(''setenv ethact '' @ EthAct (ucfg ob)) @ [CR]] @ ([''dhcp'' @ [CR]] @
      ([(''setenv serverip '' @ ?sip) @ [CR]] @ ([(''setenv loadaddr '' @ LoadAddr (ucfg ob)) @ [CR]] @
      ([(''tftpboot $loadaddr $serverip:/'' @ Image p) @ [CR]] @
      ((if VerifyCRC32 p then [crc_cmd ob p @ [CR]] else []) @ [boot_cmd ob p @ [CR]])))))"
    by (simp add: netboot_cmds_def)
  have err: "sends (return_p (Some x)) ?C" for x
    by (intro sends_return exI [of _ 0]) simp
  show ?thesis
  proof (cases "Image p = []")
    case True
    show ?thesis unfolding Netboot_def if_P [OF True] by (rule err)
  next
    case img: False
    show ?thesis
    proof (cases "?sip = []")
      case True
      show ?thesis unfolding Netboot_def Let_def if_not_P [OF img] if_P [OF True] by (rule err)
    next
    case False
    show ?thesis unfolding Netboot_def Let_def if_not_P [OF img] if_not_P [OF False]
    proof (rule silent_bind_first, goal_cases)
      case 1
      show ?case by (rule silent_modify) simp
    next
      case (2 u)
      show ?case
      proof (rule sends_bind [where A = "\<lambda>r d. \<exists>j \<le> 8. (\<not> PowerCycle p \<longrightarrow> j = 0) \<and> d = replicate j ?kb \<and>
            (r = Some None \<longrightarrow> PowerCycle p \<longrightarrow> 0 < j)"
            and B = "\<lambda>ie r d. if ie = None then seqs (\<lambda>e. e) ?cmds r d else d = [] \<and> r \<noteq> Some None"], goal_cases)
        case 1
        have "sends (InterruptBoot ob pw (if 0 < nTimeout p then k + 1 else k) True e)
            (\<lambda>r d. \<exists>j \<le> 8. d = replicate j ?kb \<and> (r = Some None \<longrightarrow> 0 < j))"
          by (rule sends_weaken, rule sends_InterruptBoot, erule pw) auto
        then show ?case by (auto intro!: sends_return)
      next
        case (2 ie)
        show ?case
        proof (cases ie)
          case None
          show ?thesis unfolding None cmds option.case if_True simp_thms
            by (rule netboot_step sends_boot_tail | simp)+
        next
          case (Some x)
          then show ?thesis by (auto intro!: sends_return)
        qed
      qed (auto simp: seqs_def split: if_splits)
    qed (auto intro!: exI [of _ 0])
    qed
  qed
qed


subsection \<open>A board that answers\<close>

text \<open>The console is open and its queues hold at least one chunk, no context up to level \<open>k\<close> has
  ended and the transport accepts writes.\<close>

definition ready :: "uworld \<Rightarrow> nat \<Rightarrow> bool" where
  "ready w k \<longleftrightarrow> stream_ok (hist w) \<and> \<not> con_closed (conw w) \<and> 0 < subChanCap (conw w) \<and>
     (\<forall>j \<le> k. look (ctxs w) j = Some None) \<and> txres w = []"

lemma ready_ctx: "ready w k \<Longrightarrow> ctx_err w k = None"
  by (simp add: ready_def ctx_err_def)

lemma ready_down: "ready w k \<Longrightarrow> j \<le> k \<Longrightarrow> ready w j"
  by (simp add: ready_def)

lemma ready_con_do: "ready w k \<Longrightarrow> (\<forall>x. e \<noteq> OClose x) \<Longrightarrow> ready (con_do e w) k"
proof -
  assume r: "ready w k" and e: "\<forall>x. e \<noteq> OClose x"
  have "con_closed (cons (con_step (hist w) e)) = con_closed (conw w)"
    "subChanCap (cons (con_step (hist w) e)) = subChanCap (conw w)"
    using e by (cases e; auto simp: publish_def Subscribe_def sub_Close_def sub_recv_def con_Reset_def
      Let_def split: option.splits list.splits)+
  with r stream_ok_step [of "hist w" e] show ?thesis by (simp add: ready_def con_do_def)
qed

lemma ready_emit [simp]:
  "ready (emit_info b s m w) k = ready w k" "ready (emit_stage b s m w) k = ready w k"
  "ready (emit_console b s p w) k = ready w k"
  by (simp_all add: ready_def emit_info_def emit_stage_def emit_console_def)

lemma ready_with_timeout: "ready w k \<Longrightarrow> 0 < d \<Longrightarrow> ready (with_timeout k d w) (k + 1)"
proof -
  assume r: "ready w k" and d: "0 < d"
  have "k < length (ctxs w)" using r by (auto simp: ready_def dest!: spec [of _ k] look_less)
  with r d show ?thesis
    by (auto simp: ready_def with_timeout_def ctx_err_def look_def nth_append min_def le_Suc_eq)
qed

text \<open>The script of one exchange: subscribe, write, the board's answer, receive, unsubscribe.\<close>

definition answer :: "bytes \<Rightarrow> ev list" where
  "answer out = [Go False, Go False, Con (OPublish out), Go False, Go False]"

lemma sendAndExpect_answer:
  assumes r: "ready w k" and c: "c \<noteq> []" and m: "re_match r out"
  shows "\<exists>w'. sendAndExpect k c r e st (answer out @ es) w = (Some (out, True, None), es, w') \<and>
    ready w' k \<and> sent w' = sent w @ [c]"
proof -
  let ?i = "nextID (conw w)"
  define w1 where "w1 = con_do (OSubscribe 0) w"
  define w2 where "w2 = w1\<lparr>sent := sent w1 @ [c], txres := []\<rparr>"
  define w3 where "w3 = con_do (OPublish out) w2"
  define w4 where "w4 = emit_console e st out (con_do (ORecv ?i) w3)"
  have ok: "console_ok (conw w)" and open0: "\<not> con_closed (conw w)" and cap: "0 < subChanCap (conw w)"
    using r by (auto simp: ready_def stream_ok_def)
  have r1: "ready w1 k" unfolding w1_def by (rule ready_con_do [OF r]) simp
  then have r2: "ready w2 k" by (simp add: w2_def ready_def)
  then have r3: "ready w3 k" unfolding w3_def by (rule ready_con_do) simp
  then have r4: "ready w4 k" unfolding w4_def by (simp add: ready_con_do)
  have len: "length (heap (conw w)) = ?i" using ok by (simp add: console_ok_def)
  have "look (heap (conw w3)) ?i = Some (offer out (new_subscriber 0 (conw w)))"
    using open0 len
    by (simp add: w3_def w2_def w1_def con_do_def publish_def Subscribe_def Let_def look_snoc)
  then have recv: "fst (sub_recv ?i (conw w3)) = Chunk out"
    using cap by (simp add: sub_recv_def queue_offer new_subscriber_def chan_full_def)
  have wr: "p_Write c (Go b # es') w1 = (Some None, es', w2)" for b es'
    using r1 by (simp add: p_Write_def a_Write_def con_Write_def Let_def w2_def ready_def)
  have x: "expect r k ?i e st [] (Con (OPublish out) # Go False # es') w2 = (Some (out, True, None), es', w4)" for es'
    using recv m ready_ctx [OF r3] by (simp add: w4_def w3_def Let_def)
  have "sendAndExpect k c r e st (answer out @ es) w =
      (Some (out, True, None), es, con_do (OUnsubscribe ?i) w4)"
    using c wr x by (simp add: sendAndExpect_def answer_def bind_p_def return_p_def w1_def)
  moreover have "ready (con_do (OUnsubscribe ?i) w4) k" by (rule ready_con_do [OF r4]) simp
  moreover have "sent (con_do (OUnsubscribe ?i) w4) = sent w @ [c]"
    by (simp add: w4_def w3_def w2_def w1_def)
  ultimately show ?thesis by blast
qed

lemma RunCommand_answer:
  assumes "ready w k" "re_match (promptRE ob) out"
  shows "\<exists>w'. RunCommand ob k c (answer out @ es) w = (Some (cleanCommandOutput out c, None), es, w') \<and>
    ready w' k \<and> sent w' = sent w @ [c @ [CR]]"
proof -
  let ?t = "CommandTimeout (ucfg ob)"
  let ?k = "if 0 < ?t then k + 1 else k" and ?w = "if 0 < ?t then with_timeout k ?t w else w"
  have "ready ?w ?k" by (cases "0 < ?t") (use ready_with_timeout [OF assms(1)] assms(1) in auto)
  then obtain w' where w': "sendAndExpect ?k (c @ [CR]) (promptRE ob) False ''cmd'' (answer out @ es) ?w =
      (Some (out, True, None), es, w')" "ready w' ?k" "sent w' = sent ?w @ [c @ [CR]]"
    using sendAndExpect_answer [OF \<open>ready ?w ?k\<close> _ assms(2), of "c @ [CR]" False "''cmd''" es] by blast
  have "ready w' k" by (rule ready_down [OF w'(2)]) simp
  moreover have "RunCommand ob k c (answer out @ es) w = (Some (cleanCommandOutput out c, None), es, w')"
    using w'(1) by (auto simp: RunCommand_def bind_p_def modify_p_def return_p_def Let_def)
  moreover have "sent ?w = sent w" by simp
  ultimately show ?thesis using w'(3) by metis
qed

text \<open>What the board has to answer to a command for it to succeed.\<close>

definition good_answer :: "orch \<Rightarrow> string \<Rightarrow> string list \<Rightarrow> bytes \<Rightarrow> bool" where
  "good_answer ob c ms out \<longleftrightarrow>
     re_match (promptRE ob) out \<and> first_marker (to_lower (cleanCommandOutput out c)) ms = None"

lemma runChecked_answer:
  assumes "ready w k" "good_answer ob c ms out"
  shows "\<exists>w'. runChecked ob k e st c ms (answer out @ es) w = (Some (cleanCommandOutput out c, None), es, w') \<and>
    ready w' k \<and> sent w' = sent w @ [c @ [CR]]"
proof -
  let ?w = "emit_info e st (''uboot> '' @ c) w"
  have "ready ?w k" using assms(1) by simp
  then obtain w' where w': "RunCommand ob k c (answer out @ es) ?w = (Some (cleanCommandOutput out c, None), es, w')"
    "ready w' k" "sent w' = sent ?w @ [c @ [CR]]"
    using RunCommand_answer [of ?w k ob out c es] assms(2) by (auto simp: good_answer_def)
  have "runChecked ob k e st c ms (answer out @ es) w =
      (Some (cleanCommandOutput out c, None), es, emit_console e st (cleanCommandOutput out c) w')"
    using w'(1) assms(2) by (simp add: runChecked_def bind_p_def modify_p_def return_p_def good_answer_def)
  with w'(2,3) show ?thesis by auto
qed

text \<open>A step that succeeds on the script \<open>s\<close>, sending \<open>cs\<close>.\<close>

definition succeeds :: "('a, uevent) proc \<Rightarrow> ('a \<Rightarrow> goerr option) \<Rightarrow> nat \<Rightarrow> ev list \<Rightarrow> bytes list \<Rightarrow> bool" where
  "succeeds m err k s cs \<longleftrightarrow> (\<forall>es w. ready w k \<longrightarrow>
     (\<exists>a w'. m (s @ es) w = (Some a, es, w') \<and> err a = None \<and> ready w' k \<and> sent w' = sent w @ cs))"

lemma succeeds_runChecked: "good_answer ob c ms out \<Longrightarrow> succeeds (runChecked ob k e st c ms) snd k (answer out) [c @ [CR]]"
  unfolding succeeds_def using runChecked_answer by fastforce

lemma succeeds_try:
  assumes "succeeds m snd k s cs" "succeeds f (\<lambda>e. e) k t ds"
  shows "succeeds (try_p m f) (\<lambda>e. e) k (s @ t) (cs @ ds)"
  unfolding succeeds_def
proof (intro allI impI)
  fix es w assume "ready w k"
  with assms(1) obtain a w1 where m: "m (s @ t @ es) w = (Some a, t @ es, w1)" "snd a = None" "ready w1 k"
    "sent w1 = sent w @ cs" unfolding succeeds_def by blast
  with assms(2) obtain x w2 where "f (t @ es) w1 = (Some x, es, w2)" "x = None" "ready w2 k" "sent w2 = sent w1 @ ds"
    unfolding succeeds_def by blast
  with m show "\<exists>a w'. try_p m f ((s @ t) @ es) w = (Some a, es, w') \<and> a = None \<and> ready w' k \<and> sent w' = sent w @ cs @ ds"
    by (cases a) (simp add: try_p_def bind_p_def)
qed

lemma succeeds_silent:
  assumes "\<And>w. ready w k \<Longrightarrow> ready (g w) l \<and> sent (g w) = sent w" "\<And>u. succeeds (f u) err l s cs"
    "\<And>w. ready w l \<Longrightarrow> ready w k"
  shows "succeeds (bind_p (modify_p g) f) err k s cs"
  unfolding succeeds_def
proof (intro allI impI)
  fix es w assume r: "ready w k"
  then have "ready (g w) l" "sent (g w) = sent w" using assms(1) by auto
  then obtain a w' where "f () (s @ es) (g w) = (Some a, es, w')" "err a = None" "ready w' l" "sent w' = sent w @ cs"
    using assms(2) [of "()"] unfolding succeeds_def by fastforce
  with assms(3) show "\<exists>a w'. bind_p (modify_p g) f (s @ es) w = (Some a, es, w') \<and> err a = None \<and> ready w' k \<and> sent w' = sent w @ cs"
    by (simp add: bind_p_def modify_p_def)
qed

lemma succeeds_stage:
  "(\<And>u. succeeds (f u) err k s cs) \<Longrightarrow> succeeds (bind_p (modify_p (emit_stage e a b)) f) err k s cs"
  by (rule succeeds_silent) auto

lemma succeeds_return: "err a = None \<Longrightarrow> succeeds (return_p a) err k [] []"
  by (simp add: succeeds_def return_p_def)

lemma succeeds_crc_step:
  assumes "V \<longrightarrow> good_answer ob c ms out"
  shows "succeeds (if V then bind_p (modify_p (emit_stage e ''verify'' m)) (\<lambda>_. runChecked ob k e st c ms) else return_p ([], None))
     snd k (if V then answer out else []) (if V then [c @ [CR]] else [])"
proof (cases V)
  case True
  with assms show ?thesis by (auto intro!: succeeds_stage succeeds_runChecked)
next
  case False
  then show ?thesis by (simp add: succeeds_return)
qed

lemma succeeds_boot_tail:
  assumes "b \<noteq> []" "re_match r out"
  shows "succeeds (bind_p (sendAndExpect k b r e st) (\<lambda>(a, ok, err).
           case err of
             Some x \<Rightarrow> return_p (Some (Wrap ''uboot: booting kernel'' x))
           | None \<Rightarrow>
               if \<not> ok then return_p (Some (Err ''uboot: kernel banner not seen after bootoctlinux''))
               else bind_p (modify_p (emit_stage e ''boot'' ''kernel is booting'')) (\<lambda>_. return_p None)))
      (\<lambda>e. e) k (answer out) [b]"
  unfolding succeeds_def
proof (intro allI impI, goal_cases)
  case (1 es w)
  from sendAndExpect_answer [OF this assms, of e st es] obtain w'
    where "sendAndExpect k b r e st (answer out @ es) w = (Some (out, True, None), es, w')" "ready w' k" "sent w' = sent w @ [b]"
    by blast
  then show ?case by (simp add: bind_p_def return_p_def modify_p_def)
qed

text \<open>The answers a network boot needs: one per command, the last one the kernel's banner.\<close>

record netboot_answers =
  a_ethact :: bytes
  a_dhcp :: bytes
  a_serverip :: bytes
  a_loadaddr :: bytes
  a_tftp :: bytes
  a_crc :: bytes
  a_boot :: bytes

definition netboot_script :: "netboot_params \<Rightarrow> netboot_answers \<Rightarrow> ev list" where
  "netboot_script p a =
     answer (a_ethact a) @ answer (a_dhcp a) @ answer (a_serverip a) @ answer (a_loadaddr a) @ answer (a_tftp a) @
     (if VerifyCRC32 p then answer (a_crc a) else []) @ answer (a_boot a)"

definition good_board :: "orch \<Rightarrow> netboot_params \<Rightarrow> netboot_answers \<Rightarrow> bool" where
  "good_board ob p a \<longleftrightarrow>
     good_answer ob (''setenv ethact '' @ EthAct (ucfg ob)) [''Unknown command''] (a_ethact a) \<and>
     good_answer ob ''dhcp'' [''TIMEOUT'', ''not set'', ''failed''] (a_dhcp a) \<and>
     good_answer ob (''setenv serverip '' @ (if nServerIP p = [] then ServerIP (ucfg ob) else nServerIP p)) [] (a_serverip a) \<and>
     good_answer ob (''setenv loadaddr '' @ LoadAddr (ucfg ob)) [] (a_loadaddr a) \<and>
     good_answer ob (''tftpboot $loadaddr $serverip:/'' @ Image p)
       [''TFTP error'', ''Retry count exceeded'', ''not set'', ''abort''] (a_tftp a) \<and>
     (VerifyCRC32 p \<longrightarrow> good_answer ob (crc_cmd ob p) [''bad'', ''!='', ''error''] (a_crc a)) \<and>
     re_match (bannerRE ob) (a_boot a)"

lemmas netboot_ok_step = succeeds_try [OF succeeds_runChecked] succeeds_try [OF succeeds_crc_step] succeeds_stage

lemma succeeds_Netboot:
  assumes "Image p \<noteq> []" "nServerIP p \<noteq> [] \<or> ServerIP (ucfg ob) \<noteq> []" "\<not> PowerCycle p" "good_board ob p a"
  shows "succeeds (Netboot ob pw k p e) (\<lambda>e. e) k (netboot_script p a) (netboot_cmds ob p)"
proof -
  let ?sip = "if nServerIP p = [] then ServerIP (ucfg ob) else nServerIP p"
  let ?k = "if 0 < nTimeout p then k + 1 else k"
  have sip: "?sip \<noteq> []" using assms(2) by auto
  have cmds: "netboot_cmds ob p = [(''setenv ethact '' @ EthAct (ucfg ob)) @ [CR]] @ ([''dhcp'' @ [CR]] @
      ([(''setenv serverip '' @ ?sip) @ [CR]] @ ([(''setenv loadaddr '' @ LoadAddr (ucfg ob)) @ [CR]] @
      ([(''tftpboot $loadaddr $serverip:/'' @ Image p) @ [CR]] @
      ((if VerifyCRC32 p then [crc_cmd ob p @ [CR]] else []) @ [boot_cmd ob p @ [CR]])))))"
    by (simp add: netboot_cmds_def)
  note g = assms(4) [unfolded good_board_def]
  show ?thesis unfolding Netboot_def Let_def if_not_P [OF assms(1)] if_not_P [OF sip] if_not_P [OF assms(3)] netboot_script_def
  proof (rule succeeds_silent [where l = ?k], goal_cases)
    case (1 w)
    then show ?case by (cases "0 < nTimeout p") (use ready_with_timeout [OF 1] 1 in auto)
  next
    case (2 u)
    have b: "bind_p (return_p None) f = f None" for f :: "goerr option \<Rightarrow> (goerr option, uevent) proc"
      by (rule ext)+ (simp add: bind_p_def return_p_def)
    show ?case unfolding b option.case cmds
      by (rule netboot_ok_step succeeds_boot_tail | use g in simp)+
  next
    case (3 w)
    then show ?case by (rule ready_down) auto
  qed
qed


subsection \<open>The default patterns\<close>

text \<open>The trees of the default pattern texts. The autoboot line and the kernel banner are plain
  alternatives of literals, so the incremental scanner's contract holds of them; the prompt
  pattern ends in \<open>$\<close> and does not have that property, which is why it is matched on a whole
  accumulated answer or with a lookback.\<close>

definition prompt_re :: re where
  "prompt_re = RSeq (re_lit ''=>'') (RSeq (ROpt (RChar (CHR '' ''))) REnd)"

definition interrupt_re :: re where
  "interrupt_re = re_lit default_interrupt"

definition banner_re :: re where
  "banner_re = re_alts (map re_lit [''Linux version'', ''Loading big-endian Linux kernel'', ''Starting cores''])"

interpretation autoboot: matcher "re_find interrupt_re" "re_hit interrupt_re" 26
  by (rule re_matcher) (simp_all add: interrupt_re_def default_interrupt_def)

interpretation banner: matcher "re_find banner_re" "re_hit banner_re" 31
  by (rule re_matcher) (simp_all add: banner_re_def)

definition default_compile :: "string \<Rightarrow> goerr + re" where
  "default_compile t =
     (if t = default_prompt then Inr prompt_re else if t = default_interrupt then Inr interrupt_re
      else if t = default_banner then Inr banner_re else Inl (Err t))"

definition uconfig0 :: uconfig where
  "uconfig0 = \<lparr>PromptPattern = [], InterruptPattern = [], InterruptKey = [], EthAct = [], LoadAddr = [],
     CoreMask = [], ServerIP = [], CommandTimeout = 0, KernelBanner = []\<rparr>"

definition orch0 :: orch where
  "orch0 = \<lparr>ucfg = withDefaults uconfig0, promptRE = prompt_re, interruptRE = interrupt_re,
     bannerRE = banner_re, interruptKB = [byte 24]\<rparr>"

lemma New_default: "New default_compile uconfig0 = Inr orch0"
  by code_simp

lemma bind_p_Some:
  "bind_p m f es w = (Some b, es', w') \<Longrightarrow>
   \<exists>a es1 w1. m es w = (Some a, es1, w1) \<and> f a es1 w1 = (Some b, es', w')"
  by (auto simp: bind_p_def split: prod.splits option.splits)

lemma sendAndExpect_result:
  assumes "sendAndExpect k c r e st es w = (Some (a, ok, None), es', w')"
  shows "ok \<and> re_match r a"
proof -
  from assms obtain i we es1 w1 es2 w2 where
    "(case we of Some x \<Rightarrow> return_p ([], False, Some (Wrap ''uboot: write'' x)) | None \<Rightarrow> expect r k i e st [])
       es1 w1 = (Some (a, ok, None), es2, w2)"
    unfolding sendAndExpect_def by (fastforce dest!: bind_p_Some simp: return_p_def)
  then show ?thesis using expect_result [of r k i e st "[]" es1 w1]
    by (cases we) (auto simp: return_p_def)
qed

lemma RunCommand_result:
  assumes "RunCommand ob k c es w = (Some (out, None), es', w')"
  shows "\<exists>acc. re_match (promptRE ob) acc \<and> out = cleanCommandOutput acc c"
proof -
  from assms obtain k' a ok err es1 w1 es2 w2 where
    s: "sendAndExpect k' (c @ [CR]) (promptRE ob) False ''cmd'' es1 w1 = (Some (a, ok, err), es2, w2)"
    and r: "out = cleanCommandOutput a c" "err = None"
    unfolding RunCommand_def Let_def
    by (fastforce dest!: bind_p_Some simp: return_p_def split: option.splits if_splits)
  from sendAndExpect_result s r show ?thesis by blast
qed

lemma first_marker_None: "first_marker low ms = None \<longleftrightarrow> (\<forall>m \<in> set ms. \<not> contains_str low (to_lower m))"
  by (induction ms) auto

lemma ready_world0: "0 < cap \<Longrightarrow> ready (world0 cap n) 0"
proof -
  assume "0 < cap"
  then have "\<not> con_closed (conw (world0 cap n :: uworld))" "0 < subChanCap (conw (world0 cap n :: uworld))"
    "\<forall>j \<le> 0. look (ctxs (world0 cap n :: uworld)) j = Some None" "txres (world0 cap n :: uworld) = []"
    by (auto simp: world0_def con_start_def new_console_def look_def)
  then show "ready (world0 cap n) 0" unfolding ready_def using stream_ok_world0 by blast
qed

lemma sent_world0 [simp]: "sent (world0 cap n) = []"
  by (simp add: world0_def)

lemma ready0: "ready (world0 8 64 :: uworld) 0"
  by (simp add: ready_world0)

subsection \<open>Properties\<close>

text \<open>A line that \<open>cleanCommandOutput\<close> keeps at the end of an answer.\<close>

definition keeps :: "string \<Rightarrow> bool" where
  "keeps l \<longleftrightarrow> trim_right l [CR, CHR '' '', TAB] \<notin> {[], ''=>''}"

lemma drop_prompts_keep: "keeps l \<Longrightarrow> drop_prompts (l # ls) = l # ls"
  by (simp add: keeps_def Let_def)

lemma drop_prompts_prompt: "drop_prompts (''=> '' # ls) = drop_prompts ls"
  by (simp add: trim_right_def)

lemma drop_prompts_suffix: "suffix (drop_prompts ls) ls"
  by (induction ls rule: drop_prompts.induct) (auto simp: Let_def suffix_ConsI)

lemma drop_prompts_stop: "drop_prompts ls = [] \<or> keeps (hd (drop_prompts ls))"
  by (induction ls rule: drop_prompts.induct) (auto simp: Let_def keeps_def)

lemma cleanCommandOutput_facts:
  "\<lbrakk>\<forall>l \<in> set ls. LF \<notin> set l; ls \<noteq> []; hd ls \<noteq> []; hd (hd ls) \<noteq> CR; keeps (last ls)\<rbrakk> \<Longrightarrow>
     cleanCommandOutput (c @ [CR, LF] @ join_str (ls @ [''=> '']) [LF]) c = join_str ls [LF]"
  "\<exists>ls. cleanCommandOutput raw c = join_str ls [LF] \<and> (ls = [] \<or> keeps (last ls))"
proof -
  assume lf: "\<forall>l \<in> set ls. LF \<notin> set l" and ls: "ls \<noteq> []" "hd ls \<noteq> []" "hd (hd ls) \<noteq> CR" and k: "keeps (last ls)"
  let ?t = "join_str (ls @ [''=> '']) [LF]"
  obtain x xs where hd: "hd ls = x # xs" using ls(2) by (cases "hd ls") auto
  moreover have "LF \<notin> set (hd ls)" using lf ls(1) by simp
  ultimately have x: "x \<noteq> CR" "x \<noteq> LF" using ls(3) by auto
  have "?t = hd ls @ [LF] @ join_str (tl ls @ [''=> '']) [LF]"
    using ls(1) by (cases ls) (auto simp: join_str_Cons)
  then have trim: "trim_left ([CR, LF] @ ?t) [CR, LF] = ?t"
    using x hd by (simp add: trim_left_def)
  have split: "split_char ?t LF = ls @ [''=> '']" by (rule split_join) (use lf in auto)
  have "drop_prompts (rev ls) = rev ls"
    using drop_prompts_keep [OF k, of "rev (butlast ls)"] ls(1) by (metis append_butlast_last_id rev_eq_Cons_iff rev_rev_ident)
  then show "cleanCommandOutput (c @ [CR, LF] @ ?t) c = join_str ls [LF]"
    using trim split by (simp add: cleanCommandOutput_def index_str_prefix drop_prompts_prompt Let_def del: drop_prompts.simps)
next
  let ?s = "trim_left (case index_str raw c of None \<Rightarrow> raw | Some i \<Rightarrow> drop (i + length c) raw) [CR, LF]"
  let ?ls = "rev (drop_prompts (rev (split_char ?s LF)))"
  have "?ls = [] \<or> keeps (last ?ls)" using drop_prompts_stop [of "rev (split_char ?s LF)"] by (simp add: last_rev)
  then show "\<exists>ls. cleanCommandOutput raw c = join_str ls [LF] \<and> (ls = [] \<or> keeps (last ls))"
    unfolding cleanCommandOutput_def Let_def by blast
qed

text \<open>C13: The captured output of a command is what the board printed between the echo of the
  command and the next prompt: with the echo, a line end, the lines of the response and the
  prompt captured, \<open>cleanCommandOutput\<close> returns exactly the response, when its first line does not start
  with a line end (those are stripped) and its last line is not blank and not itself a prompt.
  Whatever was captured, the last line of the result is neither blank nor a prompt.\<close>

theorem cleanCommandOutput_response:
  "((\<forall>l \<in> set ls. LF \<notin> set l) \<and> ls \<noteq> [] \<and> hd ls \<noteq> [] \<and> hd (hd ls) \<noteq> CR \<and> keeps (last ls) \<longrightarrow>
     cleanCommandOutput (c @ [CR, LF] @ join_str (ls @ [''=> '']) [LF]) c = join_str ls [LF]) \<and>
   (\<exists>rs. cleanCommandOutput raw c = join_str rs [LF] \<and> (rs = [] \<or> keeps (last rs)))"
  using cleanCommandOutput_facts by blast

theorem cleanCommandOutput_response_witness:
  "cleanCommandOutput (''dhcp'' @ [CR, LF] @ ''BOOTP 1'' @ [CR, LF] @ ''DHCP bound'' @ [LF] @ ''=> '') ''dhcp'' =
     ''BOOTP 1'' @ [CR, LF] @ ''DHCP bound'' \<and>
   (\<exists>ls. cleanCommandOutput ''dhcp'' ''dhcp'' = join_str ls [LF])"
proof -
  let ?ls = "[''BOOTP 1'' @ [CR], ''DHCP bound'']"
  have "\<forall>l \<in> set ?ls. LF \<notin> set l" "?ls \<noteq> []" "hd ?ls \<noteq> []" "hd (hd ?ls) \<noteq> CR" "keeps (last ?ls)"
    by (simp_all add: keeps_def trim_right_def)
  then show ?thesis using cleanCommandOutput_response [of ?ls "''dhcp''" "''dhcp''"] by auto
qed



text \<open>C15: What a network boot puts on the wire, for every run, interleaving and outcome, with
  any power controller that does not itself write to the console: first at most eight
  interrupt keys, and none unless a power cycle was asked for, then a
  prefix of the command list, in order and each command once. When it reports success, all
  of the commands were sent, and after a power cycle at least one interrupt key. So the image is
  never booted unless every command before it, the CRC check included when asked for, was accepted.\<close>

theorem netboot_wire:
  assumes "\<And>cyc. pw = Some cyc \<Longrightarrow> silent (cyc 0)" "Netboot ob pw k p e es w = (r, es', w')"
  shows "\<exists>d j. sent w' = sent w @ d \<and> j \<le> 8 \<and> (\<not> PowerCycle p \<longrightarrow> j = 0) \<and>
    prefix d (replicate j (interruptKB ob) @ netboot_cmds ob p) \<and>
    (r = Some None \<longrightarrow> d = replicate j (interruptKB ob) @ netboot_cmds ob p \<and> (PowerCycle p \<longrightarrow> 0 < j))"
  using sends_D [OF sends_Netboot assms(2), of] assms(1) by blast

text \<open>A board that answers the five commands of a plain network boot.\<close>

definition params0 :: netboot_params where
  "params0 = \<lparr>Image = ''k.elf'', PowerCycle = False, nServerIP = ''10.0.0.1'', KernelArgs = '' quiet '',
     VerifyCRC32 = True, ImageLen = 16, ImageCRC32 = 255, nTimeout = 0\<rparr>"

definition board0 :: netboot_answers where
  "board0 = \<lparr>a_ethact = ''=> '', a_dhcp = ''bound => '', a_serverip = ''=>'', a_loadaddr = ''=> '',
     a_tftp = ''done => '', a_crc = ''ok => '', a_boot = ''Linux version 6''\<rparr>"

lemma good_board0: "good_board orch0 params0 board0"
  unfolding good_board_def by (intro conjI impI) code_simp+

text \<open>C16: A network boot gets done. On a board that answers each command with the prompt and
  without an error marker and prints the kernel's banner after the boot command, with the
  console open, the context alive and the transport accepting writes, \<open>Netboot\<close> without a power cycle
  returns, without an error, having sent exactly the commands of the recipe.\<close>

theorem netboot_succeeds:
  assumes "Image p \<noteq> []" "nServerIP p \<noteq> [] \<or> ServerIP (ucfg ob) \<noteq> []" "\<not> PowerCycle p"
    "good_board ob p a" "ready w k"
  shows "\<exists>w'. Netboot ob pw k p e (netboot_script p a) w = (Some None, [], w') \<and> sent w' = sent w @ netboot_cmds ob p"
proof -
  from succeeds_Netboot [OF assms(1-4), of pw k e] assms(5)
  obtain x w' where "Netboot ob pw k p e (netboot_script p a @ []) w = (Some x, [], w')" "x = None"
    "sent w' = sent w @ netboot_cmds ob p"
    unfolding succeeds_def by blast
  then show ?thesis by simp
qed

lemma params0_ok: "Image params0 \<noteq> []" "nServerIP params0 \<noteq> [] \<or> ServerIP (ucfg orch0) \<noteq> []" "\<not> PowerCycle params0"
  by (simp_all add: params0_def)

lemma run0:
  "\<exists>w'. Netboot orch0 None 0 params0 True (netboot_script params0 board0) (world0 8 64) = (Some None, [], w')"
proof -
  from succeeds_Netboot [OF params0_ok good_board0, of None 0 True] ready0 show ?thesis
    unfolding succeeds_def by (metis append_Nil2)
qed

theorem netboot_succeeds_witness:
  "\<exists>w'. Netboot orch0 None 0 params0 True (netboot_script params0 board0) (world0 8 64) = (Some None, [], w') \<and>
     sent w' = map (\<lambda>c. c @ [CR]) [''setenv ethact octmgmt0'', ''dhcp'', ''setenv serverip 10.0.0.1'',
       ''setenv loadaddr 0x20000000'', ''tftpboot $loadaddr $serverip:/k.elf'', ''crc32 -v 0x20000000 0x10 000000ff'',
       ''bootoctlinux $loadaddr coremask=f endbootargs panic=0 quiet'']"
proof -
  have "netboot_cmds orch0 params0 = map (\<lambda>c. c @ [CR]) [''setenv ethact octmgmt0'', ''dhcp'', ''setenv serverip 10.0.0.1'',
       ''setenv loadaddr 0x20000000'', ''tftpboot $loadaddr $serverip:/k.elf'', ''crc32 -v 0x20000000 0x10 000000ff'',
       ''bootoctlinux $loadaddr coremask=f endbootargs panic=0 quiet'']"
    by code_simp
  moreover have "sent (world0 8 64 :: uworld) = []" by (simp add: world0_def)
  ultimately show ?thesis
    using netboot_succeeds [OF params0_ok good_board0 ready0, of None True] by (simp only: append_Nil)
qed

theorem netboot_wire_witness:
  "\<exists>w' d. Netboot orch0 None 0 params0 True (netboot_script params0 board0) (world0 8 64) = (Some None, [], w') \<and>
     sent w' = d \<and> d = netboot_cmds orch0 params0"
proof -
  from run0 obtain w' where r: "Netboot orch0 None 0 params0 True (netboot_script params0 board0) (world0 8 64) = (Some None, [], w')"
    by blast
  have "sent (world0 8 64 :: uworld) = []" by (simp add: world0_def)
  with netboot_wire [OF _ r] params0_ok(3) have "sent w' = netboot_cmds orch0 params0" by fastforce
  with r show ?thesis by blast
qed

end
