(* ===== verification/Image_Store.thy ===== *)
theory Image_Store
  imports Session_Lock
begin

text \<open>
  \<open>internal/tftp/imagestore.go\<close> and \<open>internal/tftp/server.go\<close>: the image directory and the
  read-only TFTP handler on top of it. The file system is a list of paths with what is there; the
  outcome of every system call that may fail is a field of \<open>os_env\<close>, together with the name
  \<open>CreateTemp\<close> picks and the clock. Each operation runs as one step. The digest of
  \<open>crypto/sha256\<close> is the field \<open>sha256\<close>; the CRC of \<open>hash/crc32\<close> is written out.
\<close>

subsection \<open>The file system\<close>

datatype node = File (file_data: bytes) (file_mtime: time) | Dir

type_synonym fs = "(string \<times> node) list"

definition fs_get :: "fs \<Rightarrow> string \<Rightarrow> node option" where
  "fs_get f p = map_of f p"

definition fs_del :: "string \<Rightarrow> fs \<Rightarrow> fs" where
  "fs_del p f = filter (\<lambda>(q, _). q \<noteq> p) f"

definition fs_put :: "string \<Rightarrow> node \<Rightarrow> fs \<Rightarrow> fs" where
  "fs_put p n f = (p, n) # fs_del p f"

definition ErrNotExist :: goerr where "ErrNotExist = Err ''file does not exist''"

text \<open>\<open>os.ReadDir\<close>: the entries of a directory, sorted by name.\<close>

definition dir_entries :: "string \<Rightarrow> fs \<Rightarrow> (string \<times> node) list" where
  "dir_entries d f =
     sort_key fst (map (\<lambda>(p, n). (path_base p, n)) (filter (\<lambda>(p, n). p = path_join [d, path_base p] \<and> path_base p \<notin> {''.'', ''..'', ''/''}) f))"

record os_env =
  mkdir_err :: "string \<Rightarrow> goerr option"
  create_temp :: "goerr + string"
  write_err :: "bytes \<Rightarrow> goerr option"
  close_err :: "goerr option"
  rename_err :: "string \<Rightarrow> string \<Rightarrow> goerr option"
  remove_err :: "string \<Rightarrow> goerr option"
  readdir_err :: "string \<Rightarrow> goerr option"
  info_err :: "string \<Rightarrow> bool"
  open_err :: "string \<Rightarrow> goerr option"
  read_err :: "string \<Rightarrow> goerr option"
  now :: time
  dir_size :: int
  sha256 :: "bytes \<Rightarrow> bytes"

definition os_remove :: "os_env \<Rightarrow> string \<Rightarrow> fs \<Rightarrow> goerr option \<times> fs" where
  "os_remove en p f =
     (case fs_get f p of
        None \<Rightarrow> (Some ErrNotExist, f)
      | Some n \<Rightarrow>
          (case remove_err en p of
             Some x \<Rightarrow> (Some x, f)
           | None \<Rightarrow> if n = Dir \<and> dir_entries p f \<noteq> [] then (Some (Err ''directory not empty''), f)
                     else (None, fs_del p f)))"

definition os_rename :: "os_env \<Rightarrow> string \<Rightarrow> string \<Rightarrow> fs \<Rightarrow> goerr option \<times> fs" where
  "os_rename en p q f =
     (case rename_err en p q of
        Some x \<Rightarrow> (Some x, f)
      | None \<Rightarrow>
          (case fs_get f p of
             None \<Rightarrow> (Some ErrNotExist, f)
           | Some n \<Rightarrow> if fs_get f q = Some Dir then (Some (Err ''is a directory''), f)
                       else (None, fs_put q n (fs_del p f))))"

definition os_open :: "os_env \<Rightarrow> string \<Rightarrow> fs \<Rightarrow> goerr + node" where
  "os_open en p f =
     (case fs_get f p of
        None \<Rightarrow> Inl ErrNotExist
      | Some n \<Rightarrow> (case open_err en p of Some x \<Rightarrow> Inl x | None \<Rightarrow> Inr n))"

definition os_read :: "os_env \<Rightarrow> string \<Rightarrow> node \<Rightarrow> goerr + bytes" where
  "os_read en p n =
     (case n of
        Dir \<Rightarrow> Inl (Err ''is a directory'')
      | File d t \<Rightarrow> (case read_err en p of Some x \<Rightarrow> Inl x | None \<Rightarrow> Inr d))"

subsection \<open>CRC-32\<close>

text \<open>\<open>hash/crc32\<close> with the IEEE polynomial, bit by bit; \<open>crc_update\<close> is \<open>crc32.Update\<close>.\<close>

unbundle bit_operations_syntax

definition crc_step :: "32 word \<Rightarrow> 32 word" where
  "crc_step c = (if c AND 1 = 1 then drop_bit 1 c XOR 0xEDB88320 else drop_bit 1 c)"

definition crc_byte :: "32 word \<Rightarrow> char \<Rightarrow> 32 word" where
  "crc_byte c b = (crc_step ^^ 8) (c XOR of_nat (ord b))"

definition crc_update :: "32 word \<Rightarrow> bytes \<Rightarrow> 32 word" where
  "crc_update c p = NOT (foldl crc_byte (NOT c) p)"

definition crc32 :: "bytes \<Rightarrow> 32 word" where
  "crc32 p = crc_update 0 p"

definition hex_encode :: "bytes \<Rightarrow> string" where
  "hex_encode b = concat (map (\<lambda>c. zero_pad 2 (to_base 16 (ord c))) b)"

subsection \<open>The store\<close>

record image_info =
  im_name :: string
  im_size :: int
  im_mtime :: time
  im_crc32 :: "32 word"
  im_sha256 :: string

definition no_image :: image_info where
  "no_image = \<lparr>im_name = [], im_size = 0, im_mtime = 0, im_crc32 = 0, im_sha256 = []\<rparr>"

record store =
  dir :: string
  prefix_s :: string

definition NewStore :: "os_env \<Rightarrow> string \<Rightarrow> goerr + store" where
  "NewStore en d =
     (if d = [] then Inl (Err ''tftp: image dir required'')
      else case mkdir_err en d of
             Some x \<Rightarrow> Inl (Wrap ''tftp: create image dir'' x)
           | None \<Rightarrow> Inr \<lparr>dir = d, prefix_s = []\<rparr>)"

definition Namespaced :: "store \<Rightarrow> string \<Rightarrow> store" where
  "Namespaced s n = \<lparr>dir = dir s, prefix_s = (if n \<noteq> [] then n @ ''--'' else [])\<rparr>"

definition sanitize :: "string \<Rightarrow> goerr + string" where
  "sanitize name =
     (let base = path_base name
      in if name \<noteq> base \<or> base = [] \<or> base = ''.'' \<or> base = ''..'' \<or> contains_any name [CHR ''/'', CHR 0x5C]
         then Inl (Err (''tftp: invalid image name '' @ quote name @ '' (must be a plain filename)''))
         else Inr base)"

definition OnDiskName :: "store \<Rightarrow> string \<Rightarrow> goerr + string" where
  "OnDiskName s name = (case sanitize name of Inl e \<Rightarrow> Inl e | Inr base \<Rightarrow> Inr (prefix_s s @ base))"

definition Path :: "store \<Rightarrow> string \<Rightarrow> goerr + string" where
  "Path s name = (case sanitize name of Inl e \<Rightarrow> Inl e | Inr base \<Rightarrow> Inr (path_join [dir s, prefix_s s @ base]))"

text \<open>\<open>io.Copy\<close> into the temporary file and the two digests: what was written, the CRC state
  and the error. A reader is the chunks it yields and what it ends with (\<open>None\<close> at its end).\<close>

fun copy_loop :: "os_env \<Rightarrow> bytes \<Rightarrow> 32 word \<Rightarrow> bytes list \<Rightarrow> goerr option \<Rightarrow> bytes \<times> 32 word \<times> goerr option" where
  "copy_loop en a c [] e = (a, c, e)"
| "copy_loop en a c (b # bs) e =
     (case write_err en (a @ b) of
        Some x \<Rightarrow> (a, c, Some x)
      | None \<Rightarrow> copy_loop en (a @ b) (crc_update c b) bs e)"

text \<open>The deferred cleanup.\<close>

definition cleanup :: "os_env \<Rightarrow> string \<Rightarrow> fs \<Rightarrow> fs" where
  "cleanup en tmp f = (if fs_get f tmp \<noteq> None then snd (os_remove en tmp f) else f)"

definition Save :: "os_env \<Rightarrow> store \<Rightarrow> string \<Rightarrow> bytes list \<times> goerr option \<Rightarrow> bool \<Rightarrow> fs \<Rightarrow> (goerr + image_info) \<times> fs" where
  "Save en s name r overwrite f =
     (case Path s name of
        Inl e \<Rightarrow> (Inl e, f)
      | Inr p \<Rightarrow>
          if \<not> overwrite \<and> fs_get f p \<noteq> None
          then (Inl (Err (''tftp: image '' @ quote name @ '' already exists'')), f)
          else
          (case create_temp en of
             Inl e \<Rightarrow> (Inl (Wrap ''tftp: temp file'' e), f)
           | Inr rnd \<Rightarrow>
               let tmp = path_join [dir s, ''.upload-'' @ rnd];
                   (d, c, err) = copy_loop en [] 0 (fst r) (snd r);
                   f1 = fs_put tmp (File d (now en)) f
               in case err of
                    Some x \<Rightarrow> (Inl (Wrap ''tftp: write image'' x), cleanup en tmp f1)
                  | None \<Rightarrow>
                  (case close_err en of
                    Some x \<Rightarrow> (Inl (Wrap ''tftp: close image'' x), cleanup en tmp f1)
                  | None \<Rightarrow>
                  (case os_rename en tmp p f1 of
                    (Some x, f2) \<Rightarrow> (Inl (Wrap ''tftp: finalize image'' x), cleanup en tmp f2)
                  | (None, f2) \<Rightarrow>
                      (Inr \<lparr>im_name = path_base name, im_size = int (length d), im_mtime = now en,
                            im_crc32 = c, im_sha256 = hex_encode (sha256 en d)\<rparr>, cleanup en tmp f2)))))"

definition crc32Physical :: "os_env \<Rightarrow> store \<Rightarrow> string \<Rightarrow> fs \<Rightarrow> goerr + 32 word" where
  "crc32Physical en s b f =
     (let p = path_join [dir s, b]
      in case os_open en p f of
           Inl e \<Rightarrow> Inl e
         | Inr n \<Rightarrow> (case os_read en p n of Inl e \<Rightarrow> Inl e | Inr d \<Rightarrow> Inr (crc32 d)))"

definition list_entry :: "os_env \<Rightarrow> store \<Rightarrow> fs \<Rightarrow> string \<times> node \<Rightarrow> image_info list" where
  "list_entry en s f e =
     (case e of
        (b, Dir) \<Rightarrow> []
      | (b, File d t) \<Rightarrow>
          if prefix ''.upload-'' b \<or> (prefix_s s \<noteq> [] \<and> \<not> prefix (prefix_s s) b) \<or> info_err en b then []
          else [\<lparr>im_name = trim_prefix b (prefix_s s), im_size = int (length d), im_mtime = t,
                 im_crc32 = (case crc32Physical en s b f of Inl _ \<Rightarrow> 0 | Inr c \<Rightarrow> c), im_sha256 = []\<rparr>])"

definition List_images :: "os_env \<Rightarrow> store \<Rightarrow> fs \<Rightarrow> goerr + image_info list" where
  "List_images en s f =
     (case readdir_err en (dir s) of
        Some x \<Rightarrow> Inl (Wrap ''tftp: read image dir'' x)
      | None \<Rightarrow> Inr (sort_key im_name (concat (map (list_entry en s f) (dir_entries (dir s) f)))))"

fun prune_loop :: "os_env \<Rightarrow> store \<Rightarrow> time \<Rightarrow> (string \<times> node) list \<Rightarrow> string list \<Rightarrow> goerr option \<Rightarrow> fs
    \<Rightarrow> (string list \<times> goerr option) \<times> fs" where
  "prune_loop en s cutoff [] removed firstErr f = ((removed, firstErr), f)"
| "prune_loop en s cutoff ((b, Dir) # es) removed firstErr f = prune_loop en s cutoff es removed firstErr f"
| "prune_loop en s cutoff ((b, File d t) # es) removed firstErr f =
     (if info_err en b \<or> cutoff < t then prune_loop en s cutoff es removed firstErr f
      else case os_remove en (path_join [dir s, b]) f of
             (Some x, f1) \<Rightarrow>
               if err_is x ErrNotExist then prune_loop en s cutoff es removed firstErr f1
               else prune_loop en s cutoff es removed
                 (if firstErr = None then Some (Wrap (''tftp: prune '' @ b) x) else firstErr) f1
           | (None, f1) \<Rightarrow> prune_loop en s cutoff es (removed @ [b]) firstErr f1)"

definition Prune :: "os_env \<Rightarrow> store \<Rightarrow> duration \<Rightarrow> fs \<Rightarrow> (string list \<times> goerr option) \<times> fs" where
  "Prune en s maxAge f =
     (if maxAge \<le> 0 then (([], None), f)
      else case readdir_err en (dir s) of
             Some x \<Rightarrow> (([], Some (Wrap ''tftp: read image dir'' x)), f)
           | None \<Rightarrow> prune_loop en s (now en - maxAge) (dir_entries (dir s) f) [] None f)"

definition Delete :: "os_env \<Rightarrow> store \<Rightarrow> string \<Rightarrow> fs \<Rightarrow> goerr option \<times> fs" where
  "Delete en s name f =
     (case Path s name of
        Inl e \<Rightarrow> (Some e, f)
      | Inr p \<Rightarrow> (case os_remove en p f of
                    (Some x, f1) \<Rightarrow> (Some (Wrap ''tftp: delete image'' x), f1)
                  | (None, f1) \<Rightarrow> (None, f1)))"

subsection \<open>The TFTP read handler\<close>

text \<open>The handler's error, the size it announces and the bytes it hands to the transfer. The
  transfer is \<open>OutgoingTransfer\<close> or not, and ends with an error or without.\<close>

definition readHandler :: "os_env \<Rightarrow> store \<Rightarrow> bool \<Rightarrow> (bytes \<Rightarrow> goerr option) \<Rightarrow> string \<Rightarrow> fs
    \<Rightarrow> goerr option \<times> int option \<times> bytes" where
  "readHandler en s outgoing xfer filename f =
     (let name = path_base (trim_space filename)
      in case Path s name of
           Inl e \<Rightarrow> (Some e, None, [])
         | Inr p \<Rightarrow>
             (case os_open en p f of
                Inl e \<Rightarrow> (Some (Wrap (''open '' @ filename) e), None, [])
              | Inr n \<Rightarrow>
                  let sz = (if outgoing then (case n of File d t \<Rightarrow> Some (int (length d)) | Dir \<Rightarrow> Some (dir_size en)) else None)
                  in case os_read en p n of
                       Inl e \<Rightarrow> (Some e, sz, [])
                     | Inr d \<Rightarrow> (xfer d, sz, d)))"


subsection \<open>Names and paths\<close>

lemma path_base_ne: "path_base p \<noteq> []"
  by (auto simp: path_base_def Let_def)

text \<open>A client-facing name: one path element without a backslash.\<close>

definition good_name :: "string \<Rightarrow> bool" where
  "good_name n \<longleftrightarrow> plain n \<and> CHR 0x5C \<notin> set n"

lemma sanitize_iff: "sanitize n = (if good_name n then Inr n
    else Inl (Err (''tftp: invalid image name '' @ quote n @ '' (must be a plain filename)'')))"
proof -
  have "(n \<noteq> path_base n \<or> path_base n = [] \<or> path_base n = ''.'' \<or> path_base n = ''..'' \<or>
      contains_any n [CHR ''/'', CHR 0x5C]) \<longleftrightarrow> \<not> good_name n"
  proof (cases "path_base n = n")
    case True
    then have n: "n \<noteq> []" using path_base_ne [of n] by simp
    show ?thesis using n unfolding True by (auto simp: good_name_def plain_def contains_any_def)
  next
    case False
    then show ?thesis using path_base_plain [of n] by (auto simp: good_name_def)
  qed
  moreover have "path_base n = n" if "good_name n" using that path_base_plain [of n] by (simp add: good_name_def)
  ultimately show ?thesis unfolding sanitize_def Let_def by simp
qed

text \<open>A store as \<open>NewStore\<close> and \<open>Namespaced\<close> make it, with an instance name of one path element.\<close>

definition store_ok :: "store \<Rightarrow> bool" where
  "store_ok s \<longleftrightarrow> dir s \<noteq> [] \<and> (prefix_s s = [] \<or> (\<exists>n. n \<noteq> [] \<and> prefix_s s = n @ ''--'' \<and> CHR ''/'' \<notin> set n \<and> CHR 0x5C \<notin> set n))"

lemma plain_prefixed: "store_ok s \<Longrightarrow> plain n \<Longrightarrow> plain (prefix_s s @ n)"
  by (auto simp: store_ok_def plain_def append_eq_Cons_conv)

definition on_disk :: "store \<Rightarrow> string \<Rightarrow> string" where
  "on_disk s b = dir_part (dir s) @ b"

lemma Path_eq:
  "store_ok s \<Longrightarrow> Path s n = (if good_name n then Inr (on_disk s (prefix_s s @ n)) else
     Inl (Err (''tftp: invalid image name '' @ quote n @ '' (must be a plain filename)'')))"
  by (auto simp: Path_def sanitize_iff on_disk_def good_name_def path_join_plain plain_prefixed store_ok_def)

lemma on_disk_inj [simp]: "on_disk s a = on_disk s b \<longleftrightarrow> a = b"
  by (simp add: on_disk_def)

lemma path_base_on_disk: "plain b \<Longrightarrow> path_base (on_disk s b) = b"
  by (simp add: on_disk_def path_base_dir_part)

lemma join_on_disk: "store_ok s \<Longrightarrow> plain b \<Longrightarrow> path_join [dir s, b] = on_disk s b"
  by (simp add: on_disk_def path_join_plain store_ok_def)

lemma store_ok_New: "NewStore en d = Inr s \<Longrightarrow> store_ok s \<and> prefix_s s = []"
  by (auto simp: NewStore_def store_ok_def split: if_splits option.splits)

lemma store_ok_Namespaced: "store_ok s \<Longrightarrow> CHR ''/'' \<notin> set n \<Longrightarrow> CHR 0x5C \<notin> set n \<Longrightarrow> store_ok (Namespaced s n)"
  by (auto simp: Namespaced_def store_ok_def)

subsection \<open>The file system as a map\<close>

lemma fs_get_del [simp]: "fs_get (fs_del p f) q = (if q = p then None else fs_get f q)"
  unfolding fs_get_def fs_del_def by (induction f) auto

lemma fs_get_put [simp]: "fs_get (fs_put p n f) q = (if q = p then Some n else fs_get f q)"
  unfolding fs_put_def by (auto simp: fs_get_def fs_get_del [unfolded fs_get_def])

text \<open>Each path is listed once.\<close>

definition fs_ok :: "fs \<Rightarrow> bool" where
  "fs_ok f \<longleftrightarrow> distinct (map fst f)"

lemma fs_ok_del [inv_intros, simp]: "fs_ok f \<Longrightarrow> fs_ok (fs_del p f)"
  unfolding fs_ok_def fs_del_def by (rule distinct_map_filter)

lemma fs_ok_put [inv_intros, simp]: "fs_ok f \<Longrightarrow> fs_ok (fs_put p n f)"
  using fs_ok_del [of f p] by (auto simp: fs_ok_def fs_put_def fs_del_def)

lemma fs_get_mem: "fs_ok f \<Longrightarrow> fs_get f p = Some n \<longleftrightarrow> (p, n) \<in> set f"
  by (simp add: fs_ok_def fs_get_def)

lemma dir_entries_mem:
  assumes "store_ok s" "fs_ok f" "plain b"
  shows "(b, n) \<in> set (dir_entries (dir s) f) \<longleftrightarrow> fs_get f (on_disk s b) = Some n"
proof -
  have b: "b \<notin> {''.'', ''..'', ''/''}" using assms(3) by (auto simp: plain_def)
  have "(b, n) \<in> set (dir_entries (dir s) f) \<longleftrightarrow> (\<exists>p. (p, n) \<in> set f \<and> path_base p = b \<and> p = path_join [dir s, b])"
    using b by (force simp: dir_entries_def)
  also have "\<dots> \<longleftrightarrow> (on_disk s b, n) \<in> set f"
    using assms(3) by (auto simp: join_on_disk [OF assms(1,3)] path_base_on_disk)
  finally show ?thesis using fs_get_mem [OF assms(2)] by simp
qed


lemma dir_entries_plain: "(b, n) \<in> set (dir_entries d f) \<Longrightarrow> plain b"
  using path_base_ne path_base_no_slash by (fastforce simp: dir_entries_def plain_def)

lemma distinct_map_sort: "distinct (map f (sort_key f xs)) \<longleftrightarrow> distinct (map f xs)"
proof -
  have "mset (map f (sort_key f xs)) = mset (map f xs)" by simp
  then show ?thesis by (rule mset_eq_imp_distinct_iff)
qed

lemma dir_entries_distinct:
  assumes "store_ok s" "fs_ok f"
  shows "distinct (map fst (dir_entries (dir s) f))"
proof -
  let ?P = "\<lambda>(p, n). p = path_join [dir s, path_base p] \<and> path_base p \<notin> {''.'', ''..'', ''/''}"
  have "distinct (map (\<lambda>(p, n). path_base p) (filter ?P f))"
    using assms(2) unfolding fs_ok_def
  proof (induction f)
    case (Cons e f)
    have "path_base (fst e) \<noteq> path_base q" if "?P e" "(q, m) \<in> set f" "?P (q, m)" for q m
    proof
      assume "path_base (fst e) = path_base q"
      with that have "fst e = q" by (cases e) auto
      with that(2) Cons.prems show False by (force simp: image_iff)
    qed
    with Cons show ?case by (cases e) force
  qed simp
  then have "distinct (map fst (map (\<lambda>(p, n). (path_base p, n)) (filter ?P f)))"
    by (simp add: comp_def case_prod_unfold)
  then show ?thesis unfolding dir_entries_def distinct_map_sort .
qed

lemma sorted_dir_entries: "sorted (map fst (dir_entries d f))"
  by (simp add: dir_entries_def)

text \<open>A file the store lists: its path and what \<open>List\<close> says of it.\<close>

definition visible :: "store \<Rightarrow> string \<Rightarrow> bool" where
  "visible s b \<longleftrightarrow> plain b \<and> \<not> prefix ''.upload-'' b \<and> prefix (prefix_s s) b"

definition listed :: "os_env \<Rightarrow> store \<Rightarrow> string \<Rightarrow> bytes \<Rightarrow> time \<Rightarrow> image_info" where
  "listed en s b d t =
     \<lparr>im_name = trim_prefix b (prefix_s s), im_size = int (length d), im_mtime = t,
      im_crc32 = (if open_err en (on_disk s b) = None \<and> read_err en (on_disk s b) = None then crc32 d else 0), im_sha256 = []\<rparr>"

lemma list_mem:
  assumes "store_ok s" "fs_ok f" "List_images en s f = Inr l"
  shows "x \<in> set l \<longleftrightarrow> (\<exists>b d t. visible s b \<and> fs_get f (on_disk s b) = Some (File d t) \<and> \<not> info_err en b \<and> x = listed en s b d t)"
proof -
  have crc: "(case crc32Physical en s b f of Inl _ \<Rightarrow> 0 | Inr c \<Rightarrow> c) =
      (if open_err en (on_disk s b) = None \<and> read_err en (on_disk s b) = None then crc32 d else 0)"
    if "plain b" "fs_get f (on_disk s b) = Some (File d t)" for b d t
    using that by (simp add: crc32Physical_def join_on_disk [OF assms(1)] os_open_def os_read_def Let_def split: option.splits)
  have entry: "x \<in> set (list_entry en s f (b, n)) \<longleftrightarrow>
      (\<exists>d t. n = File d t \<and> visible s b \<and> \<not> info_err en b \<and> x = listed en s b d t)"
    if "(b, n) \<in> set (dir_entries (dir s) f)" for b n
    using that dir_entries_plain [OF that] dir_entries_mem [OF assms(1,2) dir_entries_plain [OF that], of n] crc [of b]
    by (cases n) (auto simp: list_entry_def visible_def listed_def)
  have "x \<in> set l \<longleftrightarrow> (\<exists>e \<in> set (dir_entries (dir s) f). x \<in> set (list_entry en s f e))"
    using assms(3) by (auto simp: List_images_def split: option.splits)
  also have "\<dots> \<longleftrightarrow> (\<exists>b n. (b, n) \<in> set (dir_entries (dir s) f) \<and>
      (\<exists>d t. n = File d t \<and> visible s b \<and> \<not> info_err en b \<and> x = listed en s b d t))"
    using entry by (metis (no_types, lifting) prod.collapse)
  also have "\<dots> \<longleftrightarrow> (\<exists>b d t. visible s b \<and> fs_get f (on_disk s b) = Some (File d t) \<and> \<not> info_err en b \<and> x = listed en s b d t)"
    using dir_entries_mem [OF assms(1,2)] dir_entries_plain by (metis visible_def)
  finally show ?thesis .
qed

subsection \<open>Saving\<close>

text \<open>Evaluation of the CRC on literals, innermost step first.\<close>

lemma crc_steps:
  "c AND 1 = 1 \<Longrightarrow> crc_step c = drop_bit 1 c XOR 0xEDB88320"
  "c AND 1 = 0 \<Longrightarrow> crc_step c = drop_bit 1 c"
  by (simp_all add: crc_step_def)

lemma crc_byte_steps:
  "crc_byte c b = crc_step (crc_step (crc_step (crc_step (crc_step (crc_step (crc_step (crc_step (c XOR of_nat (ord b)))))))))"
  by (simp add: crc_byte_def numeral_eq_Suc)

lemma crc32_start: "crc32 p = NOT (foldl crc_byte 0xFFFFFFFF p)"
proof -
  have "NOT (0 :: 32 word) = 0xFFFFFFFF" by simp
  then show ?thesis by (simp only: crc32_def crc_update_def)
qed

lemma crc_abc: "crc32 ''abc'' = 0x352441C2"
  by (simp add: crc32_start crc_byte_steps crc_steps ord_def)

lemma crc_update_append: "crc_update c (p @ q) = crc_update (crc_update c p) q"
  by (simp add: crc_update_def)

lemma crc_update_Nil [simp]: "crc_update c [] = c"
  by (simp add: crc_update_def)

lemma copy_loop_ok:
  "copy_loop en a c bs e = (a', c', None) \<Longrightarrow> e = None \<and> a' = a @ concat bs \<and> c' = crc_update c (concat bs)"
  by (induction en a c bs e rule: copy_loop.induct) (auto simp: crc_update_append split: option.splits)

lemma cleanup_fresh:
  assumes "fs_get f tmp = Some (File d t)" "remove_err en tmp = None"
  shows "fs_get (cleanup en tmp f) q = (if q = tmp then None else fs_get f q)"
  using assms by (auto simp: cleanup_def os_remove_def)

lemma fs_ok_cleanup: "fs_ok f \<Longrightarrow> fs_ok (cleanup en tmp f)"
  by (auto simp: cleanup_def os_remove_def split: option.splits)

lemma fs_ok_rename: "fs_ok f \<Longrightarrow> os_rename en p q f = (e, f') \<Longrightarrow> fs_ok f'"
  by (auto simp: os_rename_def split: option.splits if_splits)

lemma fs_ok_Save: "fs_ok f \<Longrightarrow> fs_ok (snd (Save en s n r ow f))"
  by (simp add: Save_def Let_def fs_ok_cleanup fs_ok_put split: sum.split option.split prod.split)
    (blast intro: fs_ok_cleanup fs_ok_rename fs_ok_put)

lemma save_outcome:
  assumes "store_ok s" "create_temp en = Inr rnd" "plain (''.upload-'' @ rnd)"
    "tmp = on_disk s (''.upload-'' @ rnd)" "fs_get f tmp = None" "remove_err en tmp = None"
    "p = on_disk s (prefix_s s @ n)" "p \<noteq> tmp"
    "Save en s n (chunks, e) ow f = (res, f')"
  shows "case res of
      Inl x \<Rightarrow> \<forall>q. fs_get f' q = fs_get f q
    | Inr i \<Rightarrow> good_name n \<and> e = None \<and> (ow \<or> fs_get f p = None) \<and>
        (\<forall>q. fs_get f' q = (if q = p then Some (File (concat chunks) (now en)) else fs_get f q)) \<and>
        i = \<lparr>im_name = n, im_size = int (length (concat chunks)), im_mtime = now en, im_crc32 = crc32 (concat chunks),
             im_sha256 = hex_encode (sha256 en (concat chunks))\<rparr>"
proof (cases "good_name n \<and> (ow \<or> fs_get f p = None)")
  case False
  with assms(9) show ?thesis by (auto simp: Save_def Path_eq [OF assms(1)] assms(7) [symmetric] split: if_splits)
next
  case True
  then have P: "Path s n = Inr p" by (simp add: Path_eq [OF assms(1)] assms(7))
  have tmp: "path_join [dir s, ''.upload-'' @ rnd] = tmp" using assms(1,3,4) by (simp only: join_on_disk)
  obtain d c x where cl: "copy_loop en [] 0 chunks e = (d, c, x)" by (metis prod.collapse)
  let ?f1 = "fs_put tmp (File d (now en)) f"
  have restored: "fs_get (cleanup en tmp ?f1) q = fs_get f q" for q
    using cleanup_fresh [of ?f1 tmp d "now en" en q] assms(5,6) by simp
  show ?thesis
  proof (cases "x = None \<and> close_err en = None")
    case False
    with assms(9) True P restored show ?thesis
      by (auto simp: Save_def assms(2) tmp [simplified] cl Let_def split: option.splits)
  next
    case ok: True
    obtain y f2 where rn: "os_rename en tmp p ?f1 = (y, f2)" by (metis prod.collapse)
    have base: "path_base n = n" using True by (simp add: good_name_def path_base_plain)
    have save: "Save en s n (chunks, e) ow f = (case (y, f2) of
        (Some x, f2) \<Rightarrow> (Inl (Wrap ''tftp: finalize image'' x), cleanup en tmp f2)
      | (None, f2) \<Rightarrow> (Inr \<lparr>im_name = n, im_size = int (length d), im_mtime = now en,
            im_crc32 = c, im_sha256 = hex_encode (sha256 en d)\<rparr>, cleanup en tmp f2))"
      using True P ok by (cases y) (auto simp: Save_def assms(2) tmp [simplified] cl Let_def base rn)
    show ?thesis
    proof (cases y)
      case (Some z)
      then have "f2 = ?f1" using rn by (auto simp: os_rename_def split: option.splits if_splits)
      with assms(9) save Some restored show ?thesis by auto
    next
      case None
      then have "f2 = fs_put p (File d (now en)) (fs_del tmp ?f1)"
        using rn assms(8) by (auto simp: os_rename_def split: option.splits if_splits)
      then have "fs_get (cleanup en tmp f2) q = (if q = p then Some (File d (now en)) else fs_get f q)" for q
        using assms(5,8) by (auto simp: cleanup_def)
      with copy_loop_ok [of en "[]" 0 chunks e d c] ok cl assms(9) save None True show ?thesis
        by (auto simp: crc32_def)
    qed
  qed
qed


lemma save_frame:
  assumes "store_ok s" "create_temp en = Inr rnd" "plain (''.upload-'' @ rnd)"
    "tmp = on_disk s (''.upload-'' @ rnd)" "fs_get f tmp = None" "remove_err en tmp = None"
    "p = on_disk s (prefix_s s @ n)" "p \<noteq> tmp"
    "Save en s n (chunks, e) ow f = (res, f')"
  shows "q \<noteq> p \<Longrightarrow> fs_get f' q = fs_get f q"
  using save_outcome [OF assms] by (simp split: sum.splits)

text \<open>C17: Saving an image is atomic. When the name \<open>CreateTemp\<close> picked is free and the temporary
  file can be removed, then a \<open>Save\<close> that fails, at whichever step, leaves the directory as it
  was, and one that succeeds changes nothing but the image's path, which then holds exactly the
  bytes the reader yielded; the \<open>Info\<close> it returns has their number and the CRC-32 of the whole,
  although both were computed chunk by chunk. Without \<open>overwrite\<close> an existing image makes it fail.\<close>

theorem save_atomic:
  assumes "store_ok s" "create_temp en = Inr rnd" "plain (''.upload-'' @ rnd)"
    "tmp = on_disk s (''.upload-'' @ rnd)" "fs_get f tmp = None" "remove_err en tmp = None"
    "p = on_disk s (prefix_s s @ n)" "p \<noteq> tmp"
    "Save en s n (chunks, e) ow f = (res, f')"
  shows "case res of
      Inl x \<Rightarrow> \<forall>q. fs_get f' q = fs_get f q
    | Inr i \<Rightarrow> good_name n \<and> e = None \<and> (ow \<or> fs_get f p = None) \<and>
        (\<forall>q. fs_get f' q = (if q = p then Some (File (concat chunks) (now en)) else fs_get f q)) \<and>
        i = \<lparr>im_name = n, im_size = int (length (concat chunks)), im_mtime = now en, im_crc32 = crc32 (concat chunks),
             im_sha256 = hex_encode (sha256 en (concat chunks))\<rparr>"
  using save_outcome [OF assms] .

text \<open>A concrete directory: no call fails, the clock reads 1000.\<close>

definition os0 :: os_env where
  "os0 = \<lparr>mkdir_err = (\<lambda>_. None), create_temp = Inr ''7'', write_err = (\<lambda>_. None), close_err = None,
     rename_err = (\<lambda>_ _. None), remove_err = (\<lambda>_. None), readdir_err = (\<lambda>_. None), info_err = (\<lambda>_. False),
     open_err = (\<lambda>_. None), read_err = (\<lambda>_. None), now = 1000, dir_size = 0, sha256 = (\<lambda>b. b)\<rparr>"

definition raw0 :: store where "raw0 = \<lparr>dir = ''/srv'', prefix_s = []\<rparr>"

definition dut1 :: store where "dut1 = Namespaced raw0 ''dut1''"

lemma stores_ok: "store_ok raw0" "store_ok dut1"
  by (simp_all add: raw0_def dut1_def Namespaced_def store_ok_def)

definition fs0 :: fs where
  "fs0 = [(''/srv/dut2--k'', File ''x'' 10), (''/srv/.upload-1'', File ''y'' 20)]"

lemma fs0_ok: "fs_ok fs0"
  by (simp add: fs_ok_def fs0_def)

lemma on_disk_dut1: "on_disk dut1 b = ''/srv/'' @ b" "on_disk raw0 b = ''/srv/'' @ b"
proof -
  have "dir_part ''/srv'' = ''/srv/''" by code_simp
  then show "on_disk dut1 b = ''/srv/'' @ b" "on_disk raw0 b = ''/srv/'' @ b"
    by (simp_all add: on_disk_def dut1_def raw0_def Namespaced_def)
qed

definition fs1 :: fs where
  "fs1 = [(''/srv/dut1--k'', File ''abc'' 1000), (''/srv/dut2--k'', File ''x'' 10), (''/srv/.upload-1'', File ''y'' 20)]"

lemma save0: "Save os0 dut1 ''k'' ([''ab'', ''c''], None) False fs0 =
    (Inr \<lparr>im_name = ''k'', im_size = 3, im_mtime = 1000, im_crc32 = 0x352441C2, im_sha256 = ''616263''\<rparr>, fs1)"
proof -
  have p: "Path dut1 ''k'' = Inr ''/srv/dut1--k''" "path_join [dir dut1, ''.upload-'' @ ''7''] = ''/srv/.upload-7''"
    "path_base ''k'' = ''k''" "hex_encode ''abc'' = ''616263''"
    by code_simp+
  have "crc_update (crc_update 0 ''ab'') ''c'' = 0x352441C2"
    using crc_abc by (simp add: crc32_def flip: crc_update_append)
  moreover have "create_temp os0 = Inr ''7''" "sha256 os0 d = d" "now os0 = 1000" "close_err os0 = None" "write_err os0 b = None"
    "rename_err os0 q q' = None" for d b q q'
    by (simp_all add: os0_def)
  ultimately show ?thesis
    by (simp add: Save_def p [simplified] Let_def os_rename_def cleanup_def)
      (simp add: fs0_def fs1_def fs_get_def fs_put_def fs_del_def)
qed

theorem save_atomic_witness:
  "fs_get fs1 ''/srv/dut1--k'' = Some (File ''abc'' 1000) \<and> fs_get fs1 ''/srv/.upload-7'' = None \<and>
   fs_get fs1 ''/srv/dut2--k'' = Some (File ''x'' 10) \<and> crc32 ''abc'' = 0x352441C2"
proof -
  have "create_temp os0 = Inr ''7''" "plain (''.upload-'' @ ''7'')" "remove_err os0 ''/srv/.upload-7'' = None"
    by (simp_all add: os0_def plain_def)
  moreover have "fs_get fs0 ''/srv/.upload-7'' = None" "fs_get fs0 ''/srv/dut2--k'' = Some (File ''x'' 10)"
    by (simp_all add: fs_get_def fs0_def)
  moreover have "now os0 = 1000" by (simp add: os0_def)
  ultimately show ?thesis
    using save_atomic [OF stores_ok(2), of os0 "''7''" "''/srv/.upload-7''" fs0 "''/srv/dut1--k''" "''k''" "[''ab'', ''c'']" None False, OF _ _ _ _ _ _ _ save0]
    by (simp add: on_disk_dut1) (simp add: dut1_def Namespaced_def)
qed

subsection \<open>Listing and serving what was saved\<close>

lemma trim_prefix_append [simp]: "trim_prefix (p @ n) p = n"
  by (simp add: trim_prefix_def)

lemma saved_is_served_facts:
  assumes "store_ok s" "fs_ok f" "good_name n" "fs_get f (on_disk s (prefix_s s @ n)) = Some (File d t)"
    "\<not> prefix ''.upload-'' (prefix_s s @ n)" "last n \<notin> set spaces"
    "info_err en (prefix_s s @ n) = False" "\<forall>p. open_err en p = None \<and> read_err en p = None" "readdir_err en (dir s) = None"
  shows "\<exists>l. List_images en s f = Inr l \<and> sorted (map im_name l) \<and>
      \<lparr>im_name = n, im_size = int (length d), im_mtime = t, im_crc32 = crc32 d, im_sha256 = []\<rparr> \<in> set l"
    "\<exists>b. OnDiskName s n = Inr b \<and>
      readHandler en \<lparr>dir = dir s, prefix_s = []\<rparr> True xfer (pre @ ''/'' @ b) f = (xfer d, Some (int (length d)), d)"
proof -
  let ?b = "prefix_s s @ n"
  have pn: "plain ?b" "n \<noteq> []" using plain_prefixed [OF assms(1)] assms(3) by (auto simp: good_name_def plain_def)
  have v: "visible s ?b" using pn assms(5) by (simp add: visible_def)
  obtain l where l: "List_images en s f = Inr l" "sorted (map im_name l)"
    using assms(9) by (simp add: List_images_def)
  have "listed en s ?b d t \<in> set l"
    using list_mem [OF assms(1,2) l(1), of "listed en s ?b d t"] v assms(4,7) by blast
  with l assms(8) show "\<exists>l. List_images en s f = Inr l \<and> sorted (map im_name l) \<and>
      \<lparr>im_name = n, im_size = int (length d), im_mtime = t, im_crc32 = crc32 d, im_sha256 = []\<rparr> \<in> set l"
    by (auto simp: listed_def)
next
  let ?b = "prefix_s s @ n" and ?s = "\<lparr>dir = dir s, prefix_s = []\<rparr>"
  have good: "good_name ?b" using plain_prefixed [OF assms(1)] assms(1,3) by (auto simp: good_name_def store_ok_def)
  then have pn: "plain ?b" by (simp add: good_name_def)
  have n: "n \<noteq> []" using assms(3) by (simp add: good_name_def plain_def)
  have slash: "CHR ''/'' \<notin> set spaces" by (simp add: spaces_def)
  obtain v where "trim_space (pre @ CHR ''/'' # ?b) = v @ CHR ''/'' # ?b"
    using trim_space_keep [OF slash, of ?b pre] n assms(6) by auto
  then have base: "path_base (trim_space (pre @ ''/'' @ ?b)) = ?b" using path_base_slash [OF pn] by simp
  have sok: "store_ok ?s" using assms(1) by (simp add: store_ok_def)
  have p: "on_disk ?s ?b = on_disk s ?b" by (simp add: on_disk_def)
  have P: "Path ?s ?b = Inr (on_disk s ?b)" using good p by (simp add: Path_eq [OF sok])
  have "OnDiskName s n = Inr ?b" using assms(3) by (simp add: OnDiskName_def sanitize_iff)
  moreover have "readHandler en ?s True xfer (pre @ ''/'' @ ?b) f = (xfer d, Some (int (length d)), d)"
    using assms(4,8) by (simp add: readHandler_def Let_def base [simplified] P os_open_def os_read_def)
  ultimately show "\<exists>b. OnDiskName s n = Inr b \<and>
      readHandler en ?s True xfer (pre @ ''/'' @ b) f = (xfer d, Some (int (length d)), d)" by blast
qed


lemma fs1_get: "fs_get fs1 ''/srv/dut1--k'' = Some (File ''abc'' 1000)"
  by code_simp

lemma fs1_ok: "fs_ok fs1"
  by (simp add: fs_ok_def fs1_def)


lemma path_confined_facts:
  assumes "store_ok s"
  shows "Path s n = Inr p \<longleftrightarrow> good_name n \<and> p = dir_part (dir s) @ prefix_s s @ n"
    "Path s n = Inr p \<Longrightarrow> path_base p = prefix_s s @ n \<and> p = path_join [dir s, path_base p] \<and> CHR ''/'' \<notin> set (path_base p)"
    "Path s n = Inr p \<Longrightarrow> Path s m = Inr p \<Longrightarrow> n = m"
    "readHandler en s out xfer req f = (e, sz, d) \<Longrightarrow> d \<noteq> [] \<Longrightarrow>
      \<exists>b t. plain b \<and> fs_get f (dir_part (dir s) @ b) = Some (File d t)"
proof -
  show iff: "Path s n = Inr p \<longleftrightarrow> good_name n \<and> p = dir_part (dir s) @ prefix_s s @ n" for n p
    by (auto simp: Path_eq [OF assms] on_disk_def)
  have pl: "good_name n \<Longrightarrow> plain (prefix_s s @ n)" for n
    by (simp add: good_name_def plain_prefixed [OF assms])
  show "Path s n = Inr p \<Longrightarrow> path_base p = prefix_s s @ n \<and> p = path_join [dir s, path_base p] \<and> CHR ''/'' \<notin> set (path_base p)"
  proof -
    assume "Path s n = Inr p"
    then have g: "plain (prefix_s s @ n)" and p: "p = on_disk s (prefix_s s @ n)" using pl by (auto simp: iff on_disk_def)
    then show ?thesis by (simp add: path_base_on_disk join_on_disk [OF assms]) (simp add: plain_def)
  qed
  show "Path s n = Inr p \<Longrightarrow> Path s m = Inr p \<Longrightarrow> n = m" by (simp add: iff)
  show "\<exists>b t. plain b \<and> fs_get f (dir_part (dir s) @ b) = Some (File d t)"
    if r: "readHandler en s out xfer req f = (e, sz, d)" and d: "d \<noteq> []"
  proof -
    let ?n = "path_base (trim_space req)"
    from r d obtain p where p: "Path s ?n = Inr p"
      by (cases "Path s ?n") (auto simp: readHandler_def Let_def)
    with r d have "\<exists>t. fs_get f p = Some (File d t)"
      by (auto simp: readHandler_def os_open_def os_read_def Let_def split: sum.splits option.splits node.splits)
    with p pl show ?thesis by (auto simp: iff)
  qed
qed

text \<open>C19: No request reaches outside the image directory. \<open>Path\<close> accepts exactly the names that are
  one path element without a backslash (so not the empty name, \<open>.\<close> or \<open>..\<close>) and maps each
  to a child of the store's directory whose base name is the prefixed name, different names to
  different files; and whatever text a TFTP client asks for, the bytes the handler sends are those of
  a file directly in the directory.\<close>

theorem path_confined:
  assumes "store_ok s"
  shows "(Path s n = Inr p \<longleftrightarrow> good_name n \<and> p = dir_part (dir s) @ prefix_s s @ n) \<and>
    (Path s n = Inr p \<longrightarrow> path_base p = prefix_s s @ n \<and> p = path_join [dir s, path_base p] \<and> CHR ''/'' \<notin> set (path_base p)) \<and>
    (Path s n = Inr p \<and> Path s m = Inr p \<longrightarrow> n = m) \<and>
    (readHandler en s out xfer req f = (e, sz, d) \<and> d \<noteq> [] \<longrightarrow>
      (\<exists>b t. plain b \<and> fs_get f (dir_part (dir s) @ b) = Some (File d t)))"
proof (intro conjI impI; (elim conjE)?)
  show "Path s n = Inr p \<longleftrightarrow> good_name n \<and> p = dir_part (dir s) @ prefix_s s @ n"
    by (rule path_confined_facts(1) [OF assms])
  show "n = m" if "Path s n = Inr p" "Path s m = Inr p" by (rule path_confined_facts(3) [OF assms that])
  show "\<exists>b t. plain b \<and> fs_get f (dir_part (dir s) @ b) = Some (File d t)"
    if "readHandler en s out xfer req f = (e, sz, d)" "d \<noteq> []" by (rule path_confined_facts(4) [OF assms that])
qed (use path_confined_facts(2) [OF assms] in blast)+

theorem path_confined_witness:
  "Path dut1 ''k'' = Inr ''/srv/dut1--k'' \<and> (\<exists>e. Path dut1 ''../etc'' = Inl e) \<and> path_base ''/srv/dut1--k'' = ''dut1--k'' \<and>
   (\<exists>b t. plain b \<and> fs_get fs1 (dir_part (dir raw0) @ b) = Some (File ''abc'' t))"
proof -
  have d: "dir_part (dir dut1) @ prefix_s dut1 = ''/srv/dut1--''" by code_simp
  have p: "Path dut1 ''k'' = Inr ''/srv/dut1--k''"
    using d path_confined [OF stores_ok(2), THEN conjunct1, of "''k''" "''/srv/dut1--k''"] by (simp add: good_name_def plain_def)
  have "\<nexists>q. Path dut1 ''../etc'' = Inr q"
    using path_confined [OF stores_ok(2), THEN conjunct1, of "''../etc''"] by (simp add: good_name_def plain_def)
  then have e: "\<exists>e. Path dut1 ''../etc'' = Inl e" by (metis sum.exhaust)
  have "readHandler os0 raw0 True (\<lambda>_. None) ''/tftpboot/dut1--k'' fs1 = (None, Some 3, ''abc'')"
    by code_simp
  then have "\<exists>b t. plain b \<and> fs_get fs1 (dir_part (dir raw0) @ b) = Some (File ''abc'' t)"
    using path_confined [OF stores_ok(1), where out = True and f = fs1 and d = "''abc''" and en = os0 and e = None and sz = "Some 3"
        and xfer = "\<lambda>_. None" and req = "''/tftpboot/dut1--k''", THEN conjunct2, THEN conjunct2, THEN conjunct2] by simp
  moreover have "path_base ''/srv/dut1--k'' = ''dut1--k''"
    using path_confined [OF stores_ok(2), THEN conjunct2, THEN conjunct1, THEN mp, OF p, THEN conjunct1]
    by (simp add: dut1_def Namespaced_def)
  ultimately show ?thesis using p e by simp
qed


subsection \<open>Instances and pruning\<close>

text \<open>Two instance names as \<open>Config.Validate\<close> accepts them, and where their prefixes meet.\<close>

definition instance_name :: "string \<Rightarrow> bool" where
  "instance_name n \<longleftrightarrow> n \<noteq> [] \<and> \<not> contains_str n ''--'' \<and> CHR ''/'' \<notin> set n \<and> CHR 0x5C \<notin> set n"

lemma prefix_meet:
  assumes "instance_name n" "instance_name m" "prefix (n @ ''--'') x" "prefix (m @ ''--'') x" "length n < length m"
  shows "m = n @ ''-''"
proof -
  from assms(3,4) obtain a b where ab: "n @ ''--'' @ a = m @ ''--'' @ b" unfolding prefix_def by (metis append.assoc)
  from assms(5) ab obtain t where t: "m = n @ t" "''--'' @ a = t @ ''--'' @ b" "t \<noteq> []"
    by (auto simp: append_eq_append_conv2)
  show ?thesis
  proof (cases "length t = 1")
    case True
    then obtain c where "t = [c]" by (auto simp: length_Suc_conv)
    with t show ?thesis by simp
  next
    case False
    with t(3) have "Suc (Suc 0) \<le> length t" by (cases t; cases "tl t") auto
    then obtain c d u where "t = c # d # u" by (auto simp: Suc_le_length_iff)
    with t(1,2) have "m = n @ ''--'' @ u" by auto
    then have "contains_str m ''--''" by (auto simp: contains_str_iff)
    with assms(2) show ?thesis by (simp add: instance_name_def)
  qed
qed

lemma prefix_apart:
  assumes "instance_name n" "instance_name m" "n \<noteq> m" "m \<noteq> n @ ''-''" "n \<noteq> m @ ''-''"
  shows "\<not> (prefix (n @ ''--'') x \<and> prefix (m @ ''--'') x)"
proof
  assume a: "prefix (n @ ''--'') x \<and> prefix (m @ ''--'') x"
  show False
  proof (cases "length n = length m")
    case True
    with a assms(3) show False unfolding prefix_def by auto
  next
    case False
    with a assms prefix_meet [of n m x] prefix_meet [of m n x] show False by (meson linorder_neqE_nat)
  qed
qed

lemma Delete_only: "Path s n = Inr p \<Longrightarrow> Delete en s n f = (r, f') \<Longrightarrow> q \<noteq> p \<Longrightarrow> fs_get f' q = fs_get f q"
  by (auto simp: Delete_def os_remove_def split: option.splits if_splits)

lemma fs_ok_Delete: "fs_ok f \<Longrightarrow> fs_ok (snd (Delete en s n f))"
  by (auto simp: Delete_def os_remove_def split: sum.splits option.splits)

lemma list_frame:
  assumes "store_ok s" "fs_ok f" "fs_ok f'" "List_images en s f = Inr l" "List_images en s f' = Inr l'"
    "\<And>b. visible s b \<Longrightarrow> fs_get f' (on_disk s b) = fs_get f (on_disk s b)"
  shows "set l' = set l"
  using list_mem [OF assms(1,2,4)] list_mem [OF assms(1,3,5)] assms(6) by (auto 4 4 simp: set_eq_iff)

lemma instances_isolated_facts:
  assumes "store_ok root" "instance_name n" "instance_name m" "n \<noteq> m" "m \<noteq> n @ ''-''" "n \<noteq> m @ ''-''"
    "s = Namespaced root n" "t = Namespaced root m"
  shows "Path s x = Inr p \<Longrightarrow> Path t y \<noteq> Inr p"
    "fs_ok f \<Longrightarrow> Delete en s x f = (r, f') \<Longrightarrow> List_images en t f = Inr l \<Longrightarrow> List_images en t f' = Inr l' \<Longrightarrow> set l' = set l"
    "\<lbrakk>fs_ok f; create_temp en = Inr rnd; plain (''.upload-'' @ rnd); fs_get f (on_disk s (''.upload-'' @ rnd)) = None;
       remove_err en (on_disk s (''.upload-'' @ rnd)) = None; prefix_s s @ x \<noteq> ''.upload-'' @ rnd;
       Save en s x rd ow f = (res, f'); List_images en t f = Inr l; List_images en t f' = Inr l'\<rbrakk> \<Longrightarrow> set l' = set l"
    "Path (Namespaced root ''a'') ''-x'' = Path (Namespaced root ''a-'') ''x'' \<and> instance_name ''a'' \<and> instance_name ''a-''"
proof -
  have ok: "store_ok s" "store_ok t"
    using assms by (auto simp: instance_name_def intro: store_ok_Namespaced)
  have od: "on_disk s b = on_disk t b" for b using assms(7,8) by (simp add: on_disk_def Namespaced_def)
  have pre: "prefix_s s = n @ ''--''" "prefix_s t = m @ ''--''" using assms by (auto simp: Namespaced_def instance_name_def)
  have ne: "prefix_s s @ a \<noteq> prefix_s t @ b" for a b
    using prefix_apart [OF assms(2-6), of "prefix_s s @ a"] by (auto simp: pre prefix_def)
  have vis: "visible t b \<Longrightarrow> prefix_s s @ a \<noteq> b" for a b
    using prefix_apart [OF assms(2-6), of "prefix_s s @ a"] by (auto simp: pre prefix_def visible_def)
  show "Path s x = Inr p \<Longrightarrow> Path t y \<noteq> Inr p"
    using ne ne [symmetric] by (auto simp: Path_eq [OF ok(1)] Path_eq [OF ok(2)] od split: if_splits)
  show "set l' = set l" if "fs_ok f" "Delete en s x f = (r, f')" "List_images en t f = Inr l" "List_images en t f' = Inr l'"
  proof (rule list_frame [OF ok(2) that(1) _ that(3,4)])
    show "fs_ok f'" using fs_ok_Delete [OF that(1), of en s x] that(2) by simp
    show "fs_get f' (on_disk t b) = fs_get f (on_disk t b)" if v: "visible t b" for b
    proof (cases "Path s x")
      case (Inl e)
      with \<open>Delete en s x f = (r, f')\<close> show ?thesis by (simp add: Delete_def)
    next
      case (Inr p)
      with vis [OF v] have "p \<noteq> on_disk t b" by (auto simp: Path_eq [OF ok(1)] od split: if_splits)
      with Delete_only [OF Inr \<open>Delete en s x f = (r, f')\<close>] show ?thesis by simp
    qed
  qed
  show "set l' = set l" if h: "fs_ok f" "create_temp en = Inr rnd" "plain (''.upload-'' @ rnd)"
    "fs_get f (on_disk s (''.upload-'' @ rnd)) = None" "remove_err en (on_disk s (''.upload-'' @ rnd)) = None"
    "prefix_s s @ x \<noteq> ''.upload-'' @ rnd" "Save en s x rd ow f = (res, f')"
    "List_images en t f = Inr l" "List_images en t f' = Inr l'"
  proof (rule list_frame [OF ok(2) h(1) _ h(8,9)])
    show "fs_ok f'" using fs_ok_Save [OF h(1), of en s x rd ow] h(7) by simp
    obtain ch e where rd: "rd = (ch, e)" by (cases rd)
    have pt: "on_disk s (prefix_s s @ x) \<noteq> on_disk s (''.upload-'' @ rnd)" using h(6) by simp
    show "fs_get f' (on_disk t b) = fs_get f (on_disk t b)" if v: "visible t b" for b
      using save_frame [OF ok(1) h(2,3) refl h(4,5) refl pt h(7) [unfolded rd]] vis [OF v, of x] by (simp add: od)
  qed
  show "Path (Namespaced root ''a'') ''-x'' = Path (Namespaced root ''a-'') ''x'' \<and> instance_name ''a'' \<and> instance_name ''a-''"
    by (simp add: Path_def Namespaced_def sanitize_iff good_name_def plain_def instance_name_def contains_str_def)
qed


text \<open>C20: Instances that share an image directory do not see each other's images. For two
  different valid instance names, neither of which is the other followed by one dash, no name of
  one is stored under the file of any name of the other, and neither \<open>Delete\<close> nor \<open>Save\<close> through one
  changes what the other lists. The exception is real: the names \<open>a\<close> and \<open>a-\<close> are both valid,
  and there \<open>-x\<close> of the one is \<open>x\<close> of the other.\<close>

theorem instances_isolated:
  assumes "store_ok root" "instance_name n" "instance_name m" "n \<noteq> m" "m \<noteq> n @ ''-''" "n \<noteq> m @ ''-''"
    "s = Namespaced root n" "t = Namespaced root m"
  shows "(Path s x = Inr p \<longrightarrow> Path t y \<noteq> Inr p) \<and>
    (fs_ok f \<and> Delete en s x f = (r, f') \<and> List_images en t f = Inr l \<and> List_images en t f' = Inr l' \<longrightarrow> set l' = set l) \<and>
    (fs_ok f \<and> create_temp en = Inr rnd \<and> plain (''.upload-'' @ rnd) \<and> fs_get f (on_disk s (''.upload-'' @ rnd)) = None \<and>
       remove_err en (on_disk s (''.upload-'' @ rnd)) = None \<and> prefix_s s @ x \<noteq> ''.upload-'' @ rnd \<and>
       Save en s x rd ow f = (res, f') \<and> List_images en t f = Inr l \<and> List_images en t f' = Inr l' \<longrightarrow> set l' = set l) \<and>
    Path (Namespaced root ''a'') ''-x'' = Path (Namespaced root ''a-'') ''x'' \<and> instance_name ''a'' \<and> instance_name ''a-''"
proof (intro conjI impI, goal_cases)
  case 1
  then show ?case by (rule instances_isolated_facts(1) [OF assms])
next
  case 2
  then show ?case using instances_isolated_facts(2) [OF assms, of f en x r f' l l'] by simp
next
  case 3
  then show ?case using instances_isolated_facts(3) [OF assms, of f en rnd x rd ow res f' l l'] by simp
qed (use instances_isolated_facts(4) [OF assms] in simp_all)

theorem instances_isolated_witness:
  "Path dut1 ''k'' = Inr ''/srv/dut1--k'' \<and> Path (Namespaced raw0 ''dut2'') ''k'' \<noteq> Inr ''/srv/dut1--k'' \<and>
   (\<exists>f' l l'. Delete os0 dut1 ''k'' fs1 = (None, f') \<and> List_images os0 (Namespaced raw0 ''dut2'') fs1 = Inr l \<and>
      List_images os0 (Namespaced raw0 ''dut2'') f' = Inr l' \<and> set l' = set l) \<and>
   (\<exists>l l'. List_images os0 (Namespaced raw0 ''dut2'') fs0 = Inr l \<and>
      List_images os0 (Namespaced raw0 ''dut2'') fs1 = Inr l' \<and> set l' = set l) \<and>
   Path (Namespaced raw0 ''a'') ''-x'' = Path (Namespaced raw0 ''a-'') ''x''"
proof -
  let ?t = "Namespaced raw0 ''dut2''"
  have n: "instance_name ''dut1''" "instance_name ''dut2''" by (simp_all add: instance_name_def contains_str_def)
  note iso = instances_isolated [OF stores_ok(1) n _ _ _ dut1_def refl]
  have p: "Path dut1 ''k'' = Inr ''/srv/dut1--k''" by code_simp
  have L: "\<exists>l. List_images os0 ?t f = Inr l" for f
    by (simp add: List_images_def os0_def)
  obtain f' where d: "Delete os0 dut1 ''k'' fs1 = (None, f')"
  proof -
    have "fst (Delete os0 dut1 ''k'' fs1) = None" by code_simp
    then show ?thesis using that by (metis prod.collapse)
  qed
  have c: "create_temp os0 = Inr ''7''" "plain (''.upload-'' @ ''7'')" "fs_get fs0 (on_disk dut1 (''.upload-'' @ ''7'')) = None"
    "remove_err os0 (on_disk dut1 (''.upload-'' @ ''7'')) = None" "prefix_s dut1 @ ''k'' \<noteq> ''.upload-'' @ ''7''"
    by (simp_all add: os0_def plain_def on_disk_dut1 fs_get_def fs0_def)
  have "Path ?t ''k'' \<noteq> Inr ''/srv/dut1--k''" using iso [THEN conjunct1] p by simp
  moreover have "Path (Namespaced raw0 ''a'') ''-x'' = Path (Namespaced raw0 ''a-'') ''x''" using iso by simp
  moreover have "\<exists>f' l l'. Delete os0 dut1 ''k'' fs1 = (None, f') \<and> List_images os0 ?t fs1 = Inr l \<and>
      List_images os0 ?t f' = Inr l' \<and> set l' = set l"
  proof -
    obtain l l' where l: "List_images os0 ?t fs1 = Inr l" "List_images os0 ?t f' = Inr l'" using L by meson
    with d iso [where x = "''k''" and f = fs1 and en = os0 and r = None and f' = f' and l = l and l' = l'] fs1_ok
    have "set l' = set l" by simp
    with d l show ?thesis by simp
  qed
  moreover have "\<exists>l l'. List_images os0 ?t fs0 = Inr l \<and> List_images os0 ?t fs1 = Inr l' \<and> set l' = set l"
  proof -
    obtain l l' where l: "List_images os0 ?t fs0 = Inr l" "List_images os0 ?t fs1 = Inr l'" using L by meson
    with iso [where x = "''k''" and f = fs0 and en = os0 and f' = fs1 and l = l and l' = l' and rnd = "''7''"] fs0_ok c save0
    have "set l' = set l" by simp
    with l show ?thesis by simp
  qed
  ultimately show ?thesis using p by blast
qed

text \<open>What \<open>Prune\<close> does to one entry of the directory.\<close>

definition stale :: "os_env \<Rightarrow> time \<Rightarrow> string \<times> node \<Rightarrow> bool" where
  "stale en cutoff e = (case e of (b, Dir) \<Rightarrow> False | (b, File d t) \<Rightarrow> \<not> info_err en b \<and> t \<le> cutoff)"

definition pruned :: "os_env \<Rightarrow> store \<Rightarrow> time \<Rightarrow> string \<times> node \<Rightarrow> bool" where
  "pruned en s cutoff e \<longleftrightarrow> stale en cutoff e \<and> remove_err en (on_disk s (fst e)) = None"

definition prune_fails :: "os_env \<Rightarrow> store \<Rightarrow> time \<Rightarrow> string \<times> node \<Rightarrow> bool" where
  "prune_fails en s cutoff e \<longleftrightarrow> stale en cutoff e \<and>
     (\<exists>x. remove_err en (on_disk s (fst e)) = Some x \<and> \<not> err_is x ErrNotExist)"

lemma pruned_iff: "pruned en s c (b, n) \<longleftrightarrow> (\<exists>d t. n = File d t \<and> t \<le> c) \<and> \<not> info_err en b \<and> remove_err en (on_disk s b) = None"
  by (cases n) (auto simp: pruned_def stale_def)

lemma prune_fails_iff: "prune_fails en s c (b, n) \<longleftrightarrow> (\<exists>d t. n = File d t \<and> t \<le> c) \<and> \<not> info_err en b \<and>
    (\<exists>x. remove_err en (on_disk s b) = Some x \<and> \<not> err_is x ErrNotExist)"
  by (cases n) (auto simp: prune_fails_def stale_def)

lemma prune_loop_result:
  assumes "store_ok s" "\<forall>e \<in> set es. plain (fst e) \<and> fs_get f (on_disk s (fst e)) = Some (snd e)" "distinct (map fst es)"
  shows "fst (fst (prune_loop en s cutoff es removed fe f)) = removed @ map fst (filter (pruned en s cutoff) es) \<and>
    (snd (fst (prune_loop en s cutoff es removed fe f)) = None \<longleftrightarrow> fe = None \<and> \<not> (\<exists>e \<in> set es. prune_fails en s cutoff e)) \<and>
    (\<forall>q. fs_get (snd (prune_loop en s cutoff es removed fe f)) q =
      (if \<exists>e \<in> set es. pruned en s cutoff e \<and> q = on_disk s (fst e) then None else fs_get f q))"
  using assms(2,3)
proof (induction es arbitrary: removed fe f)
  case (Cons e es)
  obtain b n where e: "e = (b, n)" by (cases e)
  have pre: "\<forall>e \<in> set es. plain (fst e) \<and> fs_get f (on_disk s (fst e)) = Some (snd e)" "distinct (map fst es)"
    "plain b" "fs_get f (on_disk s b) = Some n" "b \<notin> fst ` set es"
    using Cons.prems e by auto
  note IH = Cons.IH [OF pre(1,2)]
  show ?case
  proof (cases "stale en cutoff e")
    case False
    then have "prune_loop en s cutoff (e # es) removed fe f = prune_loop en s cutoff es removed fe f"
      by (cases n) (auto simp: e stale_def)
    with False IH show ?thesis by (simp add: pruned_def prune_fails_def)
  next
    case True
    then obtain d t where n: "n = File d t" "\<not> info_err en b" "t \<le> cutoff" by (cases n) (auto simp: e stale_def)
    show ?thesis
    proof (cases "remove_err en (on_disk s b)")
      case None
      let ?f = "fs_del (on_disk s b) f"
      have "\<forall>e \<in> set es. plain (fst e) \<and> fs_get ?f (on_disk s (fst e)) = Some (snd e)"
        using pre(1,5) by force
      note IH = Cons.IH [OF this pre(2)]
      have "prune_loop en s cutoff (e # es) removed fe f = prune_loop en s cutoff es (removed @ [b]) fe ?f"
        using n None pre(4) by (simp add: e os_remove_def join_on_disk [OF assms(1) pre(3)])
      with True None IH show ?thesis by (auto simp: pruned_def prune_fails_def e)
    next
      case (Some x)
      then have "prune_loop en s cutoff (e # es) removed fe f =
          prune_loop en s cutoff es removed (if err_is x ErrNotExist \<or> fe \<noteq> None then fe else Some (Wrap (''tftp: prune '' @ b) x)) f"
        using n pre(4) by (simp add: e os_remove_def join_on_disk [OF assms(1) pre(3)])
      with True Some IH show ?thesis by (auto simp: pruned_def prune_fails_def e)
    qed
  qed
qed simp

lemma prune_result_facts:
  assumes "store_ok s" "fs_ok f" "0 < age" "readdir_err en (dir s) = None" "Prune en s age f = ((removed, err), f')"
  shows "b \<in> set removed \<longleftrightarrow> plain b \<and> (\<exists>d t. fs_get f (on_disk s b) = Some (File d t) \<and> t \<le> now en - age) \<and>
      \<not> info_err en b \<and> remove_err en (on_disk s b) = None"
    "sorted removed \<and> distinct removed"
    "fs_get f' q = (if q \<in> on_disk s ` set removed then None else fs_get f q)"
    "err \<noteq> None \<longleftrightarrow> (\<exists>b d t x. plain b \<and> fs_get f (on_disk s b) = Some (File d t) \<and> t \<le> now en - age \<and> \<not> info_err en b \<and>
      remove_err en (on_disk s b) = Some x \<and> \<not> err_is x ErrNotExist)"
    "a \<le> 0 \<Longrightarrow> Prune en s a f = (([], None), f)"
proof -
  let ?es = "dir_entries (dir s) f" and ?c = "now en - age"
  have mem: "(b, n) \<in> set ?es \<longleftrightarrow> plain b \<and> fs_get f (on_disk s b) = Some n" for b n
    using dir_entries_mem [OF assms(1,2)] dir_entries_plain by blast
  have "\<forall>e \<in> set ?es. plain (fst e) \<and> fs_get f (on_disk s (fst e)) = Some (snd e)"
    using mem by (metis prod.collapse)
  note R = prune_loop_result [OF assms(1) this dir_entries_distinct [OF assms(1,2)], of en ?c "[]" None]
  have P: "prune_loop en s ?c ?es [] None f = ((removed, err), f')"
    using assms(3-5) by (simp add: Prune_def)
  have removed: "removed = map fst (filter (pruned en s ?c) ?es)" using R by (simp add: P)
  show in_removed: "b \<in> set removed \<longleftrightarrow> plain b \<and> (\<exists>d t. fs_get f (on_disk s b) = Some (File d t) \<and> t \<le> now en - age) \<and>
      \<not> info_err en b \<and> remove_err en (on_disk s b) = None" for b
  proof -
    have "b \<in> set removed \<longleftrightarrow> (\<exists>n. (b, n) \<in> set ?es \<and> pruned en s ?c (b, n))"
      unfolding removed by (force simp: image_iff)
    then show ?thesis by (auto simp: mem pruned_iff)
  qed
  show "sorted removed \<and> distinct removed"
    using sorted_dir_entries [of "dir s" f] dir_entries_distinct [OF assms(1,2)]
    by (simp add: removed sorted_filter distinct_map_filter)
  show "fs_get f' q = (if q \<in> on_disk s ` set removed then None else fs_get f q)"
  proof -
    have "(\<exists>e \<in> set ?es. pruned en s ?c e \<and> q = on_disk s (fst e)) \<longleftrightarrow> q \<in> on_disk s ` set removed"
      unfolding removed by (auto simp: image_iff)
    with R show ?thesis by (simp add: P)
  qed
  have "err \<noteq> None \<longleftrightarrow> (\<exists>b n. (b, n) \<in> set ?es \<and> prune_fails en s ?c (b, n))" using R by (auto simp: P)
  then show "err \<noteq> None \<longleftrightarrow> (\<exists>b d t x. plain b \<and> fs_get f (on_disk s b) = Some (File d t) \<and> t \<le> now en - age \<and> \<not> info_err en b \<and>
      remove_err en (on_disk s b) = Some x \<and> \<not> err_is x ErrNotExist)"
    by (auto simp: mem prune_fails_iff)
  show "a \<le> 0 \<Longrightarrow> Prune en s a f = (([], None), f)" by (simp add: Prune_def)
qed

text \<open>What \<open>Prune\<close> removes. With a positive age and a readable directory it removes exactly the
  files, of any instance and abandoned uploads included, that are directly in the directory,
  could be stat-ed, were last written at or before the cutoff and whose removal did not
  fail; it returns their names in order and leaves everything else alone. It reports an
  error exactly when some stale file could not be removed for another reason than being gone,
  and goes on after it. With an age that is not positive it does nothing.\<close>

lemma prune_result:
  assumes "store_ok s" "fs_ok f" "0 < age" "readdir_err en (dir s) = None" "Prune en s age f = ((removed, err), f')"
  shows "(\<forall>b. b \<in> set removed \<longleftrightarrow> plain b \<and> (\<exists>d t. fs_get f (on_disk s b) = Some (File d t) \<and> t \<le> now en - age) \<and>
      \<not> info_err en b \<and> remove_err en (on_disk s b) = None) \<and>
    sorted removed \<and> distinct removed \<and>
    (\<forall>q. fs_get f' q = (if q \<in> on_disk s ` set removed then None else fs_get f q)) \<and>
    (err \<noteq> None \<longleftrightarrow> (\<exists>b d t x. plain b \<and> fs_get f (on_disk s b) = Some (File d t) \<and> t \<le> now en - age \<and> \<not> info_err en b \<and>
      remove_err en (on_disk s b) = Some x \<and> \<not> err_is x ErrNotExist)) \<and>
    (a \<le> 0 \<longrightarrow> Prune en s a f = (([], None), f))"
  using prune_result_facts [OF assms] by blast

lemma prune_result_witness:
  "\<exists>f'. Prune os0 raw0 985 fs0 = (([''dut2--k''], None), f') \<and> fs_get f' ''/srv/dut2--k'' = None \<and>
     fs_get f' ''/srv/.upload-1'' = Some (File ''y'' 20) \<and> Prune os0 raw0 0 fs0 = (([], None), fs0)"
proof -
  have "fst (Prune os0 raw0 985 fs0) = ([''dut2--k''], None)" by code_simp
  then obtain f' where p: "Prune os0 raw0 985 fs0 = (([''dut2--k''], None), f')" by (metis prod.collapse)
  have r: "readdir_err os0 (dir raw0) = None" by (simp add: os0_def)
  show ?thesis
    using p prune_result [OF stores_ok(1) fs0_ok _ r p, of 0]
    by (auto simp: on_disk_dut1 fs0_def fs_get_def)
qed

end
