(* ===== verification/Ssh_Exec.thy ===== *)
theory Ssh_Exec
  imports Go_Std
begin

text \<open>
  \<open>internal/sshexec\<close>: running a command on the target and copying files with the classic scp
  protocol. The SSH library and the network are the record \<open>ssh_net\<close>: what dialling, the
  handshake and the session answer. The two ends of a session's pipes are the record \<open>sio\<close>: the bytes
  the remote has sent and how its stream ends, the bytes written to it, and the outcome of the
  next writes (success once the list is used up).
\<close>

subsection \<open>The client\<close>

record ssh_config =
  Host :: string
  User :: string
  Password :: string
  PrivateKeyPath :: string
  PrivateKeyPEM :: bytes
  KnownHostsPath :: string
  DialTimeout :: duration

record ssh_result =
  ExitCode :: int
  Stdout :: bytes
  Stderr :: bytes
  TimedOut :: bool

definition no_result :: ssh_result where
  "no_result = \<lparr>ExitCode = 0, Stdout = [], Stderr = [], TimedOut = False\<rparr>"

definition NewClient :: "ssh_config \<Rightarrow> goerr + ssh_config" where
  "NewClient c = (if User c = [] then Inl (Err ''sshexec: user required'') else Inr c)"

datatype auth = PublicKeys bytes | PasswordAuth string
datatype host_check = InsecureIgnoreHostKey | KnownHosts string

text \<open>What a run of the remote command ends with.\<close>

datatype run_end = RunOk | ExitStatus int | ExitMissing | RunErr goerr

record ssh_net =
  read_file :: "string \<Rightarrow> goerr + bytes"
  parse_key :: "bytes \<Rightarrow> goerr option"
  known_hosts :: "string \<Rightarrow> goerr option"
  tcp_dial :: "string \<Rightarrow> duration \<Rightarrow> goerr option"
  handshake :: "string \<Rightarrow> string \<Rightarrow> auth list \<Rightarrow> host_check \<Rightarrow> goerr option"
  new_session :: "goerr option"
  pipes :: "goerr option"
  start_cmd :: "string \<Rightarrow> goerr option"
  run_end :: "string \<Rightarrow> run_end"
  out_bytes :: bytes
  err_bytes :: bytes
  ctx_end :: "goerr option"

definition authMethods :: "ssh_net \<Rightarrow> ssh_config \<Rightarrow> goerr + auth list" where
  "authMethods n c =
     (let key =
        (if PrivateKeyPEM c \<noteq> [] \<or> PrivateKeyPath c \<noteq> []
         then (case (if PrivateKeyPEM c = [] then read_file n (PrivateKeyPath c) else Inr (PrivateKeyPEM c)) of
                 Inl e \<Rightarrow> Inl (Wrap ''sshexec: read key'' e)
               | Inr pem \<Rightarrow> (case parse_key n pem of Some e \<Rightarrow> Inl (Wrap ''sshexec: parse key'' e)
                             | None \<Rightarrow> Inr [PublicKeys pem]))
         else Inr [])
      in case key of
           Inl e \<Rightarrow> Inl e
         | Inr ms \<Rightarrow>
             let ms' = ms @ (if Password c \<noteq> [] then [PasswordAuth (Password c)] else [])
             in if ms' = [] then Inl (Err ''sshexec: no auth configured (set password or private key)'')
                else Inr ms')"

definition knownHostsCallback :: "ssh_net \<Rightarrow> string \<Rightarrow> goerr + host_check" where
  "knownHostsCallback n p =
     (case known_hosts n p of
        Some e \<Rightarrow> Inl (Wrap (''sshexec: load known_hosts '' @ p) e)
      | None \<Rightarrow> Inr (KnownHosts p))"

definition hostKeyCallback :: "ssh_net \<Rightarrow> ssh_config \<Rightarrow> goerr + host_check" where
  "hostKeyCallback n c =
     (if KnownHostsPath c = [] then Inr InsecureIgnoreHostKey else knownHostsCallback n (KnownHostsPath c))"

definition withPort :: "string \<Rightarrow> string \<Rightarrow> string" where
  "withPort host def = (if split_host_port host \<noteq> None then host else join_host_port host def)"

definition dialTimeout :: "ssh_config \<Rightarrow> duration" where
  "dialTimeout c = (if DialTimeout c = 0 then 10 * second else DialTimeout c)"

definition ssh_dial :: "ssh_net \<Rightarrow> ssh_config \<Rightarrow> goerr + string" where
  "ssh_dial n c =
     (if Host c = [] then Inl (Err ''sshexec: no host configured'')
      else
      let addr = withPort (Host c) ''22''
      in case authMethods n c of
           Inl e \<Rightarrow> Inl e
         | Inr ms \<Rightarrow>
      (case hostKeyCallback n c of
           Inl e \<Rightarrow> Inl e
         | Inr hk \<Rightarrow>
      (case tcp_dial n addr (dialTimeout c) of
           Some e \<Rightarrow> Inl (Wrap (''sshexec: dial '' @ addr) e)
         | None \<Rightarrow>
      (case handshake n addr (User c) ms hk of
           Some e \<Rightarrow> Inl (Wrap (''sshexec: handshake '' @ addr) e)
         | None \<Rightarrow> Inr addr))))"

definition DialTCP :: "ssh_net \<Rightarrow> ssh_config \<Rightarrow> goerr + string" where
  "DialTCP n c =
     (if Host c = [] then Inl (Err ''sshexec: no host configured'')
      else let addr = withPort (Host c) ''22''
           in case tcp_dial n addr (dialTimeout c) of Some e \<Rightarrow> Inl e | None \<Rightarrow> Inr addr)"

text \<open>The network under a context that ends at the given deadline, if there is one.\<close>

definition deadline :: "duration \<Rightarrow> duration option" where
  "deadline timeout = (if 0 < timeout then Some timeout else None)"

definition Exec :: "(duration option \<Rightarrow> ssh_net) \<Rightarrow> ssh_config \<Rightarrow> string \<Rightarrow> duration \<Rightarrow> ssh_result \<times> goerr option" where
  "Exec net c command timeout =
     (let n = net (deadline timeout)
      in case ssh_dial n c of
           Inl e \<Rightarrow> (no_result, Some e)
         | Inr _ \<Rightarrow>
      (case new_session n of
           Some e \<Rightarrow> (no_result, Some (Wrap ''sshexec: new session'' e))
         | None \<Rightarrow>
             let res = no_result\<lparr>Stdout := out_bytes n, Stderr := err_bytes n\<rparr>
             in if ctx_end n = Some Deadline then (res\<lparr>TimedOut := True\<rparr>, None)
                else case run_end n command of
                       RunOk \<Rightarrow> (res\<lparr>ExitCode := 0\<rparr>, None)
                     | ExitStatus x \<Rightarrow> (res\<lparr>ExitCode := x\<rparr>, None)
                     | ExitMissing \<Rightarrow>
                         if ctx_end n \<noteq> None then (res\<lparr>TimedOut := True\<rparr>, None)
                         else (res, Some (Wrap (''sshexec: run '' @ quote command) (Err ''wait: remote command exited without exit status or exit signal'')))
                     | RunErr e \<Rightarrow> (res, Some (Wrap (''sshexec: run '' @ quote command) e))))"

subsection \<open>The pipes of a session\<close>

record sio =
  inbuf :: bytes
  inend :: goerr
  outbuf :: bytes
  wres :: "goerr option list"

definition io_write :: "bytes \<Rightarrow> sio \<Rightarrow> goerr option \<times> sio" where
  "io_write b s =
     (case wres s of
        [] \<Rightarrow> (None, s\<lparr>outbuf := outbuf s @ b\<rparr>)
      | None # ws \<Rightarrow> (None, s\<lparr>outbuf := outbuf s @ b, wres := ws\<rparr>)
      | Some e # ws \<Rightarrow> (Some e, s\<lparr>wres := ws\<rparr>))"

definition ReadByte :: "sio \<Rightarrow> (goerr + char) \<times> sio" where
  "ReadByte s = (case inbuf s of [] \<Rightarrow> (Inl (inend s), s) | b # bs \<Rightarrow> (Inr b, s\<lparr>inbuf := bs\<rparr>))"

text \<open>\<open>ReadString('\n')\<close>: what was read and the error, if the stream ended first.\<close>

definition ReadLine :: "sio \<Rightarrow> (string \<times> goerr option) \<times> sio" where
  "ReadLine s =
     (case index_char (inbuf s) LF of
        None \<Rightarrow> ((inbuf s, Some (inend s)), s\<lparr>inbuf := []\<rparr>)
      | Some i \<Rightarrow> ((take (Suc i) (inbuf s), None), s\<lparr>inbuf := drop (Suc i) (inbuf s)\<rparr>))"

definition hex_byte :: "char \<Rightarrow> string" where
  "hex_byte b = ''0x'' @ to_base 16 (ord b)"

definition scpReadAck :: "sio \<Rightarrow> goerr option \<times> sio" where
  "scpReadAck s =
     (case ReadByte s of
        (Inl e, s1) \<Rightarrow> (Some (Wrap ''scp: read ack'' e), s1)
      | (Inr b, s1) \<Rightarrow>
          if b = byte 0 then (None, s1)
          else if b = byte 1 \<or> b = byte 2
          then (case ReadLine s1 of ((msg, _), s2) \<Rightarrow> (Some (Err (''scp remote: '' @ trim_space msg)), s2))
          else (Some (Err (''scp: unexpected ack byte '' @ hex_byte b)), s1))"

subsection \<open>The protocol\<close>

record scp_meta =
  mSize :: int
  mMode :: nat
  mName :: string

definition Perm :: "nat \<Rightarrow> nat" where "Perm m = m mod 512"

definition baseName :: "string \<Rightarrow> string" where
  "baseName p0 =
     (let p = trim_right p0 ''/'';
          q = (case last_index_char p (CHR ''/'') of None \<Rightarrow> p | Some i \<Rightarrow> drop (i + 1) p)
      in if q = [] then ''file'' else q)"

definition shellQuote :: "string \<Rightarrow> string" where
  "shellQuote s = [CHR 0x27] @ replace_char s (CHR 0x27) [CHR 0x27, CHR 0x5C, CHR 0x27, CHR 0x27] @ [CHR 0x27]"

definition parseSCPFileLine :: "string \<Rightarrow> goerr + scp_meta" where
  "parseSCPFileLine line =
     (case split_n (trim_right line [CR, LF]) (CHR '' '') 3 of
        [f0, f1, f2] \<Rightarrow>
          if length f0 < 2 \<or> hd f0 \<noteq> CHR ''C'' then Inl (Err (''scp: malformed file record '' @ quote line))
          else (case parse_uint (drop 1 f0) 8 32 of
                  None \<Rightarrow> Inl (Wrap (''scp: bad mode in '' @ quote line) (Err ''strconv.ParseUint''))
                | Some mode \<Rightarrow>
                    (case parse_int64 f1 of
                       None \<Rightarrow> Inl (Wrap (''scp: bad size in '' @ quote line) (Err ''strconv.ParseInt''))
                     | Some sz \<Rightarrow> Inr \<lparr>mSize = sz, mMode = Perm mode, mName = f2\<rparr>))
      | _ \<Rightarrow> Inl (Err (''scp: malformed file record '' @ quote line)))"

text \<open>The upload: \<open>src\<close> is what the body reader yields and the error it ends with (\<open>EOF_err\<close>
  when it simply ends).\<close>

definition scp_header :: "nat \<Rightarrow> int \<Rightarrow> string \<Rightarrow> bytes" where
  "scp_header mode sz name =
     ''C'' @ zero_pad 4 (to_base 8 (Perm mode)) @ '' '' @ itoa sz @ '' '' @ name @ [LF]"

definition upload_run :: "nat \<Rightarrow> int \<Rightarrow> string \<Rightarrow> bytes \<times> goerr \<Rightarrow> sio \<Rightarrow> goerr option \<times> sio" where
  "upload_run mode sz name src s =
     (case scpReadAck s of
        (Some e, s1) \<Rightarrow> (Some e, s1)
      | (None, s1) \<Rightarrow>
     (case io_write (scp_header mode sz name) s1 of
        (Some e, s2) \<Rightarrow> (Some e, s2)
      | (None, s2) \<Rightarrow>
     (case scpReadAck s2 of
        (Some e, s3) \<Rightarrow> (Some e, s3)
      | (None, s3) \<Rightarrow>
          let body = take (nat sz) (fst src)
          in case (if body = [] then (None, s3) else io_write body s3) of
               (Some e, s4) \<Rightarrow> (Some (Wrap (''scp: send body (0/'' @ itoa sz @ '' bytes)'') e), s4)
             | (None, s4) \<Rightarrow>
                 if length body < nat sz
                 then (Some (Wrap (''scp: send body ('' @ itoa (int (length body)) @ ''/'' @ itoa sz @ '' bytes)'') (snd src)), s4)
                 else (case io_write [byte 0] s4 of
                         (Some e, s5) \<Rightarrow> (Some e, s5)
                       | (None, s5) \<Rightarrow> scpReadAck s5))))"

text \<open>The download. The sink gets the record and a reader over the next \<open>Size\<close> bytes (what is
  there, and how that reader ends), and returns its error and how many bytes it took.\<close>

type_synonym sink = "scp_meta \<Rightarrow> bytes \<times> goerr \<Rightarrow> goerr option \<times> nat"

definition run_sink :: "sink \<Rightarrow> scp_meta \<Rightarrow> sio \<Rightarrow> goerr option \<times> sio" where
  "run_sink sink m s =
     (let body = take (nat (mSize m)) (inbuf s);
          end = (if length body = nat (mSize m) then EOF_err else inend s);
          (e, n) = sink m (body, end)
      in (e, s\<lparr>inbuf := drop (min n (length body)) (inbuf s)\<rparr>))"

lemma ReadLine_shrinks: "ReadLine s = ((l, None), s1) \<Longrightarrow> length (inbuf s1) < length (inbuf s)"
  by (auto simp: ReadLine_def split: option.splits dest: index_char_less)

function (sequential) download_loop :: "string \<Rightarrow> sink \<Rightarrow> sio \<Rightarrow> goerr option \<times> sio" where
  "download_loop remote sink s =
     (case ReadLine s of
        ((line, Some e), s1) \<Rightarrow>
          (Some (if e = EOF_err \<and> line = [] then Err ''scp: no file received (source produced no data)''
                 else Wrap ''scp: read control'' e), s1)
      | ((line, None), s1) \<Rightarrow>
          if hd line = CHR ''T''
          then (case io_write [byte 0] s1 of
                  (Some e, s2) \<Rightarrow> (Some e, s2)
                | (None, s2) \<Rightarrow> download_loop remote sink s2)
          else if hd line = byte 1 \<or> hd line = byte 2 then (Some (Err (''scp remote: '' @ trim_space (drop 1 line))), s1)
          else if hd line = CHR ''D'' \<or> hd line = CHR ''E''
          then (Some (Err (''scp: '' @ quote remote @ '' is a directory (recursive download unsupported)'')), s1)
          else if hd line = CHR ''C''
          then (case parseSCPFileLine line of
                  Inl e \<Rightarrow> (Some e, s1)
                | Inr m \<Rightarrow>
               (case io_write [byte 0] s1 of
                  (Some e, s2) \<Rightarrow> (Some e, s2)
                | (None, s2) \<Rightarrow>
               (case run_sink sink m s2 of
                  (Some e, s3) \<Rightarrow> (Some e, s3)
                | (None, s3) \<Rightarrow>
               (case scpReadAck s3 of
                  (Some e, s4) \<Rightarrow> (Some e, s4)
                | (None, s4) \<Rightarrow> io_write [byte 0] s4))))
          else (Some (Err (''scp: unexpected control byte '' @ hex_byte (hd line))), s1))"
  by pat_completeness auto
termination
  by (relation "measure (\<lambda>(_, _, s). length (inbuf s))")
    (auto simp: io_write_def dest!: ReadLine_shrinks [OF sym] split: list.splits option.splits)

declare download_loop.simps [simp del]

definition download_run :: "string \<Rightarrow> sink \<Rightarrow> sio \<Rightarrow> goerr option \<times> sio" where
  "download_run remote sink s =
     (case io_write [byte 0] s of
        (Some e, s1) \<Rightarrow> (Some e, s1)
      | (None, s1) \<Rightarrow> download_loop remote sink s1)"


subsection \<open>The session around the protocol\<close>

record scp_net = ssh_net +
  sess_io :: sio
  wait_end :: run_end

definition annotateSCPErr :: "goerr \<Rightarrow> bytes \<Rightarrow> goerr" where
  "annotateSCPErr e err = (let s = trim_space err in if s \<noteq> [] then WrapTail e ('' (remote: '' @ s @ '')'') else e)"

text \<open>The error, and the pipes at the end when the remote command was started.\<close>

definition scpSession :: "(duration option \<Rightarrow> scp_net) \<Rightarrow> ssh_config \<Rightarrow> string \<Rightarrow> duration
    \<Rightarrow> (sio \<Rightarrow> goerr option \<times> sio) \<Rightarrow> goerr option \<times> sio option" where
  "scpSession net c command timeout run =
     (let n = net (deadline timeout)
      in case ssh_dial (ssh_net.truncate n) c of
           Inl e \<Rightarrow> (Some e, None)
         | Inr _ \<Rightarrow>
      (case new_session n of
           Some e \<Rightarrow> (Some (Wrap ''sshexec: new session'' e), None)
         | None \<Rightarrow>
      (case pipes n of
           Some e \<Rightarrow> (Some e, None)
         | None \<Rightarrow>
      (case start_cmd n command of
           Some e \<Rightarrow> (Some (Wrap (''sshexec: start '' @ quote command) e), None)
         | None \<Rightarrow>
             let (runErr, s) = run (sess_io n)
             in (case ctx_end n of
                   Some e \<Rightarrow> Some (Wrap ''scp'' e)
                 | None \<Rightarrow>
                (case runErr of
                   Some e \<Rightarrow> Some (annotateSCPErr e (err_bytes n))
                 | None \<Rightarrow>
                (case wait_end n of
                   RunOk \<Rightarrow> None
                 | ExitMissing \<Rightarrow> None
                 | ExitStatus x \<Rightarrow> Some (annotateSCPErr (Wrap ''scp: remote exited'' (Err (''Process exited with status '' @ itoa x))) (err_bytes n))
                 | RunErr e \<Rightarrow> Some (annotateSCPErr (Wrap ''scp: remote exited'' e) (err_bytes n)))), Some s)))))"

definition SCPUpload :: "(duration option \<Rightarrow> scp_net) \<Rightarrow> ssh_config \<Rightarrow> string \<Rightarrow> nat \<Rightarrow> int \<Rightarrow> bytes \<times> goerr \<Rightarrow> duration
    \<Rightarrow> goerr option \<times> sio option" where
  "SCPUpload net c remotePath mode0 sz src timeout =
     (if sz < 0 then (Some (Err ''sshexec: negative size''), None)
      else let mode = (if mode0 = 0 then 420 else mode0)
           in scpSession net c (''scp -t -- '' @ shellQuote remotePath) timeout (upload_run mode sz (baseName remotePath) src))"

definition SCPDownload :: "(duration option \<Rightarrow> scp_net) \<Rightarrow> ssh_config \<Rightarrow> string \<Rightarrow> duration \<Rightarrow> sink \<Rightarrow> goerr option \<times> sio option" where
  "SCPDownload net c remotePath timeout sink =
     scpSession net c (''scp -f -- '' @ shellQuote remotePath) timeout (download_run remotePath sink)"

subsection \<open>The command line on the target\<close>

text \<open>How a POSIX shell splits a command line into words, for lines of plain words, single quotes
  and escapes; \<open>None\<close> when an unquoted character means something else or a quote stays open.\<close>

fun sh_lex :: "bool \<Rightarrow> string option \<Rightarrow> string \<Rightarrow> string list option" where
  "sh_lex True w [] = None"
| "sh_lex False w [] = Some (case w of None \<Rightarrow> [] | Some x \<Rightarrow> [x])"
| "sh_lex True w (c # s) =
     (if c = CHR 0x27 then sh_lex False w s else sh_lex True (Some (case w of None \<Rightarrow> [c] | Some x \<Rightarrow> x @ [c])) s)"
| "sh_lex False w (c # s) =
     (if c = CHR 0x27 then sh_lex True (Some (case w of None \<Rightarrow> [] | Some x \<Rightarrow> x)) s
      else if c = CHR '' '' then (case w of None \<Rightarrow> sh_lex False None s | Some x \<Rightarrow> map_option ((#) x) (sh_lex False None s))
      else if c = CHR 0x5C then (case s of [] \<Rightarrow> None | d # t \<Rightarrow> if d = LF then None else sh_lex False (Some (case w of None \<Rightarrow> [d] | Some x \<Rightarrow> x @ [d])) t)
      else if c \<in> set (CHR 0x22 # ''$&|;<>()*?[]#~=%!{}`'' @ [TAB, LF]) then None
      else sh_lex False (Some (case w of None \<Rightarrow> [c] | Some x \<Rightarrow> x @ [c])) s)"

definition sh_words :: "string \<Rightarrow> string list option" where
  "sh_words s = sh_lex False None s"

lemma sh_quoted:
  "sh_lex True (Some a) (replace_char s (CHR 0x27) [CHR 0x27, CHR 0x5C, CHR 0x27, CHR 0x27] @ CHR 0x27 # t) =
     sh_lex False (Some (a @ s)) t"
  by (induction s arbitrary: a) (auto simp: replace_char_def)

lemma sh_shellQuote: "sh_lex False None (shellQuote s) = Some [s]"
  using sh_quoted [of "[]" s "[]"] by (simp add: shellQuote_def)


subsection \<open>Uploads\<close>

lemma upload_shape:
  assumes "upload_run mode sz name src s = (r, s')"
  shows "\<exists>d. outbuf s' = outbuf s @ d \<and> prefix d (scp_header mode sz name @ take (nat sz) (fst src) @ [byte 0]) \<and>
    (r = None \<longrightarrow> d = scp_header mode sz name @ take (nat sz) (fst src) @ [byte 0] \<and> nat sz \<le> length (fst src) \<and>
       inbuf s = [byte 0, byte 0, byte 0] @ inbuf s')"
proof -
  have ack: "outbuf t' = outbuf t \<and> (x = None \<longrightarrow> inbuf t = byte 0 # inbuf t')" if "scpReadAck t = (x, t')" for t x t'
    using that by (auto simp: scpReadAck_def ReadByte_def ReadLine_def split: list.splits if_splits option.splits)
  have wr: "inbuf t' = inbuf t \<and> outbuf t' = outbuf t @ (if x = None then b else [])" if "io_write b t = (x, t')" for b t x t'
    using that by (auto simp: io_write_def split: list.splits option.splits)
  let ?h = "scp_header mode sz name" and ?b = "take (nat sz) (fst src)"
  obtain x1 s1 where 1: "scpReadAck s = (x1, s1)" by force
  obtain x2 s2 where 2: "io_write ?h s1 = (x2, s2)" by force
  obtain x3 s3 where 3: "scpReadAck s2 = (x3, s3)" by force
  obtain x4 s4 where 4: "(if ?b = [] then (None, s3) else io_write ?b s3) = (x4, s4)" by force
  obtain x5 s5 where 5: "io_write [byte 0] s4 = (x5, s5)" by force
  obtain x6 s6 where 6: "scpReadAck s5 = (x6, s6)" by force
  have b: "inbuf s4 = inbuf s3 \<and> outbuf s4 = outbuf s3 @ (if x4 = None then ?b else [])"
    using 4 wr by (auto split: if_splits)
  note f = ack [OF 1] wr [OF 2] ack [OF 3] b wr [OF 5] ack [OF 6]
  note steps = upload_run_def 1 2 3 4 5 6 Let_def
  consider "x1 \<noteq> None \<or> x2 \<noteq> None" | "x1 = None" "x2 = None" "x3 \<noteq> None \<or> x4 \<noteq> None"
    | "x1 = None" "x2 = None" "x3 = None" "x4 = None" "length ?b < nat sz \<or> x5 \<noteq> None"
    | "x1 = None" "x2 = None" "x3 = None" "x4 = None" "\<not> length ?b < nat sz" "x5 = None"
    by blast
  then show ?thesis
  proof cases
    case 1
    with assms f have "outbuf s' = outbuf s" "r \<noteq> None" by (auto simp: steps simp del: take_eq_Nil take_eq_Nil2 split: option.splits)
    then show ?thesis by simp
  next
    case 2
    with assms f have "outbuf s' = outbuf s @ ?h" "r \<noteq> None" by (auto simp: steps simp del: take_eq_Nil take_eq_Nil2 split: option.splits)
    then show ?thesis by simp
  next
    case 3
    with assms f have "outbuf s' = outbuf s @ ?h @ ?b" "r \<noteq> None" by (auto simp: steps simp del: take_eq_Nil take_eq_Nil2 length_take split: option.splits if_splits)
    then show ?thesis by simp
  next
    case 4
    with assms have r: "r = x6" "s' = s6" by (auto simp: steps simp del: take_eq_Nil take_eq_Nil2 length_take)
    have "outbuf s' = outbuf s @ ?h @ ?b @ [byte 0]" using 4 f r by simp
    moreover have "x6 = None \<longrightarrow> inbuf s = [byte 0, byte 0, byte 0] @ inbuf s'" using 4 f r by auto
    moreover have "nat sz \<le> length (fst src)" using 4(5) by auto
    ultimately show ?thesis using r by auto
  qed
qed

lemma upload_completes:
  assumes "inbuf s = [byte 0, byte 0, byte 0] @ rest" "wres s = []" "nat sz \<le> length (fst src)"
  shows "fst (upload_run mode sz name src s) = None"
  using assms by (simp add: upload_run_def scpReadAck_def ReadByte_def io_write_def Let_def)

text \<open>C22: What an upload does on the wire, for every remote. It writes a prefix of the file record, the
  announced number of bytes of the body and the terminating zero byte, never more; it
  succeeds only if all of that was written and the remote acknowledged three times (when ready, the record,
  the file) with a zero byte each, and when the remote does and the writes go through it does succeed.
  So a source with fewer bytes than announced never looks like a complete upload.\<close>

theorem upload_protocol:
  assumes "upload_run mode sz name src s = (r, s')"
  shows "(\<exists>d. outbuf s' = outbuf s @ d \<and> prefix d (scp_header mode sz name @ take (nat sz) (fst src) @ [byte 0]) \<and>
      (r = None \<longrightarrow> d = scp_header mode sz name @ take (nat sz) (fst src) @ [byte 0] \<and> nat sz \<le> length (fst src) \<and>
         inbuf s = [byte 0, byte 0, byte 0] @ inbuf s')) \<and>
    (prefix [byte 0, byte 0, byte 0] (inbuf s) \<and> wres s = [] \<and> nat sz \<le> length (fst src) \<longrightarrow> r = None)"
  using upload_shape [OF assms] upload_completes [of s _ sz src mode name] assms by (auto simp: prefix_def)

theorem upload_protocol_witness:
  "\<exists>s'. upload_run 420 3 ''k.img'' (''abc'', EOF_err) \<lparr>inbuf = [byte 0, byte 0, byte 0], inend = EOF_err, outbuf = [], wres = []\<rparr> = (None, s') \<and>
     outbuf s' = ''C0644 3 k.img'' @ [LF] @ ''abc'' @ [byte 0]"
proof -
  let ?s = "\<lparr>inbuf = [byte 0, byte 0, byte 0], inend = EOF_err, outbuf = [], wres = []\<rparr>"
  obtain r s' where u: "upload_run 420 3 ''k.img'' (''abc'', EOF_err) ?s = (r, s')" by force
  have h: "scp_header 420 3 ''k.img'' @ take (nat 3) ''abc'' @ [byte 0] = ''C0644 3 k.img'' @ [LF] @ ''abc'' @ [byte 0]" by code_simp
  from upload_protocol [OF u] have "r = None" by simp
  with upload_protocol [OF u] h u show ?thesis by auto
qed


subsection \<open>Downloads\<close>

lemma trim_right_snoc: "c \<in> set cs \<Longrightarrow> trim_right (s @ [c]) cs = trim_right s cs"
  by (simp add: trim_right_def)

lemma digits_no: "digit_val c = None \<Longrightarrow> c \<notin> set (to_base 8 n)" "digit_val c = None \<Longrightarrow> c \<notin> set (to_base 10 n)"
  using to_base_digits [of 8 c n] to_base_digits [of 10 c n] by auto

lemma header_parts:
  assumes "0 \<le> sz"
  shows "CHR '' '' \<notin> set (zero_pad 4 (to_base 8 m))" "CHR '' '' \<notin> set (itoa sz)"
    "LF \<notin> set (zero_pad 4 (to_base 8 m))" "LF \<notin> set (itoa sz)"
proof -
  have n: "digit_val (CHR '' '') = None" "digit_val LF = None" by (simp_all add: digit_val_def ord_def)
  show "CHR '' '' \<notin> set (zero_pad 4 (to_base 8 m))" "CHR '' '' \<notin> set (itoa sz)"
    "LF \<notin> set (zero_pad 4 (to_base 8 m))" "LF \<notin> set (itoa sz)"
    using digits_no [OF n(1)] digits_no [OF n(2)] assms by (auto simp: zero_pad_def itoa_def)
qed

lemma parse_header:
  assumes "name \<noteq> []" "LF \<notin> set name" "last name \<noteq> CR" "0 \<le> sz" "sz < 2 ^ 63"
  shows "parseSCPFileLine (scp_header mode sz name) = Inr \<lparr>mSize = sz, mMode = Perm mode, mName = name\<rparr>"
proof -
  let ?m = "zero_pad 4 (to_base 8 (Perm mode))"
  let ?l = "(CHR ''C'' # ?m) @ CHR '' '' # itoa sz @ CHR '' '' # name"
  have "last name \<noteq> LF" using assms(1,2) by (metis last_in_set)
  then have "trim_right ?l [CR, LF] = ?l" using assms(1,3) by (intro trim_right_last) auto
  moreover have "scp_header mode sz name = ?l @ [LF]" by (simp add: scp_header_def)
  ultimately have t: "trim_right (scp_header mode sz name) [CR, LF] = ?l"
    by (metis trim_right_snoc list.set_intros(1) list.set_intros(2))
  have "CHR '' '' \<notin> set (CHR ''C'' # ?m)" using header_parts(1) [OF assms(4)] by simp
  then have sp: "split_n ?l (CHR '' '') 3 = [CHR ''C'' # ?m, itoa sz, name]"
    using header_parts(2) [OF assms(4)] by (simp add: numeral_3_eq_3 index_char_append del: append_Cons)
  have "Perm mode < 2 ^ 32" by (simp add: Perm_def order.strict_trans2 [of _ 512])
  then have "parse_uint ?m 8 32 = Some (Perm mode)" by (intro parse_uint_zero_pad) auto
  moreover have "Perm (Perm mode) = Perm mode" by (simp add: Perm_def)
  moreover have "?m \<noteq> []" by (simp add: zero_pad_def)
  ultimately show ?thesis
    unfolding parseSCPFileLine_def t sp using parse_int64_itoa [OF assms(4,5)] by (simp add: Suc_le_eq)
qed

text \<open>C23: What an upload writes is what a download reads. Feed the bytes of a successful
  upload to \<open>SCPDownload\<close>'s side of the protocol: for a non-empty name without a line feed that
  does not end in a carriage return, it hands its sink the same size, permissions and name and a reader
  over exactly the body, and when the sink takes the body it succeeds, having used up
  everything and written the three zero bytes the upload waited for.\<close>

theorem scp_roundtrip:
  assumes "name \<noteq> []" "LF \<notin> set name" "last name \<noteq> CR" "0 \<le> sz" "sz < 2 ^ 63" "length body = nat sz"
    "upload_run mode sz name (body @ rest, e) s = (None, u)" "outbuf s = []"
    "sink \<lparr>mSize = sz, mMode = Perm mode, mName = name\<rparr> (body, EOF_err) = (None, length body)"
  shows "\<exists>d. download_run remote sink \<lparr>inbuf = outbuf u, inend = x, outbuf = [], wres = []\<rparr> = (None, d) \<and>
    outbuf d = [byte 0, byte 0, byte 0] \<and> inbuf d = []"
proof -
  let ?h = "scp_header mode sz name"
  have u: "outbuf u = ?h @ body @ [byte 0]"
    using upload_shape [OF assms(7)] assms(6,8) by auto
  obtain h where h: "?h = h @ [LF]" "LF \<notin> set h" "hd ?h = CHR ''C''"
    using header_parts [OF assms(4)] assms(2) by (auto simp: scp_header_def)
  have line: "ReadLine \<lparr>inbuf = ?h @ body @ [byte 0], inend = x, outbuf = o1, wres = []\<rparr> =
      ((?h, None), \<lparr>inbuf = body @ [byte 0], inend = x, outbuf = o1, wres = []\<rparr>)" for o1
    using index_char_append [OF h(2), of "body @ [byte 0]"] by (simp add: ReadLine_def h(1))
  have not_special: "CHR ''C'' \<noteq> byte (Suc 0)" "CHR ''C'' \<noteq> byte 2" by (simp_all add: ord_eq_iff ord_def byte_def)
  show ?thesis
    unfolding download_run_def u
    using assms(6,9) parse_header [OF assms(1-5)]
    by (simp add: io_write_def download_loop.simps [of remote sink] line h(3) not_special run_sink_def scpReadAck_def ReadByte_def)
qed

theorem scp_roundtrip_witness:
  "\<exists>u d. upload_run 420 3 ''k.img'' (''abc'', EOF_err) \<lparr>inbuf = [byte 0, byte 0, byte 0], inend = EOF_err, outbuf = [], wres = []\<rparr> = (None, u) \<and>
     download_run ''/tmp/k.img'' (\<lambda>m (b, e). if m = \<lparr>mSize = 3, mMode = 420, mName = ''k.img''\<rparr> then (None, length b) else (Some (Err []), 0))
       \<lparr>inbuf = outbuf u, inend = EOF_err, outbuf = [], wres = []\<rparr> = (None, d) \<and> outbuf d = [byte 0, byte 0, byte 0]"
proof -
  let ?s = "\<lparr>inbuf = [byte 0, byte 0, byte 0], inend = EOF_err, outbuf = [], wres = []\<rparr>"
  have "fst (upload_run 420 3 ''k.img'' (''abc'' @ [], EOF_err) ?s) = None"
    by (rule upload_completes) auto
  then obtain u where u: "upload_run 420 3 ''k.img'' (''abc'' @ [], EOF_err) ?s = (None, u)" by (metis prod.collapse)
  have p: "Perm 420 = 420" by (simp add: Perm_def)
  from scp_roundtrip [OF _ _ _ _ _ _ u, where sink = "\<lambda>m (b, e). if m = \<lparr>mSize = 3, mMode = 420, mName = ''k.img''\<rparr> then (None, length b) else (Some (Err []), 0)"
      and remote = "''/tmp/k.img''" and x = EOF_err]
  show ?thesis using u by (auto simp: p)
qed

text \<open>The record that \<open>SCPUpload\<close> announces is not protected against the name: a remote path with a
  line feed puts a second record on the wire. And a record with a negative size is accepted.\<close>

lemma header_injection:
  "scp_header 420 5 (baseName (''/tmp/a'' @ [LF] @ ''C0777 9 b'')) = ''C0644 5 a'' @ [LF] @ ''C0777 9 b'' @ [LF]"
  by code_simp

lemma negative_record: "parseSCPFileLine (''C0644 -5 x'' @ [LF]) = Inr \<lparr>mSize = - 5, mMode = 420, mName = ''x''\<rparr>"
  by (simp add: parseSCPFileLine_def trim_right_def numeral_3_eq_3 parse_uint_def digit_val_def ord_def parse_int64_def Perm_def)

lemma withPort_bracketed: "withPort ''[::1]'' ''22'' = ''[[::1]]:22''"
  by code_simp

subsection \<open>Commands\<close>

text \<open>C24: What \<open>Exec\<close> reports. Without an error the command was started on a connection that came up,
  so with credentials; the output collected so far is returned; it is marked as timed out exactly when
  the deadline had passed, or the session ended without a status under a context that was over; and otherwise the
  exit code is the remote's, which may be anything but is no error. A connection that cannot be made, or a
  session that ends in any other way, is an error.\<close>

theorem Exec_outcome:
  assumes "n = net (deadline timeout)" "Exec net c command timeout = (res, err)"
  shows "(err = None \<longrightarrow>
      (\<exists>addr ms. ssh_dial n c = Inr addr \<and> authMethods n c = Inr ms \<and> ms \<noteq> []) \<and> new_session n = None \<and>
      Stdout res = out_bytes n \<and> Stderr res = err_bytes n \<and>
      (TimedOut res \<longleftrightarrow> ctx_end n = Some Deadline \<or> run_end n command = ExitMissing \<and> ctx_end n \<noteq> None) \<and>
      (\<not> TimedOut res \<longrightarrow> run_end n command = RunOk \<and> ExitCode res = 0 \<or> run_end n command = ExitStatus (ExitCode res))) \<and>
    (ctx_end n = Some Deadline \<and> new_session n = None \<and> (\<exists>addr. ssh_dial n c = Inr addr) \<longrightarrow> err = None) \<and>
    (\<forall>e. ssh_dial n c = Inl e \<longrightarrow> err = Some e)"
proof -
  have auth: "\<exists>ms. authMethods n c = Inr ms \<and> ms \<noteq> []" if "ssh_dial n c = Inr a" for a
    using that by (cases "authMethods n c") (auto simp: ssh_dial_def authMethods_def Let_def split: if_splits sum.splits option.splits)
  show ?thesis
  proof (cases "ssh_dial n c")
    case (Inl e)
    with assms show ?thesis by (auto simp: Exec_def Let_def)
  next
    case (Inr a)
    from auth [OF this] obtain ms where "authMethods n c = Inr ms" "ms \<noteq> []" by blast
    with assms Inr show ?thesis
      by (auto simp: Exec_def Let_def no_result_def split: option.splits run_end.splits if_splits)
  qed
qed

definition net0 :: ssh_net where
  "net0 = \<lparr>read_file = (\<lambda>_. Inr []), parse_key = (\<lambda>_. None), known_hosts = (\<lambda>_. None), tcp_dial = (\<lambda>_ _. None),
     handshake = (\<lambda>_ _ _ _. None), new_session = None, pipes = None, start_cmd = (\<lambda>_. None), run_end = (\<lambda>_. ExitStatus 3),
     out_bytes = ''hi'', err_bytes = [], ctx_end = None\<rparr>"

definition root_at :: "string \<Rightarrow> ssh_config" where
  "root_at h = \<lparr>Host = h, User = ''root'', Password = ''pw'', PrivateKeyPath = [], PrivateKeyPEM = [], KnownHostsPath = [], DialTimeout = 0\<rparr>"

theorem Exec_outcome_witness:
  "\<exists>res. Exec (\<lambda>_. net0) (root_at ''10.0.0.2'') ''false'' 0 = (res, None) \<and> \<not> TimedOut res \<and> ExitCode res = 3 \<and> Stdout res = ''hi''"
proof -
  have "snd (Exec (\<lambda>_. net0) (root_at ''10.0.0.2'') ''false'' 0) = None" by code_simp
  then obtain res where e: "Exec (\<lambda>_. net0) (root_at ''10.0.0.2'') ''false'' 0 = (res, None)" by (metis prod.collapse)
  from Exec_outcome [OF refl e] have "\<not> TimedOut res \<and> ExitCode res = 3 \<and> Stdout res = ''hi''" by (auto simp: net0_def)
  with e show ?thesis by blast
qed

end
