(* ===== verification/Rpc_Gate.thy ===== *)
theory Rpc_Gate
  imports Session_Lock
begin

text \<open>
  \<open>internal/server/session.go\<close>: the session RPCs and the interceptors that put the hardware
  lock in front of every operational RPC. A handler is a function of the lock and of whatever
  else the daemon has (\<open>'s\<close>); it may run for long and let others use the lock, so it may return
  the lock in another state. Each critical section reads its own clock. The time axis starts at Go's zero
  time.
\<close>

subsection \<open>gRPC errors\<close>

datatype code =
  Code_Canceled | Code_InvalidArgument | Code_DeadlineExceeded | Code_NotFound | Code_FailedPrecondition | Code_Aborted
  | Code_Unimplemented | Code_Internal | Code_Unavailable

text \<open>What a handler returns as its error: a status, or an error gRPC itself turns into one.\<close>

datatype rpc_err = Status code string | Plain goerr

text \<open>The code names of gRPC and the text of an RPC error at the client.\<close>

definition code_name :: "code \<Rightarrow> string" where
  "code_name c =
     (case c of Code_Canceled \<Rightarrow> ''Canceled'' | Code_InvalidArgument \<Rightarrow> ''InvalidArgument''
      | Code_DeadlineExceeded \<Rightarrow> ''DeadlineExceeded'' | Code_NotFound \<Rightarrow> ''NotFound''
      | Code_FailedPrecondition \<Rightarrow> ''FailedPrecondition'' | Code_Aborted \<Rightarrow> ''Aborted''
      | Code_Unimplemented \<Rightarrow> ''Unimplemented'' | Code_Internal \<Rightarrow> ''Internal'' | Code_Unavailable \<Rightarrow> ''Unavailable'')"

definition rpc_text :: "rpc_err \<Rightarrow> string" where
  "rpc_text e =
     (case e of Status c m \<Rightarrow> ''rpc error: code = '' @ code_name c @ '' desc = '' @ m | Plain x \<Rightarrow> err_text x)"

definition unix_epoch :: time where "unix_epoch = 62135596800000000000"

definition UnixMilli :: "time \<Rightarrow> int" where
  "UnixMilli t = (t - unix_epoch) div millisecond"

definition SessionMetadataKey :: string where
  "SessionMetadataKey = ''unwedge-session-id''"

definition full_method :: "string \<Rightarrow> string" where
  "full_method m = ''/unwedge.v1.Unwedge/'' @ m"

definition sessionExemptMethods :: "string list" where
  "sessionExemptMethods =
     map full_method [''GetStatus'', ''StreamConsole'', ''ReadConsoleLog'', ''StartSession'', ''FinishSession'', ''Ping'']"

text \<open>The incoming metadata, if there is any; \<open>Get\<close> looks a key up in lower case.\<close>

definition sessionIDFromContext :: "(string \<times> string list) list option \<Rightarrow> string" where
  "sessionIDFromContext md =
     (case md of
        None \<Rightarrow> []
      | Some kv \<Rightarrow>
          (case map_of kv (to_lower SessionMetadataKey) of
             Some (v # vs) \<Rightarrow> v
           | _ \<Rightarrow> []))"

subsection \<open>Session RPCs\<close>

record start_response =
  SessionId :: string
  ExpiresAtUnixMs :: int
  TtlMs :: int

definition busy_text :: "(time \<Rightarrow> string) \<Rightarrow> string \<Rightarrow> time \<Rightarrow> string" where
  "busy_text rfc3339 own t = ''hardware is locked by '' @ quote own @ '' (lock expires '' @ rfc3339 t @ '')''"

text \<open>\<open>acquire own wait\<close> is \<open>Sessions.Acquire\<close>: its outcome is reached by the steps of
  \<open>lock_step\<close>.\<close>

definition StartSession :: "(time \<Rightarrow> string) \<Rightarrow> bool \<Rightarrow> duration \<Rightarrow> (string \<Rightarrow> duration \<Rightarrow> info + acquire_err) \<Rightarrow> string \<Rightarrow> int
    \<Rightarrow> rpc_err + start_response" where
  "StartSession rfc3339 sessions sttl acquire own waitMs =
     (if \<not> sessions then Inl (Status Code_Unimplemented ''session locking is disabled on this daemon'')
      else case acquire own (i64 (waitMs * millisecond)) of
             Inl i \<Rightarrow> Inr \<lparr>SessionId = ID i, ExpiresAtUnixMs = UnixMilli (ExpiresAt i), TtlMs = sttl div millisecond\<rparr>
           | Inr (BusyError o1 t) \<Rightarrow> Inl (Status Code_FailedPrecondition (busy_text rfc3339 o1 t))
           | Inr (CtxError e) \<Rightarrow>
               if err_is e Deadline then Inl (Status Code_DeadlineExceeded ''timed out waiting for the hardware lock'')
               else if err_is e Canceled then Inl (Status Code_Canceled ''cancelled while waiting for the hardware lock'')
               else Inl (Status Code_Internal (''acquire session: '' @ err_text e)))"

definition FinishSession :: "bool \<Rightarrow> string \<Rightarrow> manager \<Rightarrow> rpc_err option \<times> manager" where
  "FinishSession sessions i m =
     (if \<not> sessions then (None, m)
      else case Finish i m of
             (Some e, m1) \<Rightarrow> (Some (Status Code_FailedPrecondition (err_text e)), m1)
           | (None, m1) \<Rightarrow> (None, m1))"

text \<open>\<open>Ping\<close>: \<open>between\<close> is what others do to the lock between its two critical sections.\<close>

definition Ping :: "bool \<Rightarrow> time \<Rightarrow> (manager \<Rightarrow> manager) \<Rightarrow> time \<Rightarrow> string \<Rightarrow> manager \<Rightarrow> (rpc_err + int) \<times> manager" where
  "Ping sessions t1 between t2 i m =
     (if \<not> sessions then (Inr 0, m)
      else case Refresh t1 i m of
             (Some e, m1) \<Rightarrow> (Inl (Status Code_FailedPrecondition (err_text e)), m1)
           | (None, m1) \<Rightarrow>
               let (inf, m2) = Info t2 (between m1) in (Inr (UnixMilli (ExpiresAt inf)), m2))"

subsection \<open>Interceptors\<close>

definition sessionRequiredErr :: "string \<Rightarrow> rpc_err" where
  "sessionRequiredErr i =
     (if i = []
      then Status Code_FailedPrecondition ''hardware is locked to sessions: acquire one with StartSession (no session id supplied)''
      else Status Code_FailedPrecondition
        (''session '' @ quote i @ '' is not the current hardware lock holder (expired or superseded); call StartSession''))"

definition UnaryInterceptor :: "bool \<Rightarrow> string \<Rightarrow> string \<Rightarrow> time \<Rightarrow> time
    \<Rightarrow> (manager \<times> 's \<Rightarrow> (rpc_err + 'r) \<times> manager \<times> 's) \<Rightarrow> manager \<times> 's \<Rightarrow> (rpc_err + 'r) \<times> manager \<times> 's" where
  "UnaryInterceptor sessions method i t1 t2 handler ms =
     (if \<not> sessions \<or> method \<in> set sessionExemptMethods then handler ms
      else case CallStart t1 i (fst ms) of
             (Some e, m1) \<Rightarrow> (Inl (sessionRequiredErr i), m1, snd ms)
           | (None, m1) \<Rightarrow>
               let (r, m2, s2) = handler (m1, snd ms) in (r, CallEnd t2 i m2, s2))"

text \<open>What \<open>refreshingStream\<close> does to the lock before each message sent or received.\<close>

definition refreshing :: "string \<Rightarrow> time \<Rightarrow> manager \<Rightarrow> manager" where
  "refreshing i now m = snd (Refresh now i m)"

text \<open>A streaming handler is given what its stream does to the lock per message.\<close>

definition StreamInterceptor :: "bool \<Rightarrow> string \<Rightarrow> string \<Rightarrow> time \<Rightarrow> time
    \<Rightarrow> ((time \<Rightarrow> manager \<Rightarrow> manager) \<Rightarrow> manager \<times> 's \<Rightarrow> rpc_err option \<times> manager \<times> 's)
    \<Rightarrow> manager \<times> 's \<Rightarrow> rpc_err option \<times> manager \<times> 's" where
  "StreamInterceptor sessions method i t1 t2 handler ms =
     (if \<not> sessions \<or> method \<in> set sessionExemptMethods then handler (\<lambda>_ m. m) ms
      else case CallStart t1 i (fst ms) of
             (Some e, m1) \<Rightarrow> (Some (sessionRequiredErr i), m1, snd ms)
           | (None, m1) \<Rightarrow>
               let (r, m2, s2) = handler (refreshing i) (m1, snd ms) in (r, CallEnd t2 i m2, s2))"

subsection \<open>The gate\<close>

text \<open>The caller holds the lock, and it has not expired.\<close>

definition holds :: "time \<Rightarrow> string \<Rightarrow> manager \<Rightarrow> bool" where
  "holds now i m \<longleftrightarrow> i \<noteq> [] \<and> id_m m = i \<and> (0 < activeCalls m \<or> now \<le> expiresAtLocked m)"

lemma CallStart_holds:
  "CallStart now i m = (if holds now i m then (None, m\<lparr>lastActivity := now, activeCalls := activeCalls m + 1\<rparr>)
     else (Some (no_session i), expireIfIdleLocked now m))"
  by (auto simp: CallStart_def holds_def expireIfIdleLocked_def clearLocked_def Let_def split: option.splits)

lemma busy_no_expiry: "0 < activeCalls m \<Longrightarrow> expireIfIdleLocked now m = m"
  by (simp add: expireIfIdleLocked_def)

text \<open>C25: Only the holder of the lock reaches the hardware. With sessions enabled, an RPC that is not
  exempt runs its handler exactly when the caller's id is the current, unexpired holder's;
  otherwise the handler does not run, nothing but an expired lock changes, and the answer is
  \<open>FailedPrecondition\<close>. When it runs, the handler starts with the call counted, the idle clock
  reset, and so with a lock that cannot expire before the call ends. The same holds of a stream, whose
  messages refresh the lock of this caller only. Of all methods of the service, exactly the
  status, the two console observers and the three session RPCs are exempt.\<close>

theorem hardware_gate:
  assumes "method \<notin> set sessionExemptMethods"
  shows "(\<not> holds t1 i m \<longrightarrow>
      (\<exists>txt. UnaryInterceptor True method i t1 t2 h (m, s) = (Inl (Status Code_FailedPrecondition txt), expireIfIdleLocked t1 m, s) \<and>
        StreamInterceptor True method i t1 t2 hs (m, s) = (Some (Status Code_FailedPrecondition txt), expireIfIdleLocked t1 m, s))) \<and>
    (holds t1 i m \<longrightarrow>
      (let m1 = m\<lparr>lastActivity := t1, activeCalls := activeCalls m + 1\<rparr> in
        UnaryInterceptor True method i t1 t2 h (m, s) = (case h (m1, s) of (r, m2, s2) \<Rightarrow> (r, CallEnd t2 i m2, s2)) \<and>
        StreamInterceptor True method i t1 t2 hs (m, s) = (case hs (refreshing i) (m1, s) of (r, m2, s2) \<Rightarrow> (r, CallEnd t2 i m2, s2)) \<and>
        (0 \<le> activeCalls m \<longrightarrow> (\<forall>t. expireIfIdleLocked t m1 = m1)))) \<and>
    (\<forall>t. id_m m \<noteq> i \<longrightarrow> refreshing i t m = expireIfIdleLocked t m) \<and>
    (\<forall>x. x \<in> {''GetStatus'', ''StartSession'', ''FinishSession'', ''Ping'', ''StreamConsole'', ''ReadConsoleLog'', ''WriteConsole'', ''WaitForPattern'',
        ''PowerControl'', ''InterruptBoot'', ''Netboot'', ''RunUbootCommand'', ''UploadImage'', ''ListImages'', ''DeleteImage'', ''SSHExec'',
        ''Tunnel'', ''SCPUpload'', ''SCPDownload''} \<longrightarrow>
      (full_method x \<in> set sessionExemptMethods \<longleftrightarrow>
       x \<in> {''GetStatus'', ''StreamConsole'', ''ReadConsoleLog'', ''StartSession'', ''FinishSession'', ''Ping''}))"
proof -
  have ref: "\<forall>t. id_m m \<noteq> i \<longrightarrow> refreshing i t m = expireIfIdleLocked t m"
    by (auto simp: refreshing_def Refresh_def expireIfIdleLocked_def clearLocked_def Let_def split: option.splits)
  have ex: "full_method x \<in> set sessionExemptMethods \<longleftrightarrow>
      x \<in> {''GetStatus'', ''StreamConsole'', ''ReadConsoleLog'', ''StartSession'', ''FinishSession'', ''Ping''}" for x
    by (simp add: sessionExemptMethods_def full_method_def)
  have no: "\<not> holds t1 i m \<longrightarrow>
      (\<exists>txt. UnaryInterceptor True method i t1 t2 h (m, s) = (Inl (Status Code_FailedPrecondition txt), expireIfIdleLocked t1 m, s) \<and>
        StreamInterceptor True method i t1 t2 hs (m, s) = (Some (Status Code_FailedPrecondition txt), expireIfIdleLocked t1 m, s))"
    using assms by (auto simp: UnaryInterceptor_def StreamInterceptor_def CallStart_holds sessionRequiredErr_def)
  have yes: "let m1 = m\<lparr>lastActivity := t1, activeCalls := activeCalls m + 1\<rparr> in
        UnaryInterceptor True method i t1 t2 h (m, s) = (case h (m1, s) of (r, m2, s2) \<Rightarrow> (r, CallEnd t2 i m2, s2)) \<and>
        StreamInterceptor True method i t1 t2 hs (m, s) = (case hs (refreshing i) (m1, s) of (r, m2, s2) \<Rightarrow> (r, CallEnd t2 i m2, s2)) \<and>
        (0 \<le> activeCalls m \<longrightarrow> (\<forall>t. expireIfIdleLocked t m1 = m1))" if "holds t1 i m"
    using assms that by (simp add: UnaryInterceptor_def StreamInterceptor_def CallStart_holds busy_no_expiry)
  show ?thesis using ref no yes by (simp only: ex) blast
qed


text \<open>A lock held by the session \<open>s1\<close>, last used at 100, with a lifetime of 50.\<close>

definition held :: manager where
  "held = (NewManager 50)\<lparr>id_m := ''s1'', owner := ''ann'', startedAt := 90, lastActivity := 100, released := Some 0, chans := 1\<rparr>"

theorem hardware_gate_witness:
  "(\<exists>txt. UnaryInterceptor True (full_method ''PowerControl'') ''s2'' 120 125 (\<lambda>(m, n :: int). (Inr (), m, n + 1)) (held, 0) =
      (Inl (Status Code_FailedPrecondition txt), held, 0)) \<and>
   UnaryInterceptor True (full_method ''PowerControl'') ''s1'' 120 125 (\<lambda>(m, n :: int). (Inr (), m, n + 1)) (held, 0) =
      (Inr (), held\<lparr>lastActivity := 125\<rparr>, 1)"
proof -
  have x: "full_method ''PowerControl'' \<notin> set sessionExemptMethods" by (simp add: sessionExemptMethods_def full_method_def)
  have h: "\<not> holds 120 ''s2'' held" "holds 120 ''s1'' held" "activeCalls held = 0" "id_m held = ''s1''"
    "expireIfIdleLocked 120 held = held"
    by (simp_all add: holds_def held_def NewManager_def expiresAtLocked_def expireIfIdleLocked_def)
  note g = hardware_gate [OF x]
  have a: "\<exists>txt. UnaryInterceptor True (full_method ''PowerControl'') ''s2'' 120 125 (\<lambda>(m, n :: int). (Inr (), m, n + 1)) (held, 0) =
      (Inl (Status Code_FailedPrecondition txt), held, 0)"
    using g [THEN conjunct1, of 120 "''s2''" held 125 "\<lambda>(m, n :: int). (Inr (), m, n + 1)" 0] h by auto
  have "UnaryInterceptor True (full_method ''PowerControl'') ''s1'' 120 125 (\<lambda>(m, n :: int). (Inr (), m, n + 1)) (held, 0) =
      (Inr (), held\<lparr>lastActivity := 125\<rparr>, 1)"
    using g [THEN conjunct2, THEN conjunct1, of 120 "''s1''" held 125 "\<lambda>(m, n :: int). (Inr (), m, n + 1)" 0] h
    by (simp add: CallEnd_def Let_def)
  with a show ?thesis by blast
qed

text \<open>C26: The life of a session. \<open>StartSession\<close> on a lock that is free or has expired answers the fresh
  id and its expiry; with that id the gate is open, and for no other id, up to and including the
  expiry time; \<open>Ping\<close> moves the expiry to a lifetime after itself and answers it; after \<open>FinishSession\<close> the
  gate is closed for everyone, and finishing again is no error.\<close>

theorem session_lifecycle:
  assumes "id_m (expireIfIdleLocked t m) = []" "g \<noteq> []" "0 < ttl m" "acquire_try t g own m = (r, m1)"
    "t \<le> t1" "t1 \<le> t + ttl m"
  shows "(\<exists>i. r = Inl i \<and> StartSession fmt True (ttl m) (\<lambda>_ _. Inl i) own w =
        Inr \<lparr>SessionId = g, ExpiresAtUnixMs = UnixMilli (t + ttl m), TtlMs = ttl m div millisecond\<rparr>) \<and>
    (\<forall>i. holds t1 i m1 \<longleftrightarrow> i = g) \<and>
    Ping True t1 (\<lambda>m. m) t1 g m1 = (Inr (UnixMilli (t1 + ttl m)), m1\<lparr>lastActivity := t1\<rparr>) \<and>
    (\<forall>i t2. fst (FinishSession True g m1) = None \<and> \<not> holds t2 i (snd (FinishSession True g m1)) \<and>
       fst (FinishSession True g (snd (FinishSession True g m1))) = None)"
proof -
  have t: "ttl (expireIfIdleLocked t m) = ttl m"
    by (simp add: expireIfIdleLocked_def clearLocked_def Let_def split: option.splits)
  obtain m0 where m0: "expireIfIdleLocked t m = m0" "id_m m0 = []" "ttl m0 = ttl m" using assms(1) t by blast
  have m1: "m1 = m0\<lparr>id_m := g, owner := own, startedAt := t, lastActivity := t, activeCalls := 0, released := Some (chans m0), chans := chans m0 + 1\<rparr>"
    and r: "r = Inl (infoLocked m1)"
    using assms(4) m0 by (auto simp: acquire_try_def Let_def)
  have h: "holds t1 i m1 \<longleftrightarrow> i = g" for i
    using assms(2,6) m0(3) by (auto simp: holds_def m1 expiresAtLocked_def)
  have ne: "expireIfIdleLocked t1 m1 = m1" using assms(6) m0(3) by (simp add: expireIfIdleLocked_def m1 expiresAtLocked_def)
  have "StartSession fmt True (ttl m) (\<lambda>_ _. Inl (infoLocked m1)) own w =
      Inr \<lparr>SessionId = g, ExpiresAtUnixMs = UnixMilli (t + ttl m), TtlMs = ttl m div millisecond\<rparr>"
    using assms(2) m0(3) by (simp add: StartSession_def infoLocked_def m1 expiresAtLocked_def)
  moreover have "Ping True t1 (\<lambda>m. m) t1 g m1 = (Inr (UnixMilli (t1 + ttl m)), m1\<lparr>lastActivity := t1\<rparr>)"
  proof -
    have e2: "expireIfIdleLocked t1 (m1\<lparr>lastActivity := t1\<rparr>) = m1\<lparr>lastActivity := t1\<rparr>"
      using assms(3) m0(3) by (simp add: expireIfIdleLocked_def m1 expiresAtLocked_def)
    have "id_m m1 = g" "ttl m1 = ttl m" using m0(3) by (simp_all add: m1)
    with assms(2) show ?thesis
      by (simp add: Ping_def Refresh_def ne Info_def e2 Let_def infoLocked_def expiresAtLocked_def)
  qed
  moreover have "fst (FinishSession True g m1) = None \<and> \<not> holds t2 i (snd (FinishSession True g m1)) \<and>
       fst (FinishSession True g (snd (FinishSession True g m1))) = None" for i t2
    by (auto simp: FinishSession_def Finish_def m1 clearLocked_def Let_def holds_def)
  ultimately show ?thesis using r h by blast
qed

theorem session_lifecycle_witness:
  "\<exists>m1. acquire_try 200 ''s9'' ''bob'' held = (Inl \<lparr>Active = True, ID = ''s9'', Owner = ''bob'', StartedAt = 200, ExpiresAt = 250\<rparr>, m1) \<and>
     holds 250 ''s9'' m1 \<and> \<not> holds 250 ''s1'' m1 \<and> fst (Ping True 250 (\<lambda>m. m) 250 ''s9'' m1) = Inr (UnixMilli 300)"
proof -
  have e: "id_m (expireIfIdleLocked 200 held) = []" "ttl held = 50" by code_simp+
  obtain m1 where a: "acquire_try 200 ''s9'' ''bob'' held = (Inl \<lparr>Active = True, ID = ''s9'', Owner = ''bob'', StartedAt = 200, ExpiresAt = 250\<rparr>, m1)"
  proof -
    have "fst (acquire_try 200 ''s9'' ''bob'' held) = Inl \<lparr>Active = True, ID = ''s9'', Owner = ''bob'', StartedAt = 200, ExpiresAt = 250\<rparr>"
      by code_simp
    then show ?thesis using that by (metis prod.collapse)
  qed
  from session_lifecycle [OF e(1) _ _ a, of 250] e(2) a show ?thesis by auto
qed

end
