(* ===== verification/Rpc_Server.thy ===== *)
theory Rpc_Server
  imports Rpc_Gate Uboot Image_Store Ssh_Exec Power_Control Console_Keys
begin

text \<open>
  \<open>internal/server/server.go\<close>: the handlers of the service, over the models of the console, the power
  controllers, the U-Boot orchestration, the image store and the SSH client. Handlers that wait
  on the console are goroutines over a script of events. A gRPC stream is the list of messages the
  client sends and the error its \<open>Recv\<close> ends with (\<open>EOF_err\<close> at the end), and the list of
  outcomes of the next \<open>Send\<close>s (success when it is used up). A capability that is not
  configured is \<open>None\<close>. Compiling a caller's pattern is the parameter \<open>compile\<close>.
\<close>

record 's service =
  dVersion :: string
  dConsole :: bool
  dPower :: "'s controller option"
  dOrchestrator :: "orch option"
  dStore :: "store option"
  dSSH :: "ssh_config option"
  dSessions :: bool
  SerialDevice :: string
  SerialBaud :: int
  TFTPAddress :: string
  SSHTarget :: string
  SSHUser :: string
  PowerOutlet :: int

definition not_configured :: "string \<Rightarrow> rpc_err" where
  "not_configured what = Status Code_FailedPrecondition (what @ '' not configured'')"

text \<open>\<open>time.Duration(ms) * time.Millisecond\<close> is a 64-bit product.\<close>

definition dur :: "int \<Rightarrow> duration \<Rightarrow> duration" where
  "dur ms def = (if ms \<le> 0 then def else i64 (ms * millisecond))"

definition powerStateToProto :: "power_state \<Rightarrow> int" where
  "powerStateToProto st = (case st of StateOn \<Rightarrow> 1 | StateOff \<Rightarrow> 2 | StateUnknown \<Rightarrow> 0)"

subsection \<open>Status\<close>

record status_response =
  stVersion :: string
  SerialConnected :: bool
  stSerialDevice :: string
  stSerialBaud :: int
  TftpDir :: string
  TftpAddress :: string
  ConsoleBufferBytes :: int
  PowerState :: int
  SessionActive :: bool
  SessionOwner :: string
  SessionStartedAtUnixMs :: int
  SessionExpiresAtUnixMs :: int
  SshTarget :: string
  SshUser :: string
  stPowerOutlet :: int

definition GetStatus :: "'s service \<Rightarrow> time \<Rightarrow> console \<Rightarrow> manager \<Rightarrow> 's \<Rightarrow> status_response \<times> manager \<times> 's" where
  "GetStatus sv t con m s =
     (let (pst, s1) = (case dPower sv of
             None \<Rightarrow> (0, s)
           | Some c \<Rightarrow> (case cStatus c s of ((st, e), s1) \<Rightarrow> (if e = None then powerStateToProto st else 0, s1)));
          (si, m1) = (if dSessions sv then Info t m else (zero_info, m))
      in (\<lparr>stVersion = dVersion sv,
           SerialConnected = (dConsole sv \<and> con_Err con = None),
           stSerialDevice = SerialDevice sv,
           stSerialBaud = SerialBaud sv,
           TftpDir = (case dStore sv of None \<Rightarrow> [] | Some st \<Rightarrow> dir st),
           TftpAddress = TFTPAddress sv,
           ConsoleBufferBytes = (if dConsole sv then int (BufferedBytes con) else 0),
           PowerState = pst,
           SessionActive = Active si,
           SessionOwner = Owner si,
           SessionStartedAtUnixMs = (if Active si then UnixMilli (StartedAt si) else 0),
           SessionExpiresAtUnixMs = (if Active si then UnixMilli (ExpiresAt si) else 0),
           SshTarget = SSHTarget sv,
           SshUser = SSHUser sv,
           stPowerOutlet = PowerOutlet sv\<rparr>, m1, s1))"

subsection \<open>The console\<close>

text \<open>\<open>StreamConsole\<close>: the chunks sent, with their offsets, are collected in \<open>emitted\<close>.\<close>

fun stream_loop :: "nat \<Rightarrow> nat \<Rightarrow> int \<Rightarrow> goerr option list \<Rightarrow> ev list \<Rightarrow> (bytes \<times> int) world
    \<Rightarrow> rpc_err option \<times> ev list \<times> (bytes \<times> int) world" where
  "stream_loop k i off sres [] w = (None, [], w)"
| "stream_loop k i off sres (Go b # es) w =
     (let c = fst (sub_recv i (conw w))
      in if ctx_err w k \<noteq> None \<and> (b \<or> c = Empty) then (Some (Plain (the (ctx_err w k))), es, w)
         else (case c of
                 Chunk p \<Rightarrow>
                   let w1 = con_do (ORecv i) w
                   in (case sres of
                         Some e # _ \<Rightarrow> (Some (Plain e), es, w1)
                       | _ \<Rightarrow> stream_loop k i (i64 (off + int (length p))) (tl sres) es (w1\<lparr>emitted := emitted w1 @ [(p, off)]\<rparr>))
               | Ended \<Rightarrow> (Some (Status Code_Unavailable ''console closed''), es, w)
               | Empty \<Rightarrow> stream_loop k i off sres es w))"
| "stream_loop k i off sres (v # es) w = stream_loop k i off sres es (env v w)"

definition StreamConsole :: "'s service \<Rightarrow> nat \<Rightarrow> int \<Rightarrow> goerr option list \<Rightarrow> (rpc_err, bytes \<times> int) proc" where
  "StreamConsole sv k replayBytes sres =
     (if \<not> dConsole sv then return_p (not_configured ''serial console'')
      else bind_p (p_Subscribe replayBytes) (\<lambda>i.
           bind_p (stream_loop k i 0 sres) (\<lambda>r.
           bind_p (p_Unsubscribe i) (\<lambda>_. return_p r))))"

definition ReadConsoleLog :: "'s service \<Rightarrow> int \<Rightarrow> console \<Rightarrow> rpc_err + bytes \<times> bool" where
  "ReadConsoleLog sv maxBytes con =
     (if \<not> dConsole sv then Inl (not_configured ''serial console'') else Inr (con_Snapshot maxBytes con))"

definition WriteConsole :: "'s service \<Rightarrow> bytes \<Rightarrow> string list \<Rightarrow> (rpc_err + int, 'e) proc" where
  "WriteConsole sv data keys =
     (if \<not> dConsole sv then return_p (Inl (not_configured ''serial console''))
      else case (if 0 < length keys then KeysBytes keys else Inr []) of
             Inl e \<Rightarrow> return_p (Inl (Status Code_InvalidArgument (err_text e)))
           | Inr kb \<Rightarrow>
               bind_p (p_Write (data @ kb)) (\<lambda>e.
                 return_p (case e of
                   Some x \<Rightarrow> Inl (Status Code_Unavailable (''console write: '' @ err_text x))
                 | None \<Rightarrow> Inr (int (length (data @ kb))))))"

record wait_response =
  Matched :: bool
  Match :: string
  wContext :: bytes
  ElapsedMs :: int

definition rpc_WaitForPattern :: "'s service \<Rightarrow> (string \<Rightarrow> goerr + re) \<Rightarrow> nat \<Rightarrow> string \<Rightarrow> int \<Rightarrow> int \<Rightarrow> int
    \<Rightarrow> (rpc_err + wait_response, 'e) proc" where
  "rpc_WaitForPattern sv compile k pattern timeoutMs scrollbackBytes elapsed =
     (if \<not> dConsole sv then return_p (Inl (not_configured ''serial console''))
      else case compile pattern of
             Inl e \<Rightarrow> return_p (Inl (Status Code_InvalidArgument (''bad pattern: '' @ err_text e)))
           | Inr r \<Rightarrow>
               bind_p (modify_p (with_timeout k (dur timeoutMs (30 * second)))) (\<lambda>_.
               bind_p (WaitForPattern r (k + 1) scrollbackBytes) (\<lambda>(m, c, err).
                 return_p (case err of
                   None \<Rightarrow> Inr \<lparr>Matched = True, Match = m, wContext = c, ElapsedMs = elapsed\<rparr>
                 | Some e \<Rightarrow>
                     if err_is e Deadline then Inr \<lparr>Matched = False, Match = [], wContext = c, ElapsedMs = elapsed\<rparr>
                     else Inl (Status Code_Unavailable (''wait: '' @ err_text e))))))"

subsection \<open>Power\<close>

datatype power_action = ACTION_UNSPECIFIED | ACTION_ON | ACTION_OFF | ACTION_CYCLE | ACTION_STATUS

definition PowerControl :: "'s service \<Rightarrow> power_action \<Rightarrow> int \<Rightarrow> 's \<Rightarrow> (rpc_err + int \<times> string) \<times> 's" where
  "PowerControl sv action offMs s =
     (case dPower sv of
        None \<Rightarrow> (Inl (not_configured ''power control''), s)
      | Some c \<Rightarrow>
          if action = ACTION_UNSPECIFIED then (Inl (Status Code_InvalidArgument ''unspecified power action''), s)
          else
          (case (case action of
                   ACTION_ON \<Rightarrow> cOn c s
                 | ACTION_OFF \<Rightarrow> cOff c s
                 | ACTION_CYCLE \<Rightarrow> cCycle c (dur offMs 0) s
                 | _ \<Rightarrow> (None, s)) of
             (Some e, s1) \<Rightarrow> (Inl (Status Code_Unavailable (''power: '' @ err_text e)), s1)
           | (None, s1) \<Rightarrow>
               (case cStatus c s1 of
                  ((st, e), s2) \<Rightarrow>
                    (Inr (powerStateToProto st, case e of None \<Rightarrow> [] | Some x \<Rightarrow> ''state query failed: '' @ err_text x), s2))))"

subsection \<open>Boot orchestration\<close>

datatype boot_kind = KIND_UNSPECIFIED | KIND_INFO | KIND_CONSOLE | KIND_STAGE | KIND_SUCCESS | KIND_ERROR

record boot_event =
  bKind :: boot_kind
  bStage :: string
  bMessage :: string
  bConsole :: bytes

definition bootEventToProto :: "uevent \<Rightarrow> boot_event" where
  "bootEventToProto ev =
     \<lparr>bKind = (case Kind ev of
                 EventInfo \<Rightarrow> KIND_INFO | EventConsole \<Rightarrow> KIND_CONSOLE | EventStage \<Rightarrow> KIND_STAGE
               | EventSuccess \<Rightarrow> KIND_SUCCESS | EventError \<Rightarrow> KIND_ERROR),
      bStage = Stage ev, bMessage = Message ev, bConsole = EvConsole ev\<rparr>"

definition finishBoot :: "goerr option \<Rightarrow> boot_event \<times> rpc_err option" where
  "finishBoot err =
     (case err of
        Some e \<Rightarrow>
          (\<lparr>bKind = KIND_ERROR, bStage = [], bMessage = err_text e, bConsole = []\<rparr>,
           Some (Status (if err_is e Deadline then Code_DeadlineExceeded else Code_Internal) (err_text e)))
      | None \<Rightarrow> (\<lparr>bKind = KIND_SUCCESS, bStage = [], bMessage = ''operation completed'', bConsole = []\<rparr>, None))"

text \<open>A boot RPC returns its terminal event, if it sends one, and its error; the events before it are those in
  \<open>emitted\<close>, through \<open>bootEventToProto\<close> (\<open>streamEmitter\<close>).\<close>

type_synonym boot_result = "boot_event option \<times> rpc_err option"

definition boot_fails :: "rpc_err \<Rightarrow> boot_result" where
  "boot_fails e = (None, Some e)"

definition boot_done :: "goerr option \<Rightarrow> boot_result" where
  "boot_done err = (case finishBoot err of (ev, e) \<Rightarrow> (Some ev, e))"

definition stream_of :: "boot_result \<Rightarrow> uevent list \<Rightarrow> boot_event list" where
  "stream_of r evs = map bootEventToProto evs @ (case fst r of None \<Rightarrow> [] | Some ev \<Rightarrow> [ev])"

definition rpc_InterruptBoot :: "'s service \<Rightarrow> (duration \<Rightarrow> (goerr option, uevent) proc) option \<Rightarrow> nat \<Rightarrow> bool \<Rightarrow> int
    \<Rightarrow> (boot_result, uevent) proc" where
  "rpc_InterruptBoot sv pw k powerCycle timeoutMs =
     (case dOrchestrator sv of
        None \<Rightarrow> return_p (boot_fails (not_configured ''uboot orchestrator''))
      | Some ob \<Rightarrow>
          bind_p (modify_p (with_timeout k (dur timeoutMs (3 * minute)))) (\<lambda>_.
          bind_p (InterruptBoot ob pw (k + 1) powerCycle True) (\<lambda>err. return_p (boot_done err))))"

record netboot_request =
  qImage :: string
  qPowerCycle :: bool
  qKernelArgs :: string
  qVerify :: bool
  qTimeoutMs :: int

text \<open>The parameters \<open>Netboot\<close> is called with, or the error.\<close>

definition netboot_request_params :: "'s service \<Rightarrow> os_env \<Rightarrow> fs \<Rightarrow> netboot_request \<Rightarrow> rpc_err + netboot_params" where
  "netboot_request_params sv en f q =
     (let p0 = \<lparr>Image = qImage q, PowerCycle = qPowerCycle q, nServerIP = [], KernelArgs = qKernelArgs q,
                VerifyCRC32 = qVerify q, ImageLen = 0, ImageCRC32 = 0, nTimeout = dur (qTimeoutMs q) (5 * minute)\<rparr>;
          verified =
            (if \<not> qVerify q then Inr p0
             else case dStore sv of
                    None \<Rightarrow> Inl (Status Code_FailedPrecondition ''verify_crc32 requested but image store not configured'')
                  | Some st \<Rightarrow>
                 (case List_images en st f of
                    Inl e \<Rightarrow> Inl (Status Code_Internal (''list images: '' @ err_text e))
                  | Inr l \<Rightarrow>
                 (case find (\<lambda>im. im_name im = qImage q) l of
                    None \<Rightarrow> Inl (Status Code_NotFound (''image '' @ quote (qImage q) @ '' not found for CRC verification''))
                  | Some im \<Rightarrow> Inr (p0\<lparr>ImageLen := im_size im, ImageCRC32 := im_crc32 im\<rparr>))))
      in case verified of
           Inl e \<Rightarrow> Inl e
         | Inr p \<Rightarrow>
             (case dStore sv of
                None \<Rightarrow> Inr p
              | Some st \<Rightarrow>
                  (case OnDiskName st (qImage q) of
                     Inl e \<Rightarrow> Inl (Status Code_InvalidArgument (''invalid image name '' @ quote (qImage q) @ '': '' @ err_text e))
                   | Inr b \<Rightarrow> Inr (p\<lparr>Image := b\<rparr>))))"

definition rpc_Netboot :: "'s service \<Rightarrow> os_env \<Rightarrow> fs \<Rightarrow> (duration \<Rightarrow> (goerr option, uevent) proc) option \<Rightarrow> nat \<Rightarrow> netboot_request
    \<Rightarrow> (boot_result, uevent) proc" where
  "rpc_Netboot sv en f pw k q =
     (case dOrchestrator sv of
        None \<Rightarrow> return_p (boot_fails (not_configured ''uboot orchestrator''))
      | Some ob \<Rightarrow>
          (case netboot_request_params sv en f q of
             Inl e \<Rightarrow> return_p (boot_fails e)
           | Inr p \<Rightarrow> bind_p (Netboot ob pw k p True) (\<lambda>err. return_p (boot_done err))))"

text \<open>\<open>RunUbootCommand\<close>: the output and whether the prompt came back. It never fails once there is
  an orchestrator.\<close>

definition RunUbootCommand :: "'s service \<Rightarrow> nat \<Rightarrow> string \<Rightarrow> int \<Rightarrow> (rpc_err + string \<times> bool, uevent) proc" where
  "RunUbootCommand sv k command timeoutMs =
     (case dOrchestrator sv of
        None \<Rightarrow> return_p (Inl (not_configured ''uboot orchestrator''))
      | Some ob \<Rightarrow>
          bind_p (modify_p (with_timeout k (dur timeoutMs (30 * second)))) (\<lambda>_.
          bind_p (RunCommand ob (k + 1) command) (\<lambda>(out, err). return_p (Inr (out, err = None)))))"

subsection \<open>Images\<close>

datatype 'm in_msg = Metadata 'm | ChunkMsg bytes

definition GetChunk :: "'m in_msg \<Rightarrow> bytes" where
  "GetChunk m = (case m of Metadata _ \<Rightarrow> [] | ChunkMsg b \<Rightarrow> b)"

definition chunks_of :: "'m in_msg list \<Rightarrow> bytes list" where
  "chunks_of ms = filter (\<lambda>b. 0 < length b) (map GetChunk ms)"

text \<open>\<open>UploadImage\<close>: \<open>refused\<close> says that a write to the pipe failed before the client's stream
  ended, which can only happen when \<open>Save\<close> has failed.\<close>

definition UploadImage :: "'s service \<Rightarrow> os_env \<Rightarrow> goerr + (string \<times> bool) in_msg \<Rightarrow> (string \<times> bool) in_msg list \<times> goerr \<Rightarrow> bool \<Rightarrow> fs
    \<Rightarrow> (rpc_err + image_info) \<times> fs" where
  "UploadImage sv en first stream refused f =
     (case dStore sv of
        None \<Rightarrow> (Inl (not_configured ''image store''), f)
      | Some st \<Rightarrow>
     (case first of
        Inl e \<Rightarrow> (Inl (Status Code_InvalidArgument (''expected metadata message: '' @ err_text e)), f)
      | Inr (ChunkMsg _) \<Rightarrow> (Inl (Status Code_InvalidArgument ''first message must be metadata''), f)
      | Inr (Metadata (name, overwrite)) \<Rightarrow>
          let end = (if snd stream = EOF_err then None else Some (snd stream));
              (res, f1) = Save en st name (chunks_of (fst stream), end) overwrite f
          in (case res of
                Inl saveErr \<Rightarrow>
                  if refused then Inl (Status Code_Internal (''store write: '' @ err_text saveErr))
                  else (case end of
                          Some e \<Rightarrow> Inl (Status Code_Aborted (''receiving image: '' @ err_text e))
                        | None \<Rightarrow> Inl (Status Code_Internal (''save image: '' @ err_text saveErr)))
              | Inr i \<Rightarrow> Inr i, f1)))"

definition Unix :: "time \<Rightarrow> int" where
  "Unix t = (t - unix_epoch) div second"

definition ListImages :: "'s service \<Rightarrow> os_env \<Rightarrow> fs \<Rightarrow> rpc_err + (string \<times> int \<times> int \<times> 32 word) list" where
  "ListImages sv en f =
     (case dStore sv of
        None \<Rightarrow> Inl (not_configured ''image store'')
      | Some st \<Rightarrow>
          (case List_images en st f of
             Inl e \<Rightarrow> Inl (Status Code_Internal (''list images: '' @ err_text e))
           | Inr l \<Rightarrow> Inr (map (\<lambda>im. (im_name im, im_size im, Unix (im_mtime im), im_crc32 im)) l)))"

definition DeleteImage :: "'s service \<Rightarrow> os_env \<Rightarrow> string \<Rightarrow> fs \<Rightarrow> rpc_err option \<times> fs" where
  "DeleteImage sv en name f =
     (case dStore sv of
        None \<Rightarrow> (Some (not_configured ''image store''), f)
      | Some st \<Rightarrow>
          (case Delete en st name f of
             (Some e, f1) \<Rightarrow> (Some (Status Code_Internal (''delete image: '' @ err_text e)), f1)
           | (None, f1) \<Rightarrow> (None, f1)))"


subsection \<open>SSH\<close>

definition SSHExec :: "'s service \<Rightarrow> (duration option \<Rightarrow> ssh_net) \<Rightarrow> string \<Rightarrow> int \<Rightarrow> rpc_err + ssh_result" where
  "SSHExec sv net command timeoutMs =
     (case dSSH sv of
        None \<Rightarrow> Inl (not_configured ''ssh'')
      | Some c \<Rightarrow>
          (case Exec net c command (dur timeoutMs (30 * second)) of
             (res, Some e) \<Rightarrow> Inl (Status Code_Unavailable (''ssh: '' @ err_text e))
           | (res, None) \<Rightarrow>
               Inr (res\<lparr>ExitCode := i32 (ExitCode res)\<rparr>)))"

text \<open>The two copying loops of \<open>Tunnel\<close>: what is passed on and the error the loop ends with. The
  target's \<open>Read\<close>s are scripted, the client's messages are a stream; \<open>None\<close> when the script
  ends first.\<close>

fun tunnel_out :: "(bytes \<times> goerr option) list \<Rightarrow> goerr option list \<Rightarrow> bytes list \<Rightarrow> bytes list \<times> goerr option" where
  "tunnel_out [] sres sent1 = (sent1, None)"
| "tunnel_out ((b, e) # rs) sres sent1 =
     (if 0 < length b
      then (case sres of
              Some x # _ \<Rightarrow> (sent1, Some x)
            | _ \<Rightarrow> (case e of Some x \<Rightarrow> (sent1 @ [b], Some x) | None \<Rightarrow> tunnel_out rs (tl sres) (sent1 @ [b])))
      else (case e of Some x \<Rightarrow> (sent1, Some x) | None \<Rightarrow> tunnel_out rs sres sent1))"

fun tunnel_in :: "bytes list \<Rightarrow> goerr \<Rightarrow> goerr option list \<Rightarrow> bytes list \<Rightarrow> bytes list \<times> goerr" where
  "tunnel_in [] end writes wrote = (wrote, end)"
| "tunnel_in (b # bs) end writes wrote =
     (if 0 < length b
      then (case writes of
              Some x # _ \<Rightarrow> (wrote, x)
            | _ \<Rightarrow> tunnel_in bs end (tl writes) (wrote @ [b]))
      else tunnel_in bs end writes wrote)"

text \<open>\<open>errc\<close> is the first error of the two loops, \<open>ctx_over\<close> says that the stream's context has
  ended by then.\<close>

definition Tunnel :: "'s service \<Rightarrow> ssh_net \<Rightarrow> goerr + bytes \<Rightarrow> goerr option \<Rightarrow> goerr \<Rightarrow> bool \<Rightarrow> rpc_err option" where
  "Tunnel sv n first write0 errc ctx_over =
     (case dSSH sv of
        None \<Rightarrow> Some (not_configured ''ssh'')
      | Some c \<Rightarrow>
     (case first of
        Inl e \<Rightarrow> Some (Plain e)
      | Inr b \<Rightarrow>
     (case DialTCP n c of
        Inl e \<Rightarrow> Some (Status Code_Unavailable (''tunnel dial: '' @ err_text e))
      | Inr _ \<Rightarrow>
     (case (if 0 < length b then write0 else None) of
        Some e \<Rightarrow> Some (Status Code_Unavailable (''tunnel write: '' @ err_text e))
      | None \<Rightarrow>
          if err_is errc EOF_err \<or> err_is errc Canceled \<or> ctx_over then None
          else Some (Status Code_Unavailable (''tunnel: '' @ err_text errc))))))"

record scp_upload_meta =
  RemotePath :: string
  uSize :: int
  uMode :: nat
  uTimeoutMs :: int

definition rpc_SCPUpload :: "'s service \<Rightarrow> (duration option \<Rightarrow> scp_net) \<Rightarrow> goerr + scp_upload_meta in_msg
    \<Rightarrow> scp_upload_meta in_msg list \<times> goerr \<Rightarrow> (rpc_err + int) \<times> sio option" where
  "rpc_SCPUpload sv net first stream =
     (case dSSH sv of
        None \<Rightarrow> (Inl (not_configured ''ssh''), None)
      | Some c \<Rightarrow>
     (case first of
        Inl e \<Rightarrow> (Inl (Plain e), None)
      | Inr (ChunkMsg _) \<Rightarrow> (Inl (Status Code_InvalidArgument ''first SCPUpload message must be metadata''), None)
      | Inr (Metadata m) \<Rightarrow>
          if RemotePath m = [] then (Inl (Status Code_InvalidArgument ''remote_path required''), None)
          else if uSize m < 0 then (Inl (Status Code_InvalidArgument ''size must be non-negative''), None)
          else (case SCPUpload net c (RemotePath m) (uMode m) (uSize m)
                       (concat (chunks_of (fst stream)), snd stream) (dur (uTimeoutMs m) (5 * minute)) of
                  (Some e, io) \<Rightarrow> (Inl (Status Code_Unavailable (''scp upload: '' @ err_text e)), io)
                | (None, io) \<Rightarrow> (Inr (uSize m), io))))"

text \<open>The sink of \<open>SCPDownload\<close>: it sends the metadata, then the body in pieces of at most 64 KiB
  until the body ends; the messages sent, the error and the number of bytes read.\<close>

datatype download_msg = DMeta int nat string | DChunk bytes

function send_body :: "goerr option list \<Rightarrow> bytes \<Rightarrow> goerr \<Rightarrow> download_msg list \<Rightarrow> nat \<Rightarrow> download_msg list \<times> goerr option \<times> nat" where
  "send_body sres b end msgs n =
     (if b = [] then (msgs, if end = EOF_err then None else Some end, n)
      else let p = take 65536 b
           in case sres of
                Some e # _ \<Rightarrow> (msgs, Some e, n + length p)
              | _ \<Rightarrow> send_body (tl sres) (drop 65536 b) end (msgs @ [DChunk p]) (n + length p))"
  by pat_completeness auto
termination by (relation "measure (\<lambda>(_, b, _). length b)") auto

declare send_body.simps [simp del]

definition download_sink :: "goerr option list \<Rightarrow> scp_meta \<Rightarrow> bytes \<times> goerr \<Rightarrow> download_msg list \<times> goerr option \<times> nat" where
  "download_sink sres m body =
     (case sres of
        Some e # _ \<Rightarrow> ([], Some e, 0)
      | _ \<Rightarrow> send_body (tl sres) (fst body) (snd body) [DMeta (mSize m) (mMode m) (mName m)] 0)"

definition rpc_SCPDownload :: "'s service \<Rightarrow> (duration option \<Rightarrow> scp_net) \<Rightarrow> string \<Rightarrow> int \<Rightarrow> goerr option list
    \<Rightarrow> rpc_err option \<times> sio option" where
  "rpc_SCPDownload sv net remote timeoutMs sres =
     (case dSSH sv of
        None \<Rightarrow> (Some (not_configured ''ssh''), None)
      | Some c \<Rightarrow>
          if remote = [] then (Some (Status Code_InvalidArgument ''remote_path required''), None)
          else (case SCPDownload net c remote (dur timeoutMs (5 * minute)) (\<lambda>m b. snd (download_sink sres m b)) of
                  (Some e, io) \<Rightarrow> (Some (Status Code_Unavailable (''scp download: '' @ err_text e)), io)
                | (None, io) \<Rightarrow> (None, io)))"


subsection \<open>Streaming the console\<close>

text \<open>Offsets as a running count of the bytes sent before.\<close>

fun offsets :: "int \<Rightarrow> (bytes \<times> int) list \<Rightarrow> bool" where
  "offsets off [] = True"
| "offsets off ((p, o1) # cs) = (o1 = off \<and> offsets (i64 (off + int (length p))) cs)"

text \<open>Subscription \<open>i\<close> exists and has handed out \<open>got\<close>.\<close>

definition sub_at :: "nat \<Rightarrow> bytes \<Rightarrow> 'e world \<Rightarrow> bool" where
  "sub_at i got w \<longleftrightarrow> stream_ok (hist w) \<and> i < nextID (conw w) \<and> recvd (hist w) i = got"

lemma nextID_step: "i < nextID (cons h) \<Longrightarrow> i < nextID (cons (con_step h e))"
  by (cases e) (auto simp: publish_def Subscribe_def sub_Close_def sub_recv_def con_Reset_def closeWithErr_def Let_def
      split: option.splits list.splits)

lemma recvd_step: "i < nextID (cons h) \<Longrightarrow> e \<noteq> ORecv i \<Longrightarrow> recvd (con_step h e) i = recvd h i"
  by (cases e) (auto simp: Subscribe_def Let_def split: recv.splits prod.splits)

lemma sub_at_env: "sub_at i got w \<Longrightarrow> v \<noteq> Con (ORecv i) \<Longrightarrow> sub_at i got (env v w)"
  by (cases v) (auto simp: sub_at_def con_do_def ctx_fire_def stream_ok_step nextID_step recvd_step)

lemma sub_at_recv: "sub_at i got w \<Longrightarrow> fst (sub_recv i (conw w)) = Chunk p \<Longrightarrow> sub_at i (got @ p) (con_do (ORecv i) w)"
  using stream_ok_step [of "hist w" "ORecv i"] nextID_step [of i "hist w" "ORecv i"]
  by (auto simp: sub_at_def con_do_def split: prod.splits)

lemma sub_at_emitted [simp]: "sub_at i got (w\<lparr>emitted := x\<rparr>) = sub_at i got w"
  by (simp add: sub_at_def)

lemma emitted_env [simp]: "emitted (env v w) = emitted w"
  by (cases v) (simp_all add: con_do_def ctx_fire_def)

lemma emitted_con_do [simp]: "emitted (con_do e w) = emitted w"
  by (simp add: con_do_def)

lemma stream_loop_sends:
  "\<lbrakk>sub_at i got w; Con (ORecv i) \<notin> set es; stream_loop k i off sres es w = (r, es', w')\<rbrakk> \<Longrightarrow>
   \<exists>cs l. emitted w' = emitted w @ cs \<and> offsets off cs \<and> sub_at i (got @ concat (map fst cs) @ l) w' \<and> suffix es' es"
proof (induction es arbitrary: got off sres w)
  case Nil
  then show ?case by (auto intro!: exI [of _ "[]"])
next
  case (Cons v es)
  note es = Cons.prems(2)
  have stop: "\<exists>cs l. emitted w' = emitted w @ cs \<and> offsets off cs \<and> sub_at i (got @ concat (map fst cs) @ l) w' \<and> suffix es' (v # es)"
    if "w' = w" "es' = es"
    using that Cons.prems(1) by (auto simp: suffix_ConsI intro!: exI [of _ "[]"])
  show ?case
  proof (cases v)
    case (Go b)
    show ?thesis
    proof (cases "ctx_err w k \<noteq> None \<and> (b \<or> fst (sub_recv i (conw w)) = Empty)")
      case True
      with Cons.prems(3) Go show ?thesis by (intro stop) (auto simp: Let_def)
    next
      case False
      show ?thesis
      proof (cases "fst (sub_recv i (conw w))")
        case (Chunk p)
        let ?w1 = "con_do (ORecv i) w"
        have s1: "sub_at i (got @ p) ?w1" by (rule sub_at_recv [OF Cons.prems(1) Chunk])
        show ?thesis
        proof (cases "\<exists>e xs. sres = Some e # xs")
          case True
          with False Chunk Cons.prems(3) Go have "w' = ?w1" "es' = es" by (auto simp: Let_def)
          with s1 show ?thesis by (intro exI [of _ "[]"] exI [of _ p]) (simp add: suffix_ConsI)
        next
          case no: False
          let ?w2 = "?w1\<lparr>emitted := emitted ?w1 @ [(p, off)]\<rparr>"
          have "stream_loop k i (i64 (off + int (length p))) (tl sres) es ?w2 = (r, es', w')"
            using False Chunk Cons.prems(3) Go no by (auto simp: Let_def split: list.splits option.splits)
          from Cons.IH [OF _ _ this, of "got @ p"] s1 es
          obtain cs l where "emitted w' = emitted ?w2 @ cs" "offsets (i64 (off + int (length p))) cs"
            "sub_at i ((got @ p) @ concat (map fst cs) @ l) w'" "suffix es' es" by auto
          then show ?thesis by (intro exI [of _ "(p, off) # cs"] exI [of _ l]) (simp add: suffix_ConsI)
        qed
      next
        case Ended
        with False Cons.prems(3) Go show ?thesis by (intro stop) (auto simp: Let_def)
      next
        case Empty
        with False Cons.prems(3) Go have "stream_loop k i off sres es w = (r, es', w')" by (auto simp: Let_def)
        from Cons.IH [OF Cons.prems(1) _ this] es show ?thesis by (auto simp: suffix_ConsI)
      qed
    qed
  next
    case (Con e)
    then have ne: "v \<noteq> Con (ORecv i)" "Con (ORecv i) \<notin> set es" using es by auto
    from Con Cons.prems(3) have "stream_loop k i off sres es (env v w) = (r, es', w')" by simp
    from Cons.IH [OF sub_at_env [OF Cons.prems(1) ne(1)] ne(2) this]
    show ?thesis unfolding emitted_env by (blast intro: suffix_ConsI)
  next
    case (Fire j e)
    then have ne: "v \<noteq> Con (ORecv i)" "Con (ORecv i) \<notin> set es" using es by auto
    from Fire Cons.prems(3) have "stream_loop k i off sres es (env v w) = (r, es', w')" by simp
    from Cons.IH [OF sub_at_env [OF Cons.prems(1) ne(1)] ne(2) this]
    show ?thesis unfolding emitted_env by (blast intro: suffix_ConsI)
  qed
qed

lemma atomic_sub_at:
  assumes "atomic f es w = (r, es', w')" "sub_at i got w" "Con (ORecv i) \<notin> set es"
    "\<And>w. sub_at i got w \<Longrightarrow> sub_at i got (snd (f w)) \<and> emitted (snd (f w)) = emitted w"
  shows "sub_at i got w' \<and> emitted w' = emitted w"
  using assms(1-3)
proof (induction es arbitrary: w)
  case (Cons v es)
  show ?case
  proof (cases "\<exists>b. v = Go b")
    case True
    with Cons.prems assms(4) [of w] show ?thesis by (cases "f w") auto
  next
    case False
    then have "atomic f es (env v w) = (r, es', w')" using Cons.prems(1) by (cases v) auto
    from Cons.IH [OF this sub_at_env [OF Cons.prems(2)]] Cons.prems(3) show ?thesis by auto
  qed
qed simp

lemma sub_at_prefix:
  assumes "sub_at i got w"
  shows "prefix got (replay (hist w) i @ drop (origin (hist w) i) (log (hist w)))"
proof -
  have "stream_ok (hist w)" "i < length (heap (conw w))" using assms by (auto simp: sub_at_def stream_ok_def console_ok_def)
  moreover then obtain s where "look (heap (conw w)) i = Some s" by (auto simp: look_def)
  ultimately obtain seen where r: "recvd (hist w) i @ concat (queue (ch s)) = replay (hist w) i @ seen"
    and seen: "prefix seen (drop (origin (hist w) i) (log (hist w)))" by (elim stream_okD)
  have "prefix (recvd (hist w) i) (replay (hist w) i @ seen)" unfolding r [symmetric] by simp
  also have "prefix \<dots> (replay (hist w) i @ drop (origin (hist w) i) (log (hist w)))" using seen by simp
  finally show ?thesis using assms by (simp add: sub_at_def)
qed


definition service0 :: "fake service" where
  "service0 = \<lparr>dVersion = ''1'', dConsole = True, dPower = None, dOrchestrator = None, dStore = Some dut1, dSSH = None, dSessions = True,
     SerialDevice = ''tty'', SerialBaud = 115200, TFTPAddress = [], SSHTarget = [], SSHUser = [], PowerOutlet = 0\<rparr>"



subsection \<open>Timeouts and missing capabilities\<close>

text \<open>C28: Request timeouts in milliseconds. A timeout that is not positive means the default;
  up to 9223372036854 ms the duration is exact and positive. Above that the 64-bit product of
  nanoseconds wraps around: one millisecond more is negative, and a wait under it is over
  before it starts.\<close>

theorem dur_bounds:
  "(ms \<le> 0 \<longrightarrow> dur ms def = def) \<and>
   (0 < ms \<and> ms \<le> 9223372036854 \<longrightarrow> dur ms def = ms * millisecond \<and> 0 < dur ms def) \<and>
   (0 < ms \<longrightarrow> - (2 ^ 63) \<le> dur ms def \<and> dur ms def < 2 ^ 63) \<and>
   dur 9223372036855 def < 0 \<and>
   (k < length (ctxs w) \<longrightarrow> ctx_err (with_timeout k (dur 9223372036855 def) w) (k + 1) \<noteq> None)"
proof -
  have neg: "dur 9223372036855 def < 0" by (simp add: dur_def i64_def millisecond_def)
  have "k < length (ctxs w) \<longrightarrow> ctx_err (with_timeout k (dur 9223372036855 def) w) (k + 1) \<noteq> None"
    using neg by (auto simp: with_timeout_def ctx_err_def look_def nth_append min_def)
  then show ?thesis using neg i64_range by (auto simp: dur_def millisecond_def i64_def)
qed

theorem dur_bounds_witness: "dur 1500 7 = 1500000000 \<and> dur 0 7 = 7 \<and> dur (- 3) 7 = 7"
  using dur_bounds [of 1500 7, THEN conjunct2, THEN conjunct1] dur_bounds [of 0 7, THEN conjunct1]
    dur_bounds [of "- 3" 7, THEN conjunct1] by (simp add: millisecond_def)

text \<open>A capability the daemon was not configured with. Every RPC that needs it answers
  \<open>FailedPrecondition\<close> and does nothing: no step on the console, no change of the
  outlet's or the image directory's state, no SSH connection.\<close>

lemma unconfigured_refused:
  "(\<not> dConsole sv \<longrightarrow>
      StreamConsole sv k n sres = return_p (not_configured ''serial console'') \<and>
      ReadConsoleLog sv m con = Inl (not_configured ''serial console'') \<and>
      WriteConsole sv data keys = (return_p (Inl (not_configured ''serial console'')) :: (_, unit) proc) \<and>
      rpc_WaitForPattern sv compile k pat ms sb el = (return_p (Inl (not_configured ''serial console'')) :: (_, unit) proc)) \<and>
   (dPower sv = None \<longrightarrow> PowerControl sv act ms s = (Inl (not_configured ''power control''), s)) \<and>
   (dOrchestrator sv = None \<longrightarrow>
      rpc_InterruptBoot sv pw k pc ms = return_p (boot_fails (not_configured ''uboot orchestrator'')) \<and>
      rpc_Netboot sv en f pw k q = return_p (boot_fails (not_configured ''uboot orchestrator'')) \<and>
      RunUbootCommand sv k cmd ms = return_p (Inl (not_configured ''uboot orchestrator''))) \<and>
   (dStore sv = None \<longrightarrow>
      UploadImage sv en first stream refused f = (Inl (not_configured ''image store''), f) \<and>
      ListImages sv en f = Inl (not_configured ''image store'') \<and>
      DeleteImage sv en nm f = (Some (not_configured ''image store''), f)) \<and>
   (dSSH sv = None \<longrightarrow>
      SSHExec sv net cmd ms = Inl (not_configured ''ssh'') \<and>
      Tunnel sv snet first2 w0 errc over = Some (not_configured ''ssh'') \<and>
      rpc_SCPUpload sv pnet first3 stream3 = (Inl (not_configured ''ssh''), None) \<and>
      rpc_SCPDownload sv pnet path ms sres = (Some (not_configured ''ssh''), None))"
  by (simp add: StreamConsole_def ReadConsoleLog_def WriteConsole_def rpc_WaitForPattern_def PowerControl_def
      rpc_InterruptBoot_def rpc_Netboot_def RunUbootCommand_def UploadImage_def ListImages_def DeleteImage_def
      SSHExec_def Tunnel_def rpc_SCPUpload_def rpc_SCPDownload_def)

definition bare_service :: "fake service" where
  "bare_service = service0\<lparr>dConsole := False, dStore := None\<rparr>"

lemma unconfigured_refused_witness:
  "ReadConsoleLog bare_service 5 (new_console 1 8) = Inl (Status Code_FailedPrecondition ''serial console not configured'') \<and>
   DeleteImage bare_service os0 ''k'' fs0 = (Some (Status Code_FailedPrecondition ''image store not configured''), fs0) \<and>
   PowerControl bare_service ACTION_OFF 0 (NewFake StateOn) = (Inl (Status Code_FailedPrecondition ''power control not configured''), NewFake StateOn)"
  using unconfigured_refused [of bare_service, where m = 5 and con = "new_console 1 8" and f = fs0 and en = os0 and nm = "''k''"
      and act = ACTION_OFF and ms = 0 and s = "NewFake StateOn"]
  by (simp add: bare_service_def service0_def not_configured_def)

text \<open>With an orchestrator \<open>RunUbootCommand\<close> has no error to give: whatever went wrong on the
  console, the caller sees an answer without the prompt.\<close>

lemma RunUbootCommand_never_fails:
  assumes "dOrchestrator sv = Some ob" "RunUbootCommand sv k cmd ms es w = (Some r, es', w')"
  shows "\<exists>out err es1 w1. RunCommand ob (k + 1) cmd es1 w1 = (Some (out, err), es', w') \<and> r = Inr (out, err = None)"
  using assms by (fastforce simp: RunUbootCommand_def return_p_def dest!: bind_p_Some)

subsection \<open>Images and booting\<close>

text \<open>The entry of the listing with a given name is that of the one file with that name.\<close>

lemma listed_image:
  assumes "store_ok s" "fs_ok f" "List_images en s f = Inr l" "im \<in> set l" "im_name im = n"
  shows "\<exists>d t. fs_get f (on_disk s (prefix_s s @ n)) = Some (File d t) \<and> im = listed en s (prefix_s s @ n) d t"
proof -
  from list_mem [OF assms(1-3), of im] assms(4) obtain b d t
    where b: "visible s b" "fs_get f (on_disk s b) = Some (File d t)" "im = listed en s b d t" by blast
  moreover from b(1) obtain n' where "b = prefix_s s @ n'" by (auto simp: visible_def prefix_def)
  ultimately have "b = prefix_s s @ n" using assms(5) by (simp add: listed_def)
  with b show ?thesis by blast
qed

lemma upload_outcome:
  assumes "dStore sv = Some st" "store_ok st" "create_temp en = Inr rnd" "plain (''.upload-'' @ rnd)"
    "fs_get f (on_disk st (''.upload-'' @ rnd)) = None" "remove_err en (on_disk st (''.upload-'' @ rnd)) = None"
    "prefix_s st @ name \<noteq> ''.upload-'' @ rnd"
    "UploadImage sv en (Inr (Metadata (name, ow))) (ms, end) refused f = (res, f')"
  shows "case res of
      Inl _ \<Rightarrow> \<forall>q. fs_get f' q = fs_get f q
    | Inr i \<Rightarrow> end = EOF_err \<and> im_name i = name \<and> im_size i = int (length (concat (map GetChunk ms))) \<and>
        im_crc32 i = crc32 (concat (map GetChunk ms)) \<and>
        (\<forall>q. fs_get f' q = (if q = on_disk st (prefix_s st @ name)
           then Some (File (concat (map GetChunk ms)) (now en)) else fs_get f q))"
proof -
  let ?e = "if end = EOF_err then None else Some end"
  have ch: "concat (chunks_of ms) = concat (map GetChunk ms)"
    by (induction ms) (auto simp: chunks_of_def)
  obtain r f1 where s: "Save en st name (chunks_of ms, ?e) ow f = (r, f1)" by (metis prod.collapse)
  have p: "on_disk st (prefix_s st @ name) \<noteq> on_disk st (''.upload-'' @ rnd)" using assms(7) by simp
  note o = save_outcome [OF assms(2-4) refl assms(5,6) refl p s]
  show ?thesis
  proof (cases r)
    case (Inl x)
    with assms(1,8) s have "f' = f1" "\<exists>y. res = Inl y" by (auto simp: UploadImage_def split: option.splits if_splits)
    with o Inl show ?thesis by auto
  next
    case (Inr i)
    with assms(1,8) s have "f' = f1" "res = Inr i" by (auto simp: UploadImage_def split: if_splits)
    with o Inr show ?thesis by (auto simp: ch split: if_splits)
  qed
qed




text \<open>C30: A network boot over the RPC asks for the right file and checks it against the right
  numbers. When the RPC succeeds on a store whose calls do not fail, the board has been told to fetch the on-disk
  name of the image, with the instance's prefix; and with CRC verification the directory holds such a
  file, and the board has been given its true length and CRC-32. The name is then one the store accepts.\<close>

theorem netboot_rpc:
  assumes "dStore sv = Some st" "store_ok st" "fs_ok f" "\<And>cyc. pw = Some cyc \<Longrightarrow> silent (cyc 0)"
    "\<forall>x. open_err en x = None \<and> read_err en x = None"
    "dOrchestrator sv = Some ob" "rpc_Netboot sv en f pw k q es w = (Some (ev, None), es', w')"
  shows "\<exists>p j. good_name (qImage q) \<and> Image p = prefix_s st @ qImage q \<and>
      sent w' = sent w @ replicate j (interruptKB ob) @ netboot_cmds ob p \<and>
      (''tftpboot $loadaddr $serverip:/'' @ prefix_s st @ qImage q) @ [CR] \<in> set (netboot_cmds ob p) \<and>
      (qVerify q \<longrightarrow> (\<exists>d t. fs_get f (on_disk st (prefix_s st @ qImage q)) = Some (File d t) \<and>
         (''crc32 -v '' @ LoadAddr (ucfg ob) @ '' 0x'' @ fmt_x (int (length d)) @ '' '' @ zero_pad 8 (to_base 16 (unat (crc32 d)))) @ [CR]
           \<in> set (netboot_cmds ob p)))"
proof -
  obtain p where p: "netboot_request_params sv en f q = Inr p"
    using assms(6,7) by (cases "netboot_request_params sv en f q") (auto simp: rpc_Netboot_def return_p_def boot_fails_def)
  have nb: "Netboot ob pw k p True es w = (Some None, es', w')"
  proof -
    from assms(6,7) p obtain err where n: "Netboot ob pw k p True es w = (Some err, es', w')" "boot_done err = (ev, None)"
      by (auto simp: rpc_Netboot_def return_p_def dest!: bind_p_Some)
    then have "err = None" by (cases err) (auto simp: boot_done_def finishBoot_def)
    with n show ?thesis by simp
  qed
  have disk: "OnDiskName st n = (if good_name n then Inr (prefix_s st @ n) else
      Inl (Err (''tftp: invalid image name '' @ quote n @ '' (must be a plain filename)'')))" for n
    by (simp add: OnDiskName_def sanitize_iff)
  have good: "good_name (qImage q)" and img: "Image p = prefix_s st @ qImage q" and ver: "VerifyCRC32 p = qVerify q"
    using p assms(1) by (auto simp: netboot_request_params_def disk Let_def split: if_splits sum.splits option.splits)
  from sends_D [OF sends_Netboot nb] assms(4)
  obtain j where j: "sent w' = sent w @ replicate j (interruptKB ob) @ netboot_cmds ob p" by fastforce
  have tftp: "(''tftpboot $loadaddr $serverip:/'' @ prefix_s st @ qImage q) @ [CR] \<in> set (netboot_cmds ob p)"
    by (simp add: netboot_cmds_def img)
  have crc: "\<exists>d t. fs_get f (on_disk st (prefix_s st @ qImage q)) = Some (File d t) \<and>
      ImageLen p = int (length d) \<and> ImageCRC32 p = crc32 d" if v: "qVerify q"
  proof -
    from p assms(1) v obtain l im where l: "List_images en st f = Inr l"
      and im: "find (\<lambda>im. im_name im = qImage q) l = Some im" and pi: "ImageLen p = im_size im" "ImageCRC32 p = im_crc32 im"
      by (auto simp: netboot_request_params_def disk Let_def split: if_splits sum.splits option.splits)
    from im have "im \<in> set l" "im_name im = qImage q" by (auto simp: find_Some_iff)
    from listed_image [OF assms(2,3) l this] pi assms(5) show ?thesis by (auto simp: listed_def)
  qed
  show ?thesis
  proof (rule exI [of _ p], rule exI [of _ j], intro conjI impI)
    show "good_name (qImage q)" "Image p = prefix_s st @ qImage q" by fact+
    show "sent w' = sent w @ replicate j (interruptKB ob) @ netboot_cmds ob p" by fact
    show "(''tftpboot $loadaddr $serverip:/'' @ prefix_s st @ qImage q) @ [CR] \<in> set (netboot_cmds ob p)" by fact
    assume v: "qVerify q"
    with crc obtain d t where d: "fs_get f (on_disk st (prefix_s st @ qImage q)) = Some (File d t)"
      "ImageLen p = int (length d)" "ImageCRC32 p = crc32 d" by blast
    have "crc_cmd ob p @ [CR] \<in> set (netboot_cmds ob p)" using v ver by (simp add: netboot_cmds_def)
    with d show "\<exists>d t. fs_get f (on_disk st (prefix_s st @ qImage q)) = Some (File d t) \<and>
       (''crc32 -v '' @ LoadAddr (ucfg ob) @ '' 0x'' @ fmt_x (int (length d)) @ '' '' @ zero_pad 8 (to_base 16 (unat (crc32 d)))) @ [CR]
         \<in> set (netboot_cmds ob p)"
      by (auto simp: crc_cmd_def)
  qed
qed

definition uconfig1 :: uconfig where
  "uconfig1 = \<lparr>PromptPattern = [], InterruptPattern = [], InterruptKey = [], EthAct = [], LoadAddr = [],
     CoreMask = [], ServerIP = ''10.0.0.1'', CommandTimeout = 0, KernelBanner = []\<rparr>"

definition orch1 :: orch where
  "orch1 = \<lparr>ucfg = withDefaults uconfig1, promptRE = prompt_re, interruptRE = interrupt_re,
     bannerRE = banner_re, interruptKB = [byte 24]\<rparr>"

definition service1 :: "fake service" where
  "service1 = service0\<lparr>dOrchestrator := Some orch1\<rparr>"

definition request1 :: netboot_request where
  "request1 = \<lparr>qImage = ''k'', qPowerCycle = False, qKernelArgs = [], qVerify = True, qTimeoutMs = 0\<rparr>"

definition params1 :: netboot_params where
  "params1 = \<lparr>Image = ''dut1--k'', PowerCycle = False, nServerIP = [], KernelArgs = [], VerifyCRC32 = True,
     ImageLen = 3, ImageCRC32 = 0x352441C2, nTimeout = 300000000000\<rparr>"

lemma load0: "LoadAddr (ucfg orch1) = ''0x20000000''" "fmt_x 3 = ''3''"
proof -
  have "digit_char 3 = CHR ''3''" by code_simp
  then show "fmt_x 3 = ''3''" by (simp add: fmt_x_def to_base.simps)
qed (simp add: orch1_def uconfig1_def withDefaults_def)

lemma crc_hex: "zero_pad 8 (to_base 16 891568578) = ''352441c2''"
proof -
  have "map digit_char [3, 5, 2, 4, 4, 1, 12, 2] = ''352441c2''" by code_simp
  then show ?thesis by (simp add: to_base.simps zero_pad_def)
qed

lemma netboot_params1: "netboot_request_params service1 os0 fs1 request1 = Inr params1"
proof -
  have "good_name ''k''" "last ''k'' \<notin> set spaces" by (simp_all add: good_name_def plain_def spaces_def)
  moreover have "prefix_s dut1 = ''dut1--''" by (simp add: dut1_def Namespaced_def)
  moreover have "fs_get fs1 (on_disk dut1 (prefix_s dut1 @ ''k'')) = Some (File ''abc'' 1000)"
    using fs1_get calculation(3) by (simp add: on_disk_dut1)
  ultimately obtain l where l: "List_images os0 dut1 fs1 = Inr l"
    "\<lparr>im_name = ''k'', im_size = 3, im_mtime = 1000, im_crc32 = crc32 ''abc'', im_sha256 = []\<rparr> \<in> set l"
    using saved_is_served_facts(1) [OF stores_ok(2) fs1_ok, of "''k''" "''abc''" 1000 os0] by (auto simp: os0_def)
  obtain im where im: "find (\<lambda>im. im_name im = ''k'') l = Some im"
    using l(2) by (cases "find (\<lambda>im. im_name im = ''k'') l") (force simp: find_None_iff)+
  then have "im \<in> set l" "im_name im = ''k''" by (auto simp: find_Some_iff)
  from listed_image [OF stores_ok(2) fs1_ok l(1) this] \<open>fs_get fs1 _ = _\<close>
  have "im_size im = 3" "im_crc32 im = crc32 ''abc''" by (auto simp: listed_def os0_def)
  moreover have "OnDiskName dut1 ''k'' = Inr ''dut1--k''" by code_simp
  ultimately show ?thesis using l(1) im
    by (simp add: crc_abc netboot_request_params_def service1_def service0_def request1_def params1_def dur_def
        minute_def second_def millisecond_def)
qed

lemma run1:
  "\<exists>w'. rpc_Netboot service1 os0 fs1 None 0 request1 (netboot_script params1 board0) (world0 8 64) =
     (Some (Some \<lparr>bKind = KIND_SUCCESS, bStage = [], bMessage = ''operation completed'', bConsole = []\<rparr>, None), [], w')"
proof -
  have g: "good_board orch1 params1 board0"
  proof -
    have c: "crc_cmd orch1 params1 = ''crc32 -v 0x20000000 0x3 352441c2''"
      by (simp add: crc_cmd_def params1_def crc_hex load0)
    have q: "Image params1 = ''dut1--k''" "nServerIP params1 = []" "VerifyCRC32 params1 = True"
      by (simp_all add: params1_def)
    show ?thesis unfolding good_board_def c q by (intro conjI impI; code_simp)
  qed
  have p: "Image params1 \<noteq> []" "nServerIP params1 \<noteq> [] \<or> ServerIP (ucfg orch1) \<noteq> []" "\<not> PowerCycle params1"
    by (simp_all add: params1_def orch1_def uconfig1_def withDefaults_def)
  have ob: "dOrchestrator service1 = Some orch1" by (simp add: service1_def)
  from succeeds_Netboot [OF p g, of None 0 True] ready0
  obtain w' where "Netboot orch1 None 0 params1 True (netboot_script params1 board0) (world0 8 64) = (Some None, [], w')"
    unfolding succeeds_def by (metis append_Nil2)
  then show ?thesis
    using ob by (simp add: rpc_Netboot_def netboot_params1 bind_p_def return_p_def boot_done_def finishBoot_def)
qed

theorem netboot_rpc_witness:
  "\<exists>w' ev cs. rpc_Netboot service1 os0 fs1 None 0 request1 (netboot_script params1 board0) (world0 8 64) = (Some (ev, None), [], w') \<and>
     sent w' = cs \<and> ''tftpboot $loadaddr $serverip:/dut1--k'' @ [CR] \<in> set cs \<and>
     ''crc32 -v 0x20000000 0x3 352441c2'' @ [CR] \<in> set cs"
proof -
  from run1 obtain w' ev where r: "rpc_Netboot service1 os0 fs1 None 0 request1 (netboot_script params1 board0) (world0 8 64) =
      (Some (ev, None), [], w')" by blast
  have s: "dStore service1 = Some dut1" "dOrchestrator service1 = Some orch1" "qImage request1 = ''k''" "qVerify request1"
    "\<forall>x. open_err os0 x = None \<and> read_err os0 x = None" "prefix_s dut1 = ''dut1--''"
    by (simp_all add: service1_def service0_def request1_def os0_def dut1_def Namespaced_def)
  have f: "fs_get fs1 (on_disk dut1 (''dut1--'' @ ''k'')) = Some (File ''abc'' 1000)" using fs1_get by (simp add: on_disk_dut1)
  from netboot_rpc [OF s(1) stores_ok(2) fs1_ok _ s(5) s(2) r] obtain p j d t
    where c: "sent w' = sent (world0 8 64 :: uworld) @ replicate j (interruptKB orch1) @ netboot_cmds orch1 p"
      "(''tftpboot $loadaddr $serverip:/'' @ prefix_s dut1 @ qImage request1) @ [CR] \<in> set (netboot_cmds orch1 p)"
      "fs_get fs1 (on_disk dut1 (prefix_s dut1 @ qImage request1)) = Some (File d t)"
      "(''crc32 -v '' @ LoadAddr (ucfg orch1) @ '' 0x'' @ fmt_x (int (length d)) @ '' '' @ zero_pad 8 (to_base 16 (unat (crc32 d)))) @ [CR]
           \<in> set (netboot_cmds orch1 p)"
    using s(4) by auto
  from c(3) f have d: "d = ''abc''" by (simp only: s) simp
  show ?thesis
  proof (intro exI conjI)
    show "rpc_Netboot service1 os0 fs1 None 0 request1 (netboot_script params1 board0) (world0 8 64) = (Some (ev, None), [], w')" by (rule r)
    show "sent w' = replicate j (interruptKB orch1) @ netboot_cmds orch1 p" using c(1) by simp
    show "''tftpboot $loadaddr $serverip:/dut1--k'' @ [CR] \<in> set (replicate j (interruptKB orch1) @ netboot_cmds orch1 p)"
      using c(2) by (simp add: s)
    show "''crc32 -v 0x20000000 0x3 352441c2'' @ [CR] \<in> set (replicate j (interruptKB orch1) @ netboot_cmds orch1 p)"
      using c(4) by (simp add: d load0 crc_abc crc_hex)
  qed
qed

end
