(* ===== verification/Daemon_Config.thy ===== *)
theory Daemon_Config
  imports Image_Store Power_Control Uboot
begin

text \<open>
  \<open>internal/config/config.go\<close>: the daemon's configuration, its defaults, and how a file is loaded
  and validated. Decoding YAML into a configuration is the parameter \<open>unmarshal\<close> (the fields a
  file does not mention keep the value they had); what reading the file gave is \<open>rd\<close>. The
  sections whose fields are those of the packages they configure use these packages' records
  (\<open>apc_config\<close>, \<open>uconfig\<close>); a \<open>*bool\<close> is a \<open>bool option\<close>.
\<close>

record session_config =
  sesEnabled :: "bool option"
  sesTTL :: duration

record serial_config =
  sDevice :: string
  sBaud :: int
  sBufferBytes :: int

record tftp_config =
  tftpDir :: string
  tftpAddr :: string
  tftpOn :: "bool option"
  tftpMaxAge :: duration

record ssh_section =
  sshHost :: string
  sshUser :: string
  sshPassword :: string
  sshPrivateKeyPath :: string
  sshKnownHostsPath :: string
  sshDialTimeout :: duration

record tls_config =
  tlsOn :: "bool option"
  CertFile :: string
  KeyFile :: string
  ClientCAFile :: string

record config =
  Name :: string
  Serial :: serial_config
  PowerCfg :: apc_config
  UBoot :: uconfig
  TFTP :: tftp_config
  SSH :: ssh_section
  grpcAddress :: string
  TLS :: tls_config
  SessionCfg :: session_config

definition DefaultConfig :: config where
  "DefaultConfig =
     \<lparr>Name = [],
      Serial = \<lparr>sDevice = ''/dev/serial/by-id/usb-FTDI_FT232R_USB_UART_ST163104-if00-port0'', sBaud = 115200,
                sBufferBytes = 1048576\<rparr>,
      PowerCfg = \<lparr>Address = [], Community = ''private'', Outlet = 3, Version = ''v1'', Timeout = 3 * second, Retries = 1,
                  CommandOIDBase = [], StateOIDBase = [], OffDuration = 5 * second\<rparr>,
      UBoot = \<lparr>PromptPattern = [], InterruptPattern = [], InterruptKey = [], EthAct = ''octmgmt0'',
               LoadAddr = ''0x20000000'', CoreMask = ''f'', ServerIP = [], CommandTimeout = 30 * second, KernelBanner = []\<rparr>,
      TFTP = \<lparr>tftpDir = ''/var/lib/unwedge/images'', tftpAddr = '':69'', tftpOn = Some True, tftpMaxAge = 6 * hour\<rparr>,
      SSH = \<lparr>sshHost = [], sshUser = ''root'', sshPassword = [], sshPrivateKeyPath = [], sshKnownHostsPath = [],
             sshDialTimeout = 10 * second\<rparr>,
      grpcAddress = '':7777'',
      TLS = \<lparr>tlsOn = Some True, CertFile = [], KeyFile = [], ClientCAFile = []\<rparr>,
      SessionCfg = \<lparr>sesEnabled = Some True, sesTTL = 5 * minute\<rparr>\<rparr>"

definition SessionEnabled :: "config \<Rightarrow> bool" where
  "SessionEnabled c = (sesEnabled (SessionCfg c) = None \<or> sesEnabled (SessionCfg c) = Some True)"

definition TFTPEnabled :: "config \<Rightarrow> bool" where
  "TFTPEnabled c = (tftpOn (TFTP c) = None \<or> tftpOn (TFTP c) = Some True)"

definition TLSEnabled :: "config \<Rightarrow> bool" where
  "TLSEnabled c = (tlsOn (TLS c) = None \<or> tlsOn (TLS c) = Some True)"

definition defaultInstanceName :: "string \<Rightarrow> string" where
  "defaultInstanceName path =
     (let base = path_base path; name = trim_suffix base (path_ext base)
      in if name = ''config'' then [] else name)"

text \<open>The two character classes of \<open>instanceNameRe\<close>; its \<open>$\<close> matches at the end of the text only.\<close>

definition alnum :: "char \<Rightarrow> bool" where
  "alnum c = (let n = ord c in 65 \<le> n \<and> n \<le> 90 \<or> 97 \<le> n \<and> n \<le> 122 \<or> 48 \<le> n \<and> n \<le> 57)"

definition name_char :: "char \<Rightarrow> bool" where
  "name_char c = (alnum c \<or> c = CHR ''.'' \<or> c = CHR ''_'' \<or> c = CHR ''-'')"

fun instanceNameRe :: "string \<Rightarrow> bool" where
  "instanceNameRe [] = False"
| "instanceNameRe (c # cs) = (alnum c \<and> list_all name_char cs)"

definition Validate :: "config \<Rightarrow> goerr option" where
  "Validate c =
     (if Name c \<noteq> [] \<and> (\<not> instanceNameRe (Name c) \<or> contains_str (Name c) ''--'')
      then Some (Err (''config: name '' @ quote (Name c) @ '' is invalid (use letters, digits, '' @ [CHR 0x27] @ ''.'' @
             [CHR 0x27] @ '', '' @ [CHR 0x27] @ ''_'' @ [CHR 0x27] @ '', '' @ [CHR 0x27] @ ''-'' @ [CHR 0x27] @
             ''; no '' @ [CHR 0x22] @ ''--'' @ [CHR 0x22] @ '')''))
      else if sDevice (Serial c) = [] then Some (Err ''config: serial.device is required'')
      else if sBaud (Serial c) \<le> 0 then Some (Err ''config: serial.baud must be positive'')
      else if grpcAddress c = [] then Some (Err ''config: grpc.address is required'')
      else if TLSEnabled c \<and> (CertFile (TLS c) = [] \<or> KeyFile (TLS c) = [])
      then Some (Err ''config: grpc.tls.cert_file and key_file are required when TLS is enabled'')
      else if TFTPEnabled c \<and> tftpDir (TFTP c) = []
      then Some (Err ''config: tftp.dir is required when TFTP is enabled'')
      else if Address (PowerCfg c) \<noteq> [] \<and> Outlet (PowerCfg c) < 1
      then Some (Err ''config: power.outlet must be >= 1 when power.address is set'')
      else None)"

definition Load :: "(bytes \<Rightarrow> config \<Rightarrow> goerr + config) \<Rightarrow> string \<Rightarrow> goerr + bytes \<Rightarrow> goerr + config" where
  "Load unmarshal path rd =
     (case rd of
        Inl e \<Rightarrow> Inl (Wrap (''config: read '' @ path) e)
      | Inr b \<Rightarrow>
     (case unmarshal b DefaultConfig of
        Inl e \<Rightarrow> Inl (Wrap (''config: parse '' @ path) e)
      | Inr c0 \<Rightarrow>
          let c = (if Name c0 = [] then c0\<lparr>Name := defaultInstanceName path\<rparr> else c0)
          in case Validate c of Some e \<Rightarrow> Inl e | None \<Rightarrow> Inr c))"

subsection \<open>A loaded configuration\<close>

text \<open>What the daemon may rely on.\<close>

definition config_ok :: "config \<Rightarrow> bool" where
  "config_ok c \<longleftrightarrow>
     (Name c = [] \<or> alnum (hd (Name c)) \<and> (\<forall>x \<in> set (Name c). name_char x) \<and> \<not> contains_str (Name c) ''--'') \<and>
     sDevice (Serial c) \<noteq> [] \<and> 0 < sBaud (Serial c) \<and> grpcAddress c \<noteq> [] \<and>
     (TLSEnabled c \<longrightarrow> CertFile (TLS c) \<noteq> [] \<and> KeyFile (TLS c) \<noteq> []) \<and>
     (TFTPEnabled c \<longrightarrow> tftpDir (TFTP c) \<noteq> []) \<and>
     (Address (PowerCfg c) \<noteq> [] \<longrightarrow> 1 \<le> Outlet (PowerCfg c))"

lemma alnum_not: "alnum c \<Longrightarrow> c \<noteq> CHR ''/'' \<and> c \<noteq> CHR 0x5C \<and> c \<noteq> CHR ''.''"
  by (auto simp: alnum_def Let_def ord_def)

lemma name_char_not: "name_char c \<Longrightarrow> c \<noteq> CHR ''/'' \<and> c \<noteq> CHR 0x5C"
  by (auto simp: name_char_def dest: alnum_not)

lemma instanceNameRe_iff: "instanceNameRe n \<longleftrightarrow> n \<noteq> [] \<and> alnum (hd n) \<and> (\<forall>x \<in> set n. name_char x)"
  by (cases n) (auto simp: list_all_iff name_char_def)

lemma Validate_iff: "Validate c = None \<longleftrightarrow> config_ok c"
  by (auto simp: Validate_def config_ok_def instanceNameRe_iff)

text \<open>The instance name of such a configuration is one the image store can use as a prefix.\<close>

lemma config_ok_name:
  assumes "config_ok c" "Name c \<noteq> []"
  shows "instance_name (Name c) \<and> plain (Name c)"
proof -
  from assms have n: "alnum (hd (Name c))" "\<forall>x \<in> set (Name c). name_char x" "\<not> contains_str (Name c) ''--''"
    by (auto simp: config_ok_def)
  then have "CHR ''/'' \<notin> set (Name c)" "CHR 0x5C \<notin> set (Name c)" using name_char_not by blast+
  moreover have "hd (Name c) \<noteq> CHR ''.''" using n(1) alnum_not by blast
  ultimately show ?thesis using assms(2) n(3) by (auto simp: instance_name_def plain_def)
qed

text \<open>The name a configuration gets from its file: what stands before the last dot.\<close>

lemma after_last_none: "c \<notin> set s \<Longrightarrow> after_last s c = s"
  using after_last_append [of c s "[]"] by simp

lemma defaultInstanceName_file:
  assumes "plain (n @ CHR ''.'' # e)" "CHR ''.'' \<notin> set e"
  shows "defaultInstanceName (d @ CHR ''/'' # n @ CHR ''.'' # e) = (if n = ''config'' then [] else n)"
proof -
  let ?b = "n @ CHR ''.'' # e"
  have "CHR ''/'' \<notin> set ?b" using assms(1) by (simp add: plain_def)
  then have "path_ext ?b = CHR ''.'' # e"
    unfolding path_ext_def after_last_none [OF \<open>CHR ''/'' \<notin> set ?b\<close>] Let_def
    by (simp add: last_index_char_append [OF assms(2)])
  moreover have "suffix (CHR ''.'' # e) ?b" by (rule suffixI) simp
  ultimately show ?thesis
    by (simp add: defaultInstanceName_def path_base_slash [OF assms(1)] trim_suffix_def)
qed

text \<open>A file that sets the two TLS files.\<close>

definition tls_file :: "bytes \<Rightarrow> config \<Rightarrow> goerr + config" where
  "tls_file b c = (if b = [] then Inl (Err ''empty'') else Inr (c\<lparr>TLS := (TLS c)\<lparr>CertFile := b, KeyFile := b\<rparr>\<rparr>))"

definition config0 :: config where
  "config0 = DefaultConfig\<lparr>TLS := \<lparr>tlsOn = Some True, CertFile = ''k.pem'', KeyFile = ''k.pem'', ClientCAFile = []\<rparr>\<rparr>"

lemma tls_file0: "tls_file ''k.pem'' DefaultConfig = Inr config0"
  by (simp add: tls_file_def config0_def DefaultConfig_def)

lemma Load_file:
  assumes "n = ''dut1'' \<or> n = ''dut2''"
  shows "Load tls_file (''/etc/unwedge/'' @ n @ ''.yaml'') (Inr ''k.pem'') = Inr (config0\<lparr>Name := n\<rparr>)" "config_ok (config0\<lparr>Name := n\<rparr>)"
proof -
  have "plain (n @ CHR ''.'' # ''yaml'')" using assms by (auto simp: plain_def)
  from defaultInstanceName_file [OF this, of "''/etc/unwedge''"] assms
  have d: "defaultInstanceName (''/etc/unwedge/'' @ n @ ''.yaml'') = n" by auto
  have "Name config0 = []" by (simp add: config0_def DefaultConfig_def)
  moreover show "config_ok (config0\<lparr>Name := n\<rparr>)"
    using assms by (auto simp: config_ok_def config0_def DefaultConfig_def TLSEnabled_def TFTPEnabled_def name_char_def
        alnum_def Let_def ord_def contains_str_def)
  moreover from this have "Validate (config0\<lparr>Name := n\<rparr>) = None" by (simp only: Validate_iff)
  ultimately show "Load tls_file (''/etc/unwedge/'' @ n @ ''.yaml'') (Inr ''k.pem'') = Inr (config0\<lparr>Name := n\<rparr>)"
    by (simp add: Load_def tls_file0 d [simplified] Let_def)
qed

text \<open>C31: Every configuration the daemon runs with is well formed. \<open>Load\<close> returns \<open>c\<close> exactly when the
  file could be read and decoded over the defaults, \<open>c\<close> is the result with an empty name replaced
  by the one of the file, and \<open>c\<close> is well formed: a name of the restricted alphabet without the
  separator, a device, a positive baud rate, a listen address, key and certificate when TLS is on, an image
  directory when TFTP is on, an outlet number when there is a PDU. A file \<open>dir/n.ext\<close> names the instance
  \<open>n\<close>, and the name of a loaded configuration always gives a store that keeps to its directory.\<close>

theorem loaded_config:
  "(Load unmarshal path rd = Inr c \<longleftrightarrow>
      (\<exists>b c0. rd = Inr b \<and> unmarshal b DefaultConfig = Inr c0 \<and>
         c = c0\<lparr>Name := (if Name c0 = [] then defaultInstanceName path else Name c0)\<rparr>) \<and> config_ok c) \<and>
   (config_ok c \<and> store_ok root \<longrightarrow> store_ok (Namespaced root (Name c))) \<and>
   (plain (n @ CHR ''.'' # e) \<and> CHR ''.'' \<notin> set e \<longrightarrow>
      defaultInstanceName (d @ CHR ''/'' # n @ CHR ''.'' # e) = (if n = ''config'' then [] else n))"
proof (intro conjI impI)
  show "Load unmarshal path rd = Inr c \<longleftrightarrow>
      (\<exists>b c0. rd = Inr b \<and> unmarshal b DefaultConfig = Inr c0 \<and>
         c = c0\<lparr>Name := (if Name c0 = [] then defaultInstanceName path else Name c0)\<rparr>) \<and> config_ok c"
    unfolding Validate_iff [symmetric] by (auto simp: Load_def Let_def split: sum.splits option.splits)
  assume "config_ok c \<and> store_ok root"
  then show "store_ok (Namespaced root (Name c))"
    using config_ok_name [of c] by (cases "Name c = []") (auto simp: Namespaced_def store_ok_def instance_name_def)
qed (use defaultInstanceName_file in blast)

theorem loaded_config_witness:
  "\<exists>c. Load tls_file ''/etc/unwedge/dut1.yaml'' (Inr ''k.pem'') = Inr c \<and> config_ok c \<and> Name c = ''dut1'' \<and>
     store_ok (Namespaced raw0 (Name c))"
proof -
  have l: "Load tls_file ''/etc/unwedge/dut1.yaml'' (Inr ''k.pem'') = Inr (config0\<lparr>Name := ''dut1''\<rparr>)"
    using Load_file(1) [of "''dut1''"] by simp
  from loaded_config [THEN conjunct1, THEN iffD1, OF this] have "config_ok (config0\<lparr>Name := ''dut1''\<rparr>)" by simp
  moreover from this loaded_config [THEN conjunct2, THEN conjunct1] stores_ok(1)
  have "store_ok (Namespaced raw0 (Name (config0\<lparr>Name := ''dut1''\<rparr>)))" by blast
  ultimately show ?thesis using l by (intro exI [of _ "config0\<lparr>Name := ''dut1''\<rparr>"]) simp
qed

end
