(* ===== verification/Daemon.thy ===== *)
theory Daemon
  imports Daemon_Config Rpc_Server
begin

text \<open>
  \<open>cmd/unwedged/main.go\<close>, \<open>internal/serialport\<close> and \<open>internal/tlsutil\<close>: how the daemon is put together
  from its configuration, and the reaper of stale images. What lies outside the program is a
  field of \<open>daemon_env\<close>: the YAML decoder, the files, the serial and TLS libraries, the pattern
  compiler, the listener and the file system of the image directory. Logging is left out.
\<close>

subsection \<open>The serial port\<close>

record serial_mode =
  BaudRate :: int
  DataBits :: nat
  Parity :: string
  StopBits :: nat

definition serialport_Open :: "(string \<Rightarrow> serial_mode \<Rightarrow> goerr option) \<Rightarrow> string \<Rightarrow> int \<Rightarrow> goerr option" where
  "serialport_Open open_port device baud =
     (if device = [] then Some (Err ''serialport: device path required'')
      else let b = (if baud \<le> 0 then 115200 else baud)
           in case open_port device \<lparr>BaudRate = b, DataBits = 8, Parity = ''none'', StopBits = 1\<rparr> of
                Some e \<Rightarrow> Some (Wrap (''serialport: open '' @ device @ '' @ '' @ itoa b) e)
              | None \<Rightarrow> None)"

subsection \<open>TLS\<close>

text \<open>The certificate library: whether a key pair loads, and the certificates a PEM file has.\<close>

record tls_lib =
  LoadX509KeyPair :: "string \<Rightarrow> string \<Rightarrow> goerr option"
  readFile :: "string \<Rightarrow> goerr + bytes"
  AppendCertsFromPEM :: "bytes \<Rightarrow> string list"

record tls_server =
  Certificate :: "string \<times> string"
  ClientCAs :: "string list option"
  RequireAndVerifyClientCert :: bool

record tls_client =
  cServerName :: string
  cInsecureSkipVerify :: bool
  cRootCAs :: "string list option"
  cCertificate :: "(string \<times> string) option"

definition loadCAPool :: "tls_lib \<Rightarrow> string \<Rightarrow> goerr + string list" where
  "loadCAPool l path =
     (case readFile l path of
        Inl e \<Rightarrow> Inl (Wrap (''tlsutil: read CA '' @ path) e)
      | Inr pem \<Rightarrow>
          if AppendCertsFromPEM l pem = [] then Inl (Err (''tlsutil: no certificates found in '' @ path))
          else Inr (AppendCertsFromPEM l pem))"

definition ServerCredentials :: "tls_lib \<Rightarrow> string \<Rightarrow> string \<Rightarrow> string \<Rightarrow> goerr + tls_server" where
  "ServerCredentials l cert key clientCA =
     (case LoadX509KeyPair l cert key of
        Some e \<Rightarrow> Inl (Wrap ''tlsutil: load server keypair'' e)
      | None \<Rightarrow>
          if clientCA = [] then Inr \<lparr>Certificate = (cert, key), ClientCAs = None, RequireAndVerifyClientCert = False\<rparr>
          else (case loadCAPool l clientCA of
                  Inl e \<Rightarrow> Inl e
                | Inr pool \<Rightarrow> Inr \<lparr>Certificate = (cert, key), ClientCAs = Some pool, RequireAndVerifyClientCert = True\<rparr>))"

definition ClientCredentials :: "tls_lib \<Rightarrow> string \<Rightarrow> string \<Rightarrow> string \<Rightarrow> string \<Rightarrow> bool \<Rightarrow> goerr + tls_client" where
  "ClientCredentials l ca serverName cert key insecure =
     (case (if ca = [] then Inr None
            else case loadCAPool l ca of Inl e \<Rightarrow> Inl e | Inr pool \<Rightarrow> Inr (Some pool)) of
        Inl e \<Rightarrow> Inl e
      | Inr roots \<Rightarrow>
          if cert = [] \<and> key = []
          then Inr \<lparr>cServerName = serverName, cInsecureSkipVerify = insecure, cRootCAs = roots, cCertificate = None\<rparr>
          else (case LoadX509KeyPair l cert key of
                  Some e \<Rightarrow> Inl (Wrap ''tlsutil: load client keypair'' e)
                | None \<Rightarrow> Inr \<lparr>cServerName = serverName, cInsecureSkipVerify = insecure, cRootCAs = roots,
                             cCertificate = Some (cert, key)\<rparr>))"

subsection \<open>The reaper\<close>

definition reaper_interval :: "duration \<Rightarrow> duration" where
  "reaper_interval maxAge =
     (let i = maxAge div 6; i1 = (if i < minute then minute else i)
      in if hour < i1 then hour else i1)"

text \<open>One sweep at the start and one per tick; each runs in the environment of its time.\<close>

definition sweep :: "store \<Rightarrow> duration \<Rightarrow> os_env \<Rightarrow> fs \<Rightarrow> fs" where
  "sweep raw maxAge en f = snd (Prune en raw maxAge f)"

definition startImageReaper :: "store \<Rightarrow> duration \<Rightarrow> os_env \<Rightarrow> os_env list \<Rightarrow> fs \<Rightarrow> fs" where
  "startImageReaper raw maxAge start ticks f = foldl (\<lambda>g en. sweep raw maxAge en g) (sweep raw maxAge start f) ticks"

subsection \<open>Starting the daemon\<close>

record 's daemon_env =
  unmarshal :: "bytes \<Rightarrow> config \<Rightarrow> goerr + config"
  openPort :: "string \<Rightarrow> serial_mode \<Rightarrow> goerr option"
  pdu :: "apc \<Rightarrow> 's controller"
  consoleReset :: "'s \<Rightarrow> 's"
  compileRE :: "string \<Rightarrow> goerr + re"
  osEnv :: os_env
  tlsLib :: tls_lib
  listenTCP :: "string \<Rightarrow> goerr option"
  daemonVersion :: string

record 's daemon =
  svc :: "'s service"
  console0 :: console
  rawStore :: "store option"
  tftpServes :: bool
  reaper :: "(duration \<times> duration) option"
  lock0 :: "manager option"
  creds :: "tls_server option"
  listenAddr :: string
  logInstance :: string

definition power_of :: "'s daemon_env \<Rightarrow> config \<Rightarrow> goerr + 's controller option \<times> int" where
  "power_of en c =
     (if Address (PowerCfg c) \<noteq> []
      then (case NewAPC (PowerCfg c) of
              Inl e \<Rightarrow> Inl (Wrap ''configure power'' e)
            | Inr a \<Rightarrow> Inr (Some (Hook (pdu en a) (Some (consoleReset en))), i32 (Outlet (PowerCfg c))))
      else Inr (None, 0))"

text \<open>The raw store, its namespaced view, the reaper and whether the TFTP server runs.\<close>

definition images_of :: "'s daemon_env \<Rightarrow> config \<Rightarrow> goerr + (store \<times> store) option \<times> (duration \<times> duration) option \<times> bool" where
  "images_of en c =
     (if tftpDir (TFTP c) = [] then Inr (None, None, False)
      else case NewStore (osEnv en) (tftpDir (TFTP c)) of
             Inl e \<Rightarrow> Inl (Wrap ''image store'' e)
           | Inr raw \<Rightarrow>
               Inr (Some (raw, Namespaced raw (Name c)),
                    (if 0 < tftpMaxAge (TFTP c) then Some (reaper_interval (tftpMaxAge (TFTP c)), tftpMaxAge (TFTP c)) else None),
                    TFTPEnabled c))"

definition ssh_of :: "config \<Rightarrow> goerr + ssh_config option" where
  "ssh_of c =
     (if sshHost (SSH c) = [] then Inr None
      else case NewClient \<lparr>Host = sshHost (SSH c), User = sshUser (SSH c), Password = sshPassword (SSH c),
                   PrivateKeyPath = sshPrivateKeyPath (SSH c), PrivateKeyPEM = [], KnownHostsPath = sshKnownHostsPath (SSH c),
                   DialTimeout = sshDialTimeout (SSH c)\<rparr> of
             Inl e \<Rightarrow> Inl (Wrap ''configure ssh'' e)
           | Inr s \<Rightarrow> Inr (Some s))"

definition creds_of :: "'s daemon_env \<Rightarrow> config \<Rightarrow> goerr + tls_server option" where
  "creds_of en c =
     (if TLSEnabled c
      then (case ServerCredentials (tlsLib en) (CertFile (TLS c)) (KeyFile (TLS c)) (ClientCAFile (TLS c)) of
              Inl e \<Rightarrow> Inl e
            | Inr t \<Rightarrow> Inr (Some t))
      else Inr None)"

definition try_s :: "goerr + 'a \<Rightarrow> ('a \<Rightarrow> goerr + 'b) \<Rightarrow> goerr + 'b" where
  "try_s x f = (case x of Inl e \<Rightarrow> Inl e | Inr a \<Rightarrow> f a)"

definition run :: "'s daemon_env \<Rightarrow> string \<Rightarrow> goerr + 's daemon" where
  "run en configPath =
     try_s (Load (unmarshal en) configPath (readFile (tlsLib en) configPath)) (\<lambda>c.
     case serialport_Open (openPort en) (sDevice (Serial c)) (sBaud (Serial c)) of
       Some e \<Rightarrow> Inl (Wrap ''open serial'' e)
     | None \<Rightarrow>
     try_s (power_of en c) (\<lambda>(pwr, ono).
     case New (compileRE en) (UBoot c) of
       Inl e \<Rightarrow> Inl (Wrap ''configure uboot'' e)
     | Inr orch \<Rightarrow>
     try_s (images_of en c) (\<lambda>(stores, reap, serves).
     try_s (ssh_of c) (\<lambda>ssh.
     try_s (creds_of en c) (\<lambda>tls.
     case listenTCP en (grpcAddress c) of
       Some e \<Rightarrow> Inl (Wrap (''listen '' @ grpcAddress c) e)
     | None \<Rightarrow>
       Inr \<lparr>svc = \<lparr>dVersion = daemonVersion en, dConsole = True, dPower = pwr, dOrchestrator = Some orch,
                   dStore = map_option snd stores, dSSH = ssh, dSessions = SessionEnabled c,
                   SerialDevice = sDevice (Serial c), SerialBaud = u32 (sBaud (Serial c)),
                   TFTPAddress = tftpAddr (TFTP c), SSHTarget = sshHost (SSH c), SSHUser = sshUser (SSH c),
                   PowerOutlet = ono\<rparr>,
            console0 = new_console default_subChanCap (sBufferBytes (Serial c)),
            rawStore = map_option fst stores, tftpServes = serves, reaper = reap,
            lock0 = (if SessionEnabled c then Some (NewManager (sesTTL (SessionCfg c))) else None),
            creds = tls, listenAddr = grpcAddress c, logInstance = Name c\<rparr>)))))"

text \<open>\<open>main\<close>: \<open>run\<close> ends with a signal, or with what \<open>Serve\<close> returned; an error is printed and
  the exit code is 1.\<close>

datatype served = Signalled | ServeEnded "goerr option"

definition daemon_main :: "'s daemon_env \<Rightarrow> string \<Rightarrow> bool \<Rightarrow> served \<Rightarrow> string \<times> nat" where
  "daemon_main en configPath showVersion sd =
     (case (if showVersion then None
            else case run en configPath of
                   Inl e \<Rightarrow> Some e
                 | Inr _ \<Rightarrow> (case sd of Signalled \<Rightarrow> None | ServeEnded e \<Rightarrow> e)) of
        None \<Rightarrow> ([], 0)
      | Some e \<Rightarrow> (''unwedged: '' @ err_text e, 1))"

subsection \<open>What a running daemon has\<close>

lemma try_s_Inr: "try_s x f = Inr b \<longleftrightarrow> (\<exists>a. x = Inr a \<and> f a = Inr b)"
  by (auto simp: try_s_def split: sum.splits)

lemma case_err_Inr:
  "(case x of Some e \<Rightarrow> Inl (h e) | None \<Rightarrow> r) = Inr b \<longleftrightarrow> x = None \<and> r = Inr b"
  "(case y of Inl e \<Rightarrow> Inl (h' e) | Inr a \<Rightarrow> g a) = Inr b \<longleftrightarrow> (\<exists>a. y = Inr a \<and> g a = Inr b)"
  by (auto split: option.splits sum.splits)

lemma run_Inr:
  assumes "run en path = Inr d"
  obtains c pwr ono ob stores reap serves ssh tls where
    "Load (unmarshal en) path (readFile (tlsLib en) path) = Inr c"
    "power_of en c = Inr (pwr, ono)" "New (compileRE en) (UBoot c) = Inr ob"
    "images_of en c = Inr (stores, reap, serves)" "ssh_of c = Inr ssh" "creds_of en c = Inr tls"
    "dConsole (svc d)" "dOrchestrator (svc d) = Some ob" "dPower (svc d) = pwr" "dStore (svc d) = map_option snd stores"
    "dSSH (svc d) = ssh" "dSessions (svc d) = SessionEnabled c" "PowerOutlet (svc d) = ono"
    "rawStore d = map_option fst stores" "tftpServes d = serves" "reaper d = reap" "creds d = tls"
    "lock0 d = (if SessionEnabled c then Some (NewManager (sesTTL (SessionCfg c))) else None)" "logInstance d = Name c"
  using assms unfolding run_def
  by (clarsimp simp only: try_s_Inr case_err_Inr split_paired_Ex prod.case) (rule that, assumption+, simp_all)

lemma power_of_Inr:
  "power_of en c = Inr (pwr, ono) \<longleftrightarrow>
     (if Address (PowerCfg c) = [] then pwr = None \<and> ono = 0
      else \<exists>a. NewAPC (PowerCfg c) = Inr a \<and> pwr = Some (Hook (pdu en a) (Some (consoleReset en))) \<and>
        ono = i32 (Outlet (PowerCfg c)))"
  by (auto simp: power_of_def split: sum.splits)

lemma images_of_Inr:
  "images_of en c = Inr (stores, reap, serves) \<Longrightarrow>
     (if tftpDir (TFTP c) = [] then stores = None \<and> reap = None \<and> \<not> serves
      else stores = Some (\<lparr>dir = tftpDir (TFTP c), prefix_s = []\<rparr>, Namespaced \<lparr>dir = tftpDir (TFTP c), prefix_s = []\<rparr> (Name c)) \<and>
        reap = (if 0 < tftpMaxAge (TFTP c) then Some (reaper_interval (tftpMaxAge (TFTP c)), tftpMaxAge (TFTP c)) else None) \<and>
        serves = TFTPEnabled c)"
  by (auto simp: images_of_def NewStore_def split: sum.splits option.splits if_splits)

lemma daemon_started:
  assumes "run en path = Inr d" "dStore (svc d) = Some s"
  shows "\<exists>c raw. config_ok c \<and> logInstance d = Name c \<and> rawStore d = Some raw \<and> prefix_s raw = [] \<and> store_ok raw \<and>
    s = Namespaced raw (Name c)"
proof -
  obtain c pwr ono ob stores reap serves ssh tls where
    c: "Load (unmarshal en) path (readFile (tlsLib en) path) = Inr c" and "power_of en c = Inr (pwr, ono)"
    and "New (compileRE en) (UBoot c) = Inr ob" and i: "images_of en c = Inr (stores, reap, serves)"
    and "ssh_of c = Inr ssh" and "creds_of en c = Inr tls"
    and "dConsole (svc d)" "dOrchestrator (svc d) = Some ob" "dPower (svc d) = pwr"
    and d: "dStore (svc d) = map_option snd stores"
    and "dSSH (svc d) = ssh" "dSessions (svc d) = SessionEnabled c" "PowerOutlet (svc d) = ono"
    and r: "rawStore d = map_option fst stores" and "tftpServes d = serves" "reaper d = reap" "creds d = tls"
      "lock0 d = (if SessionEnabled c then Some (NewManager (sesTTL (SessionCfg c))) else None)" and n: "logInstance d = Name c"
    by (rule run_Inr [OF assms(1)])
  from c have "config_ok c" by (auto simp: Load_def Validate_iff Let_def split: sum.splits option.splits)
  moreover from images_of_Inr [OF i] d r assms(2)
  have "rawStore d = Some \<lparr>dir = tftpDir (TFTP c), prefix_s = []\<rparr>" "tftpDir (TFTP c) \<noteq> []"
    "s = Namespaced \<lparr>dir = tftpDir (TFTP c), prefix_s = []\<rparr> (Name c)"
    by (auto split: if_splits)
  ultimately show ?thesis using n by (simp add: store_ok_def) blast
qed


text \<open>Two daemons on one host: files that name a certificate, libraries that do not fail.\<close>

definition env0 :: "fake daemon_env" where
  "env0 = \<lparr>unmarshal = tls_file, openPort = (\<lambda>_ _. None), pdu = (\<lambda>_. fake_controller fake_timer), consoleReset = (\<lambda>s. s),
     compileRE = default_compile, osEnv = os0,
     tlsLib = \<lparr>LoadX509KeyPair = (\<lambda>_ _. None), readFile = (\<lambda>_. Inr ''k.pem''), AppendCertsFromPEM = (\<lambda>b. [b])\<rparr>,
     listenTCP = (\<lambda>_. None), daemonVersion = ''dev''\<rparr>"

lemma New_config0: "New default_compile (UBoot config0) = Inr orch0"
proof -
  have "withDefaults (UBoot config0) = withDefaults uconfig0"
    by (simp add: withDefaults_def config0_def DefaultConfig_def uconfig0_def)
  with New_default show ?thesis by (simp add: New_def)
qed

lemma run0_daemon:
  assumes "n = ''dut1'' \<or> n = ''dut2''"
  shows "\<exists>d. run env0 (''/etc/unwedge/'' @ n @ ''.yaml'') = Inr d \<and> logInstance d = n \<and>
    dStore (svc d) = Some (Namespaced \<lparr>dir = ''/var/lib/unwedge/images'', prefix_s = []\<rparr> n)"
proof -
  note run_def = Daemon.run_def
  have l: "Load tls_file (''/etc/unwedge/'' @ n @ ''.yaml'') (Inr ''k.pem'') = Inr (config0\<lparr>Name := n\<rparr>)"
    using Load_file(1) [OF assms] .
  have c: "UBoot (config0\<lparr>Name := n\<rparr>) = UBoot config0" by simp
  have f: "sDevice (Serial config0) \<noteq> []" "Address (PowerCfg config0) = []" "sshHost (SSH config0) = []"
    "tftpDir (TFTP config0) = ''/var/lib/unwedge/images''" "TLSEnabled (config0\<lparr>Name := n\<rparr>)" "ClientCAFile (TLS config0) = []"
    by (simp_all add: config0_def DefaultConfig_def TLSEnabled_def)
  show ?thesis
    using l New_config0 f
    by (simp add: run_def env0_def try_s_def serialport_Open_def power_of_def images_of_def ssh_of_def creds_of_def
        ServerCredentials_def NewStore_def Let_def os0_def)
qed


subsection \<open>Daemons that share a directory\<close>

lemma netboot_image:
  assumes "dStore sv = Some st" "netboot_request_params sv en f q = Inr p"
  shows "OnDiskName st (qImage q) = Inr (Image p)"
  using assms by (auto simp: netboot_request_params_def Let_def split: if_splits sum.splits option.splits)

text \<open>C33: Several daemons on one controller. Two daemons that were started from their own files with the same
  image directory, both named, with names that differ by more than a trailing dash, do not
  disturb each other: whatever one is asked to delete or to receive, the images the other lists are
  the same before and after, and the board of one is never told to fetch a file the board of the
  other could be told to fetch.\<close>

theorem daemons_share_directory:
  assumes "run en1 path1 = Inr d1" "run en2 path2 = Inr d2" "dStore (svc d1) = Some s" "dStore (svc d2) = Some t" "dir s = dir t"
    "logInstance d1 \<noteq> []" "logInstance d2 \<noteq> []" "logInstance d1 \<noteq> logInstance d2"
    "logInstance d2 \<noteq> logInstance d1 @ ''-''" "logInstance d1 \<noteq> logInstance d2 @ ''-''"
    "fs_ok f" "ListImages (svc d2) en f = Inr l" "ListImages (svc d2) en f' = Inr l'"
  shows "(DeleteImage (svc d1) en x f = (r, f') \<longrightarrow> set l' = set l) \<and>
    (create_temp en = Inr rnd \<and> plain (''.upload-'' @ rnd) \<and> fs_get f (on_disk s (''.upload-'' @ rnd)) = None \<and>
       remove_err en (on_disk s (''.upload-'' @ rnd)) = None \<and> prefix_s s @ x \<noteq> ''.upload-'' @ rnd \<and>
       UploadImage (svc d1) en (Inr (Metadata (x, ow))) stream refused f = (res, f') \<longrightarrow> set l' = set l) \<and>
    (netboot_request_params (svc d1) en f q = Inr p \<and> netboot_request_params (svc d2) en f q' = Inr p' \<longrightarrow> Image p \<noteq> Image p')"
proof -
  obtain c1 raw1 where c1: "config_ok c1" "logInstance d1 = Name c1" "rawStore d1 = Some raw1" "prefix_s raw1 = []" "store_ok raw1"
    "s = Namespaced raw1 (Name c1)"
    using daemon_started [OF assms(1,3)] by blast
  obtain c2 raw2 where c2: "config_ok c2" "logInstance d2 = Name c2" "rawStore d2 = Some raw2" "prefix_s raw2 = []"
    "t = Namespaced raw2 (Name c2)"
    using daemon_started [OF assms(2,4)] by blast
  have "raw2 = raw1" using assms(5) c1(4,6) c2(4,5) by (simp add: Namespaced_def)
  have n: "instance_name (Name c1)" "instance_name (Name c2)"
    using config_ok_name c1(1,2) c2(1,2) assms(6,7) by auto
  note iso = instances_isolated_facts [OF c1(5) n assms(8-10) [unfolded c1(2) c2(2)] c1(6) c2(5) [unfolded \<open>raw2 = raw1\<close>]]
  obtain m m' where m: "List_images en t f = Inr m" "List_images en t f' = Inr m'"
    and l: "set m' = set m \<longrightarrow> set l' = set l"
    using assms(12,13) assms(4) by (auto simp: ListImages_def split: sum.splits)
  show ?thesis
  proof (intro conjI impI)
    assume "DeleteImage (svc d1) en x f = (r, f')"
    then obtain e where "Delete en s x f = (e, f')"
      using assms(3) by (auto simp: DeleteImage_def split: prod.splits option.splits)
    from iso(2) [OF assms(11) this m] l show "set l' = set l" by blast
  next
    assume h: "create_temp en = Inr rnd \<and> plain (''.upload-'' @ rnd) \<and> fs_get f (on_disk s (''.upload-'' @ rnd)) = None \<and>
       remove_err en (on_disk s (''.upload-'' @ rnd)) = None \<and> prefix_s s @ x \<noteq> ''.upload-'' @ rnd \<and>
       UploadImage (svc d1) en (Inr (Metadata (x, ow))) stream refused f = (res, f')"
    then obtain rd r where "Save en s x rd ow f = (r, f')"
      using assms(3) by (auto simp: UploadImage_def Let_def split: prod.splits)
    with iso(3) [OF assms(11)] h m l show "set l' = set l" by blast
  next
    assume "netboot_request_params (svc d1) en f q = Inr p \<and> netboot_request_params (svc d2) en f q' = Inr p'"
    with netboot_image assms(3,4) have o: "OnDiskName s (qImage q) = Inr (Image p)" "OnDiskName t (qImage q') = Inr (Image p')"
      by blast+
    then have "Path s (qImage q) = Inr (path_join [dir s, Image p])" "Path t (qImage q') = Inr (path_join [dir t, Image p'])"
      by (auto simp: OnDiskName_def Path_def split: sum.splits)
    with iso(1) assms(5) show "Image p \<noteq> Image p'" by metis
  qed
qed

lemma os0_ListImages: "dStore sv = Some st \<Longrightarrow> \<exists>l. ListImages sv os0 f = Inr l"
  by (simp add: ListImages_def List_images_def os0_def)

theorem daemons_share_directory_witness:
  "\<exists>d1 d2 f' l l' r. run env0 ''/etc/unwedge/dut1.yaml'' = Inr d1 \<and> run env0 ''/etc/unwedge/dut2.yaml'' = Inr d2 \<and>
     DeleteImage (svc d1) os0 ''k'' fs0 = (r, f') \<and> ListImages (svc d2) os0 fs0 = Inr l \<and> ListImages (svc d2) os0 f' = Inr l' \<and>
     set l' = set l"
proof -
  let ?raw = "\<lparr>dir = ''/var/lib/unwedge/images'', prefix_s = []\<rparr>"
  from run0_daemon [of "''dut1''"] obtain d1 where d1: "run env0 ''/etc/unwedge/dut1.yaml'' = Inr d1" "logInstance d1 = ''dut1''"
    "dStore (svc d1) = Some (Namespaced ?raw ''dut1'')" by auto
  from run0_daemon [of "''dut2''"] obtain d2 where d2: "run env0 ''/etc/unwedge/dut2.yaml'' = Inr d2" "logInstance d2 = ''dut2''"
    "dStore (svc d2) = Some (Namespaced ?raw ''dut2'')" by auto
  obtain r f' where del: "DeleteImage (svc d1) os0 ''k'' fs0 = (r, f')" by (metis prod.collapse)
  obtain l l' where l: "ListImages (svc d2) os0 fs0 = Inr l" "ListImages (svc d2) os0 f' = Inr l'"
    using os0_ListImages [OF d2(3)] by meson
  have "set l' = set l"
    using daemons_share_directory [OF d1(1) d2(1) d1(3) d2(3) _ _ _ _ _ _ fs0_ok l] d1(2) d2(2) del
    by (simp add: Namespaced_def)
  with d1(1) d2(1) del l show ?thesis by blast
qed

subsection \<open>The age of an image\<close>

text \<open>A sweep that meets no failing call.\<close>

definition healthy :: "store \<Rightarrow> os_env \<Rightarrow> bool" where
  "healthy raw en \<longleftrightarrow> readdir_err en (dir raw) = None \<and> (\<forall>b. \<not> info_err en b) \<and> (\<forall>p. remove_err en p = None)"

lemma fs_ok_prune_loop: "fs_ok f \<Longrightarrow> fs_ok (snd (prune_loop en s c es removed fe f))"
  by (induction en s c es removed fe f rule: prune_loop.induct)
    (auto simp: os_remove_def split: option.splits prod.splits if_splits)

lemma fs_ok_sweep: "fs_ok f \<Longrightarrow> fs_ok (sweep raw age en f)"
  by (auto simp: sweep_def Prune_def fs_ok_prune_loop split: option.splits)

lemma sweep_file:
  assumes "store_ok raw" "fs_ok f" "0 < age" "healthy raw en" "plain b"
  shows "fs_get (sweep raw age en f) (on_disk raw b) =
    (case fs_get f (on_disk raw b) of Some (File d t) \<Rightarrow> if t \<le> now en - age then None else Some (File d t) | x \<Rightarrow> x)"
proof -
  obtain removed err f' where p: "Prune en raw age f = ((removed, err), f')" by (metis prod.collapse)
  from assms(4) have h: "readdir_err en (dir raw) = None" "\<And>b. \<not> info_err en b" "\<And>p. remove_err en p = None"
    by (auto simp: healthy_def)
  note P = prune_result_facts [OF assms(1-3) h(1) p]
  have "on_disk raw b \<in> on_disk raw ` set removed \<longleftrightarrow> b \<in> set removed"
    by (auto simp: on_disk_def)
  with P(1) [of b] P(3) [of "on_disk raw b"] h assms(5) p show ?thesis
    by (auto simp: sweep_def split: option.splits node.splits)
qed

lemma reaper_file:
  assumes "store_ok raw" "0 < age" "plain b"
  shows "fs_ok f \<Longrightarrow> \<forall>e \<in> set ticks. healthy raw e \<Longrightarrow>
    fs_get (foldl (\<lambda>g en. sweep raw age en g) f ticks) (on_disk raw b) =
    (case fs_get f (on_disk raw b) of Some (File d t) \<Rightarrow> if \<exists>e \<in> set ticks. t \<le> now e - age then None else Some (File d t) | x \<Rightarrow> x)"
proof (induction ticks arbitrary: f)
  case (Cons e es)
  then have "fs_ok (sweep raw age e f)" by (intro fs_ok_sweep)
  from Cons.IH [OF this] Cons.prems sweep_file [OF assms(1) Cons.prems(1) assms(2) _ assms(3), of e]
  show ?case by (auto split: option.splits node.splits if_splits)
qed (auto split: option.splits node.splits)

text \<open>C34: How long an image lives. The reaper sweeps every sixth of the age limit, but at least every hour
  and at most every minute. As long as its calls do not fail and nobody rewrites the file, a file goes
  exactly when the first sweep finds it at least as old as the limit: at any time up to the sweep after the last
  one, every file left in the directory was written less than limit plus interval ago, and a file
  younger than the limit at every sweep is left alone.\<close>

theorem reaper_bound:
  assumes "store_ok raw" "fs_ok f" "0 < age" "\<forall>e \<in> set (en # ticks). healthy raw e" "plain b"
  shows "minute \<le> reaper_interval age \<and> reaper_interval age \<le> hour \<and>
    (6 * minute \<le> age \<and> age \<le> 6 * hour \<longrightarrow> reaper_interval age = age div 6) \<and>
    (fs_get (startImageReaper raw age en ticks f) (on_disk raw b) = Some (File d t) \<and>
       x \<le> now (last (en # ticks)) + reaper_interval age \<longrightarrow> x - t < age + reaper_interval age) \<and>
    (fs_get f (on_disk raw b) = Some (File d t) \<longrightarrow>
       fs_get (startImageReaper raw age en ticks f) (on_disk raw b) =
         (if \<forall>e \<in> set (en # ticks). now e - t < age then Some (File d t) else None))"
proof -
  have r: "startImageReaper raw age en ticks f = foldl (\<lambda>g en. sweep raw age en g) f (en # ticks)"
    by (simp add: startImageReaper_def)
  note R = reaper_file [OF assms(1,3,5,2,4)]
  have i: "minute \<le> reaper_interval age" "reaper_interval age \<le> hour"
    by (auto simp: reaper_interval_def Let_def minute_def hour_def)
  have "6 * minute \<le> age \<and> age \<le> 6 * hour \<longrightarrow> reaper_interval age = age div 6"
    by (auto simp: reaper_interval_def Let_def minute_def hour_def)
  moreover have "x - t < age + reaper_interval age"
    if "fs_get (startImageReaper raw age en ticks f) (on_disk raw b) = Some (File d t)" "x \<le> now (last (en # ticks)) + reaper_interval age"
  proof -
    have "last (en # ticks) \<in> set (en # ticks)" by (rule last_in_set) simp
    moreover from that(1) have "\<not> (\<exists>e \<in> set (en # ticks). t \<le> now e - age)"
      unfolding r R by (auto split: option.splits node.splits if_splits)
    ultimately have "now (last (en # ticks)) - age < t" by (meson linorder_not_le)
    with that(2) show ?thesis by linarith
  qed
  moreover have "fs_get (startImageReaper raw age en ticks f) (on_disk raw b) =
         (if \<forall>e \<in> set (en # ticks). now e - t < age then Some (File d t) else None)"
    if "fs_get f (on_disk raw b) = Some (File d t)"
  proof -
    have "(\<exists>e \<in> set (en # ticks). t \<le> now e - age) \<longleftrightarrow> \<not> (\<forall>e \<in> set (en # ticks). now e - t < age)"
      by (auto simp: not_less algebra_simps)
    then show ?thesis unfolding r R that by simp
  qed
  ultimately show ?thesis using i by blast
qed

theorem reaper_bound_witness:
  "reaper_interval (6 * hour) = hour \<and>
   fs_get (startImageReaper raw0 985 os0 [os0\<lparr>now := 1005\<rparr>] fs0) ''/srv/dut2--k'' = None \<and>
   fs_get (startImageReaper raw0 985 os0 [os0\<lparr>now := 1004\<rparr>] fs0) ''/srv/.upload-1'' = Some (File ''y'' 20)"
proof -
  have h: "\<forall>e \<in> set [os0, os0\<lparr>now := n\<rparr>]. healthy raw0 e" for n by (simp add: healthy_def os0_def)
  have p: "plain ''dut2--k''" "plain ''.upload-1''" by (simp_all add: plain_def)
  have g: "fs_get fs0 ''/srv/dut2--k'' = Some (File ''x'' 10)" "fs_get fs0 ''/srv/.upload-1'' = Some (File ''y'' 20)" "now os0 = 1000"
    by (simp_all add: fs_get_def fs0_def os0_def)
  have "reaper_interval (6 * hour) = hour"
    using reaper_bound [OF stores_ok(1) fs0_ok _ h [of 0] p(1), where age = "6 * hour"] by (simp add: hour_def minute_def)
  moreover have "fs_get (startImageReaper raw0 985 os0 [os0\<lparr>now := 1005\<rparr>] fs0) ''/srv/dut2--k'' = None"
    using reaper_bound [OF stores_ok(1) fs0_ok _ h p(1), where age = 985 and d = "''x''" and t = 10] g
    by (simp add: on_disk_dut1)
  moreover have "fs_get (startImageReaper raw0 985 os0 [os0\<lparr>now := 1004\<rparr>] fs0) ''/srv/.upload-1'' = Some (File ''y'' 20)"
    using reaper_bound [OF stores_ok(1) fs0_ok _ h p(2), where age = 985 and d = "''y''" and t = 20] g
    by (simp add: on_disk_dut1)
  ultimately show ?thesis by blast
qed

end
