(* ===== verification/Client_Config.thy ===== *)
theory Client_Config
  imports Image_Store
begin

text \<open>
  \<open>internal/clientconfig\<close>: where a client's defaults come from and how its daemon address becomes
  something to dial. The environment, the home directory, the file system and the YAML decoder are
  fields of \<open>client_env\<close>; a lookup of SRV records is a function.
\<close>

definition DefaultPort :: string where "DefaultPort = ''7777''"

record cfile =
  fAddr :: string
  fCA :: string
  fCert :: string
  fKey :: string
  fServerName :: string
  fNoTLS :: "bool option"
  fInsecure :: "bool option"
  fNoSRV :: "bool option"

record resolved =
  rAddr :: string
  rCA :: string
  rCert :: string
  rKey :: string
  rServerName :: string
  rNoTLS :: bool
  rInsecure :: bool
  rNoSRV :: bool
  rPath :: string

record client_env =
  Getenv :: "string \<Rightarrow> string"
  UserHomeDir :: "goerr + string"
  cReadFile :: "string \<Rightarrow> goerr + bytes"
  cUnmarshal :: "bytes \<Rightarrow> goerr + cfile"

definition no_file :: cfile where
  "no_file = \<lparr>fAddr = [], fCA = [], fCert = [], fKey = [], fServerName = [], fNoTLS = None, fInsecure = None, fNoSRV = None\<rparr>"

definition DefaultPath :: "client_env \<Rightarrow> string" where
  "DefaultPath en =
     (let x = Getenv en ''XDG_CONFIG_HOME''
      in if x \<noteq> [] then path_join [x, ''unwedge'', ''config.yaml'']
         else case UserHomeDir en of
                Inl _ \<Rightarrow> []
              | Inr home \<Rightarrow> if home = [] then [] else path_join [home, ''.config'', ''unwedge'', ''config.yaml''])"

definition expandUser :: "client_env \<Rightarrow> string \<Rightarrow> string" where
  "expandUser en p0 =
     (if p0 = [] then p0
      else let p = (if p0 = ''~'' then ''$HOME'' else if prefix ''~/'' p0 then ''$HOME'' @ drop 1 p0 else p0)
           in if prefix ''$HOME'' p
              then (case UserHomeDir en of
                      Inl _ \<Rightarrow> p
                    | Inr home \<Rightarrow> if home \<noteq> [] then home @ drop (length ''$HOME'') p else p)
              else p)"

fun firstNonEmpty :: "string list \<Rightarrow> string" where
  "firstNonEmpty [] = []"
| "firstNonEmpty (v # vs) = (if v \<noteq> [] then v else firstNonEmpty vs)"

definition boolPref :: "string \<Rightarrow> bool option \<Rightarrow> bool \<Rightarrow> bool" where
  "boolPref env file def =
     (case (if env \<noteq> [] then parse_bool env else None) of
        Some b \<Rightarrow> b
      | None \<Rightarrow> (case file of Some b \<Rightarrow> b | None \<Rightarrow> def))"

text \<open>The file that is read and whether it was named explicitly; \<open>None\<close> when there is no file.\<close>

definition config_path :: "client_env \<Rightarrow> string \<Rightarrow> string \<times> bool" where
  "config_path en configFlag =
     (if configFlag \<noteq> [] then (configFlag, True)
      else if Getenv en ''UNWEDGE_CONFIG'' \<noteq> [] then (Getenv en ''UNWEDGE_CONFIG'', True)
      else (DefaultPath en, False))"

definition load_file :: "client_env \<Rightarrow> string \<Rightarrow> bool \<Rightarrow> goerr + cfile \<times> string" where
  "load_file en path explicit =
     (if path = [] then Inr (no_file, [])
      else case cReadFile en (expandUser en path) of
             Inr b \<Rightarrow>
               (case cUnmarshal en b of
                  Inl e \<Rightarrow> Inl (Wrap (''clientconfig: parse '' @ path) e)
                | Inr f \<Rightarrow> Inr (f, path))
           | Inl e \<Rightarrow>
               if explicit \<or> \<not> err_is e ErrNotExist then Inl (Wrap (''clientconfig: read '' @ path) e)
               else Inr (no_file, []))"

definition Resolve :: "client_env \<Rightarrow> string \<Rightarrow> goerr + resolved" where
  "Resolve en configFlag =
     (case load_file en (fst (config_path en configFlag)) (snd (config_path en configFlag)) of
        Inl e \<Rightarrow> Inl e
      | Inr (f, used) \<Rightarrow>
          Inr \<lparr>rAddr = firstNonEmpty [Getenv en ''UNWEDGE_ADDR'', fAddr f, ''localhost:7777''],
               rCA = expandUser en (firstNonEmpty [Getenv en ''UNWEDGE_CA'', fCA f]),
               rCert = expandUser en (firstNonEmpty [Getenv en ''UNWEDGE_CERT'', fCert f]),
               rKey = expandUser en (firstNonEmpty [Getenv en ''UNWEDGE_KEY'', fKey f]),
               rServerName = firstNonEmpty [Getenv en ''UNWEDGE_SERVER_NAME'', fServerName f],
               rNoTLS = boolPref (Getenv en ''UNWEDGE_NO_TLS'') (fNoTLS f) False,
               rInsecure = boolPref (Getenv en ''UNWEDGE_INSECURE'') (fInsecure f) False,
               rNoSRV = boolPref (Getenv en ''UNWEDGE_NO_SRV'') (fNoSRV f) False,
               rPath = used\<rparr>)"

text \<open>SRV records, as \<open>LookupSRV\<close> returns them: target and 16-bit port, by priority and weight.\<close>

record srv =
  Target :: string
  Port :: nat

definition EnsurePort :: "string \<Rightarrow> string \<Rightarrow> string" where
  "EnsurePort addr port =
     (if addr = [] then addr
      else if split_host_port addr \<noteq> None then addr
      else join_host_port addr port)"

definition ResolveEndpoint :: "string \<Rightarrow> bool \<Rightarrow> (string \<Rightarrow> string \<Rightarrow> string \<Rightarrow> goerr + srv list) \<Rightarrow> goerr + string \<times> string" where
  "ResolveEndpoint addr allowSRV lookup =
     (if addr = [] then Inl (Err ''clientconfig: empty address'')
      else if split_host_port addr \<noteq> None then Inr (addr, [])
      else if \<not> allowSRV \<or> parse_ip addr then Inr (EnsurePort addr DefaultPort, [])
      else case lookup ''unwedge'' ''tcp'' addr of
             Inl _ \<Rightarrow> Inr (EnsurePort addr DefaultPort, [])
           | Inr [] \<Rightarrow> Inr (EnsurePort addr DefaultPort, [])
           | Inr (rec # _) \<Rightarrow>
               let tgt = trim_suffix (Target rec) ''.''
               in Inr (join_host_port tgt (itoa (int (Port rec))), if equal_fold tgt addr then [] else addr))"

fun PreScanConfig :: "string list \<Rightarrow> string" where
  "PreScanConfig [] = []"
| "PreScanConfig (a # args) =
     (if a = ''--'' then []
      else case cut_char (trim_left a ''-'') (CHR ''='') of
             (name, val, hasEq) \<Rightarrow>
               if name \<noteq> ''config'' then PreScanConfig args
               else if hasEq then val
               else (case args of v # _ \<Rightarrow> v | [] \<Rightarrow> []))"

subsection \<open>Precedence\<close>

lemma firstNonEmpty_eq:
  "firstNonEmpty [a, b] = (if a \<noteq> [] then a else b)"
  "firstNonEmpty [a, b, c] = (if a \<noteq> [] then a else if b \<noteq> [] then b else c)"
  by auto

lemma boolPref_eq:
  "boolPref env file def = (case parse_bool env of Some b \<Rightarrow> b | None \<Rightarrow> (case file of Some b \<Rightarrow> b | None \<Rightarrow> def))"
  by (auto simp: boolPref_def parse_bool_def)

text \<open>A file that was not named and does not exist counts as an empty one; a named one must exist.\<close>

lemma load_file_missing:
  assumes "cReadFile en (expandUser en path) = Inl e" "err_is e ErrNotExist" "path \<noteq> []"
  shows "load_file en path explicit = (if explicit then Inl (Wrap (''clientconfig: read '' @ path) e) else Inr (no_file, []))"
  using assms by (simp add: load_file_def)

subsection \<open>Host and port\<close>

lemma split_join_host_port:
  assumes "CHR ''['' \<notin> set h" "CHR '']'' \<notin> set h" "CHR '':'' \<notin> set p" "CHR ''['' \<notin> set p" "CHR '']'' \<notin> set p" 
  shows "split_host_port (join_host_port h p) = Some (h, p)"
proof (cases "CHR '':'' \<in> set h")
  case True
  let ?s = "''['' @ h @ '']:'' @ p"
  have "last_index_char ?s (CHR '':'') = Some (length h + 2)"
    using last_index_char_append [of "CHR '':''" p "''['' @ h @ '']''"] assms(3) by simp
  moreover have "index_char ?s (CHR '']'') = Some (length h + 1)"
    using index_char_append [of "CHR '']''" "''['' @ h" "'':'' @ p"] assms(2) by simp
  ultimately show ?thesis using True assms by (simp add: join_host_port_def split_host_port_def)
next
  case False
  have "last_index_char (h @ '':'' @ p) (CHR '':'') = Some (length h)"
    using last_index_char_append [of "CHR '':''" p h] assms(3) by simp
  moreover have "hd (h @ '':'' @ p) \<noteq> CHR ''[''" using assms(1) by (cases h) auto
  ultimately show ?thesis using False assms by (simp add: join_host_port_def split_host_port_def)
qed

lemma itoa_chars:
  assumes "0 \<le> n" "c \<in> set (itoa n)"
  shows "c \<notin> {CHR '':'', CHR ''['', CHR '']''}"
proof -
  from assms have "digit_val c \<noteq> None" using to_base_digits [of 10 c] by (simp add: itoa_def split: if_splits)
  then show ?thesis by (auto simp: digit_val_def ord_def)
qed

text \<open>The address is bracketed once more when it is a bracketed one without a port.\<close>

lemma EnsurePort_bracketed: "EnsurePort ''[::1]'' DefaultPort = ''[[::1]]:7777''"
  by code_simp

text \<open>A positional argument \<open>config\<close> is taken for the flag, and a variable whose name starts with
  \<open>HOME\<close> is cut.\<close>

lemma PreScanConfig_positional: "PreScanConfig [''ssh'', ''config'', ''x''] = ''x''"
  by code_simp

lemma expandUser_prefix: "UserHomeDir en = Inr ''/root'' \<Longrightarrow> expandUser en ''$HOMEBREW/x'' = ''/rootBREW/x''"
  by (simp add: expandUser_def prefix_def)

text \<open>C35: The daemon a client ends up talking to. An address with a port is dialled as it is. Any other
  address without brackets gives a host and a port that can be taken apart again: the address itself with the
  default port, or the target and port of the first SRV record. In every case the name
  TLS is verified against is the one the user gave, up to letter case, and never that of an SRV target that
  differs from it; only an empty address is refused.\<close>

theorem endpoint_keeps_name:
  assumes "CHR ''['' \<notin> set addr" "CHR '']'' \<notin> set addr"
    "\<forall>rs. lookup ''unwedge'' ''tcp'' addr = Inr rs \<longrightarrow> (\<forall>r \<in> set rs. CHR ''['' \<notin> set (Target r) \<and> CHR '']'' \<notin> set (Target r))"
  shows "(ResolveEndpoint addr allowSRV lookup = Inl e \<longrightarrow> addr = []) \<and>
    (ResolveEndpoint addr allowSRV lookup = Inr (target, sni) \<longrightarrow>
       (\<exists>host port. split_host_port target = Some (host, port) \<and>
         (if split_host_port addr \<noteq> None then target = addr \<and> sni = []
          else equal_fold (if sni = [] then host else sni) addr \<and>
            (host = addr \<and> port = DefaultPort \<or>
             allowSRV \<and> \<not> parse_ip addr \<and>
             (\<exists>r rs. lookup ''unwedge'' ''tcp'' addr = Inr (r # rs) \<and> host = trim_suffix (Target r) ''.'' \<and>
               port = itoa (int (Port r)))))))"
proof (intro conjI impI)
  show "addr = []" if "ResolveEndpoint addr allowSRV lookup = Inl e"
    using that by (auto simp: ResolveEndpoint_def Let_def split: if_splits sum.splits list.splits)
next
  assume r: "ResolveEndpoint addr allowSRV lookup = Inr (target, sni)"
  then have ne: "addr \<noteq> []" by (auto simp: ResolveEndpoint_def)
  have dp: "split_host_port (join_host_port addr DefaultPort) = Some (addr, DefaultPort)"
    using assms(1,2) by (intro split_join_host_port) (simp_all add: DefaultPort_def)
  have refl: "equal_fold addr addr" by (simp add: equal_fold_def)
  show "\<exists>host port. split_host_port target = Some (host, port) \<and>
         (if split_host_port addr \<noteq> None then target = addr \<and> sni = []
          else equal_fold (if sni = [] then host else sni) addr \<and>
            (host = addr \<and> port = DefaultPort \<or>
             allowSRV \<and> \<not> parse_ip addr \<and>
             (\<exists>r rs. lookup ''unwedge'' ''tcp'' addr = Inr (r # rs) \<and> host = trim_suffix (Target r) ''.'' \<and>
               port = itoa (int (Port r)))))"
  proof (cases "split_host_port addr")
    case (Some hp)
    with r ne show ?thesis by (cases hp) (auto simp: ResolveEndpoint_def)
  next
    case None
    note R = r [unfolded ResolveEndpoint_def EnsurePort_def, simplified ne None, simplified]
    show ?thesis
    proof (cases "\<not> allowSRV \<or> parse_ip addr \<or> (\<exists>x. lookup ''unwedge'' ''tcp'' addr = Inl x) \<or> lookup ''unwedge'' ''tcp'' addr = Inr []")
      case True
      with R have "target = join_host_port addr DefaultPort" "sni = []" by (auto split: sum.splits list.splits)
      with dp refl None show ?thesis by auto
    next
      case False
      then obtain rec rs where l: "lookup ''unwedge'' ''tcp'' addr = Inr (rec # rs)" "allowSRV" "\<not> parse_ip addr"
        by (cases "lookup ''unwedge'' ''tcp'' addr") (auto simp: neq_Nil_conv)
      let ?t = "trim_suffix (Target rec) ''.''"
      from R l have t: "target = join_host_port ?t (itoa (int (Port rec)))" "sni = (if equal_fold ?t addr then [] else addr)"
        by (auto simp: Let_def)
      have "set ?t \<subseteq> set (Target rec)" by (auto simp: trim_suffix_def dest: in_set_takeD)
      with assms(3) l(1) have "CHR ''['' \<notin> set ?t" "CHR '']'' \<notin> set ?t" by auto
      then have "split_host_port target = Some (?t, itoa (int (Port rec)))"
        unfolding t(1) using itoa_chars [of "int (Port rec)"] by (intro split_join_host_port) auto
      with t l None refl ne show ?thesis by auto
    qed
  qed
qed

theorem endpoint_keeps_name_witness:
  "\<exists>target sni. ResolveEndpoint ''lab'' True (\<lambda>_ _ _. Inr [\<lparr>Target = ''rack9.net.'', Port = 7001\<rparr>]) = Inr (target, sni) \<and>
     split_host_port target = Some (''rack9.net'', ''7001'') \<and> sni = ''lab''"
proof -
  let ?l = "\<lambda>_ _ _. Inr [\<lparr>Target = ''rack9.net.'', Port = 7001\<rparr>] :: goerr + srv list"
  obtain target sni where r: "ResolveEndpoint ''lab'' True ?l = Inr (target, sni)" and t: "target = ''rack9.net:7001''" "sni = ''lab''"
  proof -
    have "split_host_port ''lab'' = None" "parse_ip ''lab'' = False" "trim_suffix ''rack9.net.'' ''.'' = ''rack9.net''"
      "join_host_port ''rack9.net'' ''7001'' = ''rack9.net:7001''" "equal_fold ''rack9.net'' ''lab'' = False"
      by code_simp+
    moreover have "itoa 7001 = ''7001''"
    proof -
      have "map digit_char [7, 0, 0, 1] = ''7001''" by code_simp
      then show ?thesis by (simp add: itoa_def to_base.simps)
    qed
    ultimately show ?thesis by (intro that [of "''rack9.net:7001''" "''lab''"]) (simp_all add: ResolveEndpoint_def)
  qed
  have n: "split_host_port ''lab'' = None" by code_simp
  have "CHR ''['' \<notin> set ''lab''" "CHR '']'' \<notin> set ''lab''"
    "\<forall>rs. ?l ''unwedge'' ''tcp'' ''lab'' = Inr rs \<longrightarrow> (\<forall>r \<in> set rs. CHR ''['' \<notin> set (Target r) \<and> CHR '']'' \<notin> set (Target r))"
    by auto
  from endpoint_keeps_name [OF this, THEN conjunct2, THEN mp, OF r]
  obtain host port where h: "split_host_port target = Some (host, port)" "equal_fold (if sni = [] then host else sni) ''lab''"
    by (auto simp: n)
  have "split_host_port target = Some (''rack9.net'', ''7001'')" unfolding t by code_simp
  with r t show ?thesis by blast
qed

end
