(* ===== verification/Mcp_Server.thy ===== *)
theory Mcp_Server
  imports Rpc_Gate
begin

text \<open>
  \<open>internal/mcp\<close>: the JSON-RPC server over standard input and output. Reading is a buffer over a list of
  chunks, as \<open>bufio.Reader\<close> is; a message written is the JSON value it prints. The text level of
  \<open>encoding/json\<close> is the record \<open>json_lib\<close>: what a text parses to, how a value prints and which
  error a value of the wrong type gives; decoding a value into a struct is written out. A tool's
  handler changes a state \<open>'s\<close>; its error is one with the gRPC status it may carry.
\<close>

datatype json = JNull | JBool bool | JNum string | JStr string | JArr "json list" | JObj "(string \<times> json) list"

record json_lib =
  Parse :: "bytes \<Rightarrow> goerr + json"
  Print :: "json \<Rightarrow> bytes"
  Mismatch :: "string \<Rightarrow> goerr"

text \<open>Struct decoding: an object's members in order, each for the field with its name, or its name in another case when no field has it
  exactly; unknown members are skipped. Setting a field says whether the value had the right type; decoding goes on after a
  wrong one, and the first is the error at the end. \<open>null\<close> leaves everything as it was.\<close>

definition field_of :: "string list \<Rightarrow> string \<Rightarrow> string option" where
  "field_of names k =
     (if k \<in> set names then Some k else find (\<lambda>n. equal_fold n k) names)"

fun decode_members :: "string list \<Rightarrow> (string \<Rightarrow> json \<Rightarrow> 'r \<Rightarrow> bool \<times> 'r) \<Rightarrow> (string \<times> json) list \<Rightarrow> string option \<Rightarrow> 'r \<Rightarrow> string option \<times> 'r" where
  "decode_members names set_field [] bad r = (bad, r)"
| "decode_members names set_field ((k, v) # kvs) bad r =
     (case field_of names k of
        None \<Rightarrow> decode_members names set_field kvs bad r
      | Some n \<Rightarrow>
          (case set_field n v r of
             (ok, r1) \<Rightarrow> decode_members names set_field kvs (if \<not> ok \<and> bad = None then Some n else bad) r1))"

definition decode_struct :: "json_lib \<Rightarrow> string list \<Rightarrow> (string \<Rightarrow> json \<Rightarrow> 'r \<Rightarrow> bool \<times> 'r) \<Rightarrow> json \<Rightarrow> 'r \<Rightarrow> goerr option \<times> 'r" where
  "decode_struct l names set_field v r0 =
     (case v of
        JNull \<Rightarrow> (None, r0)
      | JObj kvs \<Rightarrow> (case decode_members names set_field kvs None r0 of (bad, r) \<Rightarrow> (map_option (Mismatch l) bad, r))
      | _ \<Rightarrow> (Some (Mismatch l []), r0))"

definition set_string :: "json \<Rightarrow> (string \<Rightarrow> 'r \<Rightarrow> 'r) \<Rightarrow> 'r \<Rightarrow> bool \<times> 'r" where
  "set_string v upd r = (case v of JStr s \<Rightarrow> (True, upd s r) | JNull \<Rightarrow> (True, r) | _ \<Rightarrow> (False, r))"

text \<open>Decoding the raw bytes of a member that may be absent.\<close>

definition decode_raw :: "json_lib \<Rightarrow> string list \<Rightarrow> (string \<Rightarrow> json \<Rightarrow> 'r \<Rightarrow> bool \<times> 'r) \<Rightarrow> json option \<Rightarrow> 'r \<Rightarrow> goerr option \<times> 'r" where
  "decode_raw l names set_field v r0 =
     (case v of None \<Rightarrow> (Some (Err ''unexpected end of JSON input''), r0) | Some x \<Rightarrow> decode_struct l names set_field x r0)"

subsection \<open>Messages\<close>

record rpc_request =
  JSONRPC :: string
  ReqID :: "json option"
  Method :: string
  Params :: "json option"

definition decode_request :: "json_lib \<Rightarrow> json \<Rightarrow> goerr option \<times> rpc_request" where
  "decode_request l v =
     decode_struct l [''jsonrpc'', ''id'', ''method'', ''params'']
       (\<lambda>n x r. if n = ''id'' then (True, r\<lparr>ReqID := Some x\<rparr>)
                else if n = ''params'' then (True, r\<lparr>Params := Some x\<rparr>)
                else if n = ''method'' then set_string x (\<lambda>s. Method_update (\<lambda>_. s)) r
                else set_string x (\<lambda>s. JSONRPC_update (\<lambda>_. s)) r)
       v \<lparr>JSONRPC = [], ReqID = None, Method = [], Params = None\<rparr>"

text \<open>A response; the \<open>id\<close> is left out when there is none.\<close>

definition response :: "json option \<Rightarrow> (string \<times> json) \<Rightarrow> json" where
  "response i body =
     JObj ([(''jsonrpc'', JStr ''2.0'')] @ (case i of None \<Rightarrow> [] | Some x \<Rightarrow> [(''id'', x)]) @ [body])"

definition reply :: "json option \<Rightarrow> json \<Rightarrow> json" where
  "reply i result = response i (''result'', result)"

definition writeError :: "json option \<Rightarrow> int \<Rightarrow> string \<Rightarrow> json" where
  "writeError i code msg = response i (''error'', JObj [(''code'', JNum (itoa code)), (''message'', JStr msg)])"

definition toolResult :: "string \<Rightarrow> bool \<Rightarrow> json" where
  "toolResult text isError =
     JObj [(''content'', JArr [JObj [(''text'', JStr text), (''type'', JStr ''text'')]]), (''isError'', JBool isError)]"

subsection \<open>The server\<close>

type_synonym 's handler = "json option \<Rightarrow> 's \<Rightarrow> (rpc_err option \<times> string) \<times> 's"

record 's tool =
  tName :: string
  tDescription :: string
  tSchema :: "json option"
  tHandler :: "'s handler"

record 's mcp =
  mcpName :: string
  mcpVersion :: string
  tools :: "string \<Rightarrow> 's tool option"
  tool_order :: "string list"
  middleware :: "(string \<Rightarrow> 's handler \<Rightarrow> 's handler) option"

definition NewServer :: "string \<Rightarrow> string \<Rightarrow> 's mcp" where
  "NewServer name version =
     \<lparr>mcpName = name, mcpVersion = version, tools = (\<lambda>_. None), tool_order = [], middleware = None\<rparr>"

definition AddTool :: "'s tool \<Rightarrow> 's mcp \<Rightarrow> 's mcp" where
  "AddTool t m =
     m\<lparr>tool_order := (if tools m (tName t) = None then tool_order m @ [tName t] else tool_order m),
       tools := (tools m)(tName t \<mapsto> t)\<rparr>"

definition Use :: "(string \<Rightarrow> 's handler \<Rightarrow> 's handler) \<Rightarrow> 's mcp \<Rightarrow> 's mcp" where
  "Use mw m = m\<lparr>middleware := Some mw\<rparr>"

definition ProtocolVersion :: string where "ProtocolVersion = ''2024-11-05''"

definition initializeResult :: "json_lib \<Rightarrow> 's mcp \<Rightarrow> json option \<Rightarrow> json" where
  "initializeResult l m params =
     (let protocol =
        (case params of
           None \<Rightarrow> ProtocolVersion
         | Some v \<Rightarrow>
             (case decode_struct l [''protocolVersion''] (\<lambda>_ x. set_string x (\<lambda>s _. s)) v [] of
                (err, p) \<Rightarrow> if err = None \<and> p \<noteq> [] then p else ProtocolVersion))
      in JObj [(''capabilities'', JObj [(''tools'', JObj [])]), (''protocolVersion'', JStr protocol),
               (''serverInfo'', JObj [(''name'', JStr (mcpName m)), (''version'', JStr (mcpVersion m))])])"

definition toolsListResult :: "'s mcp \<Rightarrow> json" where
  "toolsListResult m =
     JObj [(''tools'', JArr (map (\<lambda>n. case tools m n of
         Some t \<Rightarrow> JObj [(''name'', JStr (tName t)), (''description'', JStr (tDescription t)),
                        (''inputSchema'', case tSchema t of Some s \<Rightarrow> s | None \<Rightarrow> JObj [(''type'', JStr ''object'')])]
       | None \<Rightarrow> JObj [(''name'', JStr []), (''description'', JStr []), (''inputSchema'', JObj [(''type'', JStr ''object'')])])
       (tool_order m)))]"

text \<open>\<open>handleToolCall\<close>: the message written and the state after the handler.\<close>

definition handleToolCall :: "json_lib \<Rightarrow> 's mcp \<Rightarrow> rpc_request \<Rightarrow> 's \<Rightarrow> json \<times> 's" where
  "handleToolCall l m req s =
     (case decode_raw l [''name'', ''arguments'']
             (\<lambda>n x p. if n = ''arguments'' then (True, fst p, Some x) else set_string x (\<lambda>s p. (s, snd p)) p) (Params req) ([], None) of
        (Some e, _) \<Rightarrow> (writeError (ReqID req) (- 32602) (''invalid params: '' @ err_text e), s)
      | (None, name, arguments) \<Rightarrow>
          (case tools m name of
             None \<Rightarrow> (writeError (ReqID req) (- 32602) (''unknown tool: '' @ name), s)
           | Some t \<Rightarrow>
               let h = (case middleware m of None \<Rightarrow> tHandler t | Some mw \<Rightarrow> mw (tName t) (tHandler t))
               in case h arguments s of
                    ((Some e, _), s1) \<Rightarrow> (reply (ReqID req) (toolResult (''error: '' @ rpc_text e) True), s1)
                  | ((None, text), s1) \<Rightarrow> (reply (ReqID req) (toolResult text False), s1)))"

definition trimSpace :: "bytes \<Rightarrow> bytes" where
  "trimSpace b = (let ws = [CHR '' '', TAB, CR, LF] in trim_right (trim_left b ws) ws)"

definition handleLine :: "json_lib \<Rightarrow> 's mcp \<Rightarrow> bytes \<Rightarrow> 's \<Rightarrow> json list \<times> 's" where
  "handleLine l m line s =
     (case (case Parse l line of Inl e \<Rightarrow> Inl e | Inr v \<Rightarrow> (case decode_request l v of (Some e, _) \<Rightarrow> Inl e | (None, r) \<Rightarrow> Inr r)) of
        Inl _ \<Rightarrow> (if 0 < length (trimSpace line) then [writeError None (- 32700) ''parse error''] else [], s)
      | Inr req \<Rightarrow>
          if Method req = ''initialize'' then ([reply (ReqID req) (initializeResult l m (Params req))], s)
          else if Method req = ''notifications/initialized'' \<or> Method req = ''initialized'' then ([], s)
          else if Method req = ''ping'' then ([reply (ReqID req) (JObj [])], s)
          else if Method req = ''tools/list'' then ([reply (ReqID req) (toolsListResult m)], s)
          else if Method req = ''tools/call'' then (case handleToolCall l m req s of (r, s1) \<Rightarrow> ([r], s1))
          else if ReqID req = None then ([], s)
          else ([writeError (ReqID req) (- 32601) (''method not found: '' @ Method req)], s))"

text \<open>\<open>ReadBytes\<close>: the line up to and with its line feed, what is left in the buffer and of the input, and whether the
  input ended first.\<close>

fun ReadBytes :: "bytes \<Rightarrow> bytes list \<Rightarrow> bytes \<times> bytes \<times> bytes list \<times> bool" where
  "ReadBytes buf [] =
     (case index_char buf LF of
        Some i \<Rightarrow> (take (i + 1) buf, drop (i + 1) buf, [], False)
      | None \<Rightarrow> (buf, [], [], True))"
| "ReadBytes buf (c # cs) =
     (case index_char buf LF of
        Some i \<Rightarrow> (take (i + 1) buf, drop (i + 1) buf, c # cs, False)
      | None \<Rightarrow> ReadBytes (buf @ c) cs)"

lemma index_char_split: "index_char s c = Some i \<Longrightarrow> \<exists>u v. s = u @ c # v \<and> i = length u \<and> c \<notin> set u"
proof (induction s arbitrary: i)
  case (Cons x xs)
  show ?case
  proof (cases "x = c")
    case True
    with Cons.prems show ?thesis by (metis append_Nil empty_iff empty_set index_char.simps(2) list.size(3) option.inject)
  next
    case False
    with Cons.prems obtain j where "index_char xs c = Some j" "i = Suc j" by (auto split: option.splits)
    with Cons.IH obtain u v where "xs = u @ c # v" "j = length u" "c \<notin> set u" by blast
    with False \<open>i = Suc j\<close> show ?thesis by (intro exI [of _ "x # u"] exI [of _ v]) auto
  qed
qed simp

lemma ReadBytes_total:
  "ReadBytes buf cs = (line, buf', cs', over) \<Longrightarrow> buf @ concat cs = line @ buf' @ concat cs' \<and>
     (over \<longrightarrow> buf' = [] \<and> cs' = [] \<and> LF \<notin> set line) \<and> (\<not> over \<longrightarrow> line \<noteq> [] \<and> last line = LF \<and> LF \<notin> set (butlast line))"
proof (induction buf cs rule: ReadBytes.induct)
  case (1 buf)
  show ?case
  proof (cases "index_char buf LF")
    case None
    with 1 show ?thesis by (simp add: index_char_None)
  next
    case (Some i)
    then obtain u v where "buf = u @ LF # v" "i = length u" "LF \<notin> set u" using index_char_split by metis
    with 1 Some show ?thesis by auto
  qed
next
  case (2 buf c cs)
  show ?case
  proof (cases "index_char buf LF")
    case None
    with 2 show ?thesis by simp
  next
    case (Some i)
    then obtain u v where "buf = u @ LF # v" "i = length u" "LF \<notin> set u" using index_char_split by metis
    with 2(2) Some show ?thesis by auto
  qed
qed

lemma ReadBytes_less: "ReadBytes buf cs = (line, buf', cs', False) \<Longrightarrow> length (buf' @ concat cs') < length (buf @ concat cs)"
  using ReadBytes_total [of buf cs line buf' cs' False] by (cases line) auto

text \<open>\<open>Serve\<close>: \<open>ctx n\<close> is the context's error before the \<open>n\<close>-th read. The result, the messages
  written and the state.\<close>

function Serve :: "json_lib \<Rightarrow> 's mcp \<Rightarrow> (nat \<Rightarrow> goerr option) \<Rightarrow> nat \<Rightarrow> bytes \<Rightarrow> bytes list \<Rightarrow> goerr \<Rightarrow> json list \<Rightarrow> 's
    \<Rightarrow> goerr option \<times> json list \<times> 's" where
  "Serve l m ctx n buf cs fin out s =
     (case ctx n of
        Some e \<Rightarrow> (Some e, out, s)
      | None \<Rightarrow>
          (case ReadBytes buf cs of (line, buf', cs', over) \<Rightarrow>
             let (ms, s1) = (if 0 < length line then handleLine l m line s else ([], s))
             in if over then (if fin = EOF_err then None else Some fin, out @ ms, s1)
                else Serve l m ctx (n + 1) buf' cs' fin (out @ ms) s1))"
  by pat_completeness auto
termination
  by (relation "measure (\<lambda>(l, m, ctx, n, buf, cs, fin, out, s). length (buf @ concat cs))")
    (auto dest!: ReadBytes_less [OF sym] split: if_splits)

declare Serve.simps [simp del]

text \<open>What a message is on standard output.\<close>

definition writeMessage :: "json_lib \<Rightarrow> json \<Rightarrow> bytes" where
  "writeMessage l r = Print l r @ [LF]"

subsection \<open>The reference: one line after the other\<close>

definition lines_of :: "bytes \<Rightarrow> bytes list" where
  "lines_of s =
     (let ws = split_char s LF
      in map (\<lambda>w. w @ [LF]) (butlast ws) @ (if last ws = [] then [] else [last ws]))"

fun handle_lines :: "json_lib \<Rightarrow> 's mcp \<Rightarrow> bytes list \<Rightarrow> 's \<Rightarrow> json list \<times> 's" where
  "handle_lines l m [] s = ([], s)"
| "handle_lines l m (line # ls) s =
     (case handleLine l m line s of (ms, s1) \<Rightarrow>
      (case handle_lines l m ls s1 of (ns, s2) \<Rightarrow> (ms @ ns, s2)))"

lemma lines_of_last: "LF \<notin> set w \<Longrightarrow> lines_of w = (if w = [] then [] else [w])"
  by (simp add: lines_of_def split_char_word)

lemma lines_of_Cons: "LF \<notin> set w \<Longrightarrow> lines_of (w @ LF # s) = (w @ [LF]) # lines_of s"
  by (simp add: lines_of_def split_char_append Let_def)

lemma lines_of_messages:
  "\<forall>j. LF \<notin> set (Print l j) \<Longrightarrow> lines_of (concat (map (writeMessage l) ms)) = map (writeMessage l) ms"
proof (induction ms)
  case Nil
  show ?case by (simp add: lines_of_last)
qed (simp add: writeMessage_def lines_of_Cons)

lemma Serve_lines:
  assumes "\<forall>k. ctx k = None"
  shows "Serve l m ctx n buf cs fin out s =
    (case handle_lines l m (lines_of (buf @ concat cs)) s of (ms, s1) \<Rightarrow> (if fin = EOF_err then None else Some fin, out @ ms, s1))"
  using assms
proof (induction l m ctx n buf cs fin out s rule: Serve.induct)
  case (1 l m ctx n buf cs fin out s)
  note c = "1.prems"
  obtain line buf' cs' over where r: "ReadBytes buf cs = (line, buf', cs', over)" by (metis prod_cases4)
  obtain ms s1 where h: "(if 0 < length line then handleLine l m line s else ([], s)) = (ms, s1)" by (metis prod.collapse)
  note T = ReadBytes_total [OF r]
  have step: "Serve l m ctx n buf cs fin out s =
      (if over then (if fin = EOF_err then None else Some fin, out @ ms, s1) else Serve l m ctx (n + 1) buf' cs' fin (out @ ms) s1)"
    using c r h by (subst Serve.simps) simp
  show ?case
  proof (cases over)
    case True
    with T have "buf @ concat cs = line" "LF \<notin> set line" by auto
    with step True h show ?thesis by (auto simp: lines_of_last split: prod.splits if_splits)
  next
    case False
    with T obtain u where u: "line = u @ [LF]" "LF \<notin> set u" by (metis append_butlast_last_id)
    with T have L: "lines_of (buf @ concat cs) = line # lines_of (buf' @ concat cs')" by (simp add: lines_of_Cons)
    have "Serve l m ctx (n + 1) buf' cs' fin (out @ ms) s1 =
        (case handle_lines l m (lines_of (buf' @ concat cs')) s1 of (ns, s2) \<Rightarrow> (if fin = EOF_err then None else Some fin, (out @ ms) @ ns, s2))"
      by (rule "1.IH" [OF c [rule_format] r [symmetric] refl refl refl h [symmetric] False c])
    with step False L u h show ?thesis by (auto split: prod.splits)
  qed
qed

text \<open>A line that carries no request with an id may be answered nevertheless: the methods \<open>ping\<close>,
  \<open>initialize\<close>, \<open>tools/list\<close> and \<open>tools/call\<close> reply to notifications too.\<close>

lemma notification_answered:
  assumes "Parse l line = Inr v" "decode_request l v = (None, req)" "ReqID req = None" "Method req = ''ping''"
  shows "handleLine l m line s = ([JObj [(''jsonrpc'', JStr ''2.0''), (''result'', JObj [])]], s)"
  using assms by (simp add: handleLine_def reply_def response_def)

lemma handleLine_one: "length (fst (handleLine l m line s)) \<le> 1"
  by (auto simp: handleLine_def split: sum.splits prod.splits)

lemma handleLine_id:
  assumes "Parse l line = Inr v" "decode_request l v = (None, req)" "ReqID req = Some i"
    "Method req \<notin> {''notifications/initialized'', ''initialized''}"
  shows "\<exists>body. fst (handleLine l m line s) = [response (Some i) body]"
proof -
  have "\<exists>body. fst (handleToolCall l m req s) = response (Some i) body"
    using assms(3) by (auto simp: handleToolCall_def writeError_def reply_def Let_def split: sum.splits option.splits prod.splits)
  with assms show ?thesis
    by (auto simp: handleLine_def writeError_def reply_def split: prod.splits) (metis fst_conv)+
qed

text \<open>C36: The server answers line by line, however its input is cut. As long as the context lives, \<open>Serve\<close>
  returns, with no error exactly at a regular end of the input, and has written what the reference writes that
  takes the complete lines of the input, and a last incomplete one, in order; in particular it does
  not depend on how the reads split the input. Each line gets at most one message; a request with an id gets exactly one, with this
  id, whatever goes wrong in it, unless it is the \<open>initialized\<close> message; and as long as a printed value has no line feed, the
  output is one line per message.\<close>

theorem mcp_serves_lines:
  "((\<forall>k. ctx k = None) \<longrightarrow>
      Serve l m ctx 0 [] cs fin [] s =
        (if fin = EOF_err then None else Some fin, handle_lines l m (lines_of (concat cs)) s)) \<and>
   length (fst (handleLine l m line s)) \<le> 1 \<and>
   (Parse l line = Inr v \<and> decode_request l v = (None, req) \<and> ReqID req = Some i \<and>
      Method req \<notin> {''notifications/initialized'', ''initialized''} \<longrightarrow>
      (\<exists>body. fst (handleLine l m line s) = [response (Some i) body])) \<and>
   ((\<forall>j. LF \<notin> set (Print l j)) \<longrightarrow> lines_of (concat (map (writeMessage l) ms)) = map (writeMessage l) ms)"
  using handleLine_one [of l m line s] handleLine_id [of l line v req i m s] lines_of_messages [of l ms]
  by (simp add: Serve_lines [of ctx] split: prod.splits)

text \<open>A library that knows one text, and a server with one tool that counts its calls.\<close>

definition lib0 :: json_lib where
  "lib0 = \<lparr>Parse = (\<lambda>b. if b = ''call'' @ [LF] then Inr (JObj [(''id'', JNum ''7''), (''method'', JStr ''tools/call''),
               (''params'', JObj [(''name'', JStr ''count''), (''arguments'', JObj [])])])
             else Inl (Err ''syntax'')),
           Print = (\<lambda>_. ''{}''), Mismatch = (\<lambda>n. Err n)\<rparr>"

definition server0 :: "nat mcp" where
  "server0 = AddTool \<lparr>tName = ''count'', tDescription = [], tSchema = None, tHandler = (\<lambda>_ n. ((None, ''ok''), n + 1))\<rparr>
     (NewServer ''unwedge'' ''dev'')"

theorem mcp_serves_lines_witness:
  "Serve lib0 server0 (\<lambda>_. None) 0 [] [''ca'', ''ll'' @ [LF, LF], ''x''] EOF_err [] 0 =
     (None, [reply (Some (JNum ''7'')) (toolResult ''ok'' False), writeError None (- 32700) ''parse error''], 1)"
proof -
  have l: "lines_of (concat [''ca'', ''ll'' @ [LF, LF], ''x'']) = [''call'' @ [LF], [LF], ''x'']" by code_simp
  have "handleLine lib0 server0 (''call'' @ [LF]) 0 = ([reply (Some (JNum ''7'')) (toolResult ''ok'' False)], 1)"
    by (simp add: handleLine_def lib0_def decode_request_def decode_raw_def decode_struct_def field_of_def set_string_def handleToolCall_def
        server0_def AddTool_def NewServer_def)
  moreover have "handleLine lib0 server0 [LF] n = ([], n)" "handleLine lib0 server0 ''x'' n = ([writeError None (- 32700) ''parse error''], n)" for n
    by (simp_all add: handleLine_def lib0_def trimSpace_def trim_left_def trim_right_def)
  ultimately have "handle_lines lib0 server0 [''call'' @ [LF], [LF], ''x''] 0 =
      ([reply (Some (JNum ''7'')) (toolResult ''ok'' False), writeError None (- 32700) ''parse error''], 1)"
    by simp
  then show ?thesis
    using mcp_serves_lines [of "\<lambda>_. None" lib0 server0 "[''ca'', ''ll'' @ [LF, LF], ''x'']" EOF_err 0, THEN conjunct1] l by simp
qed

end
