(* ===== verification/Rpc_Client.thy ===== *)
theory Rpc_Client
  imports Rpc_Server Daemon Client_Config
begin

text \<open>
  \<open>internal/client\<close>: the client the command line and the MCP bridge share. The daemon is a record of
  the session RPCs, functions of its state \<open>'w\<close>; a stream is what opening it and the next
  \<open>Send\<close>s give, and what \<open>Recv\<close> yields. Local files are given by what reading them yields.
\<close>

subsection \<open>Connecting\<close>

record dial_options =
  oAddress :: string
  oNoTLS :: bool
  oCAFile :: string
  oCertFile :: string
  oKeyFile :: string
  oServerName :: string
  oInsecure :: bool
  oDialer :: bool

datatype transport = InsecureTransport | TlsTransport tls_client

definition Dial :: "tls_lib \<Rightarrow> (string \<Rightarrow> goerr option) \<Rightarrow> dial_options \<Rightarrow> goerr + transport" where
  "Dial l grpcNew o1 =
     (if oAddress o1 = [] then Inl (Err ''client: address required'')
      else case (if oNoTLS o1 \<or> oDialer o1 then Inr InsecureTransport
                 else case ClientCredentials l (oCAFile o1) (oServerName o1) (oCertFile o1) (oKeyFile o1) (oInsecure o1) of
                        Inl e \<Rightarrow> Inl e | Inr c \<Rightarrow> Inr (TlsTransport c)) of
             Inl e \<Rightarrow> Inl e
           | Inr t \<Rightarrow>
               (case grpcNew (oAddress o1) of
                  Some e \<Rightarrow> Inl (Wrap (''client: dial '' @ oAddress o1) e)
                | None \<Rightarrow> Inr t))"

subsection \<open>The session\<close>

text \<open>The client's own state is the id of the session it holds, empty for none.\<close>

type_synonym client = string

definition withSession :: "client \<Rightarrow> (string \<times> string list) list" where
  "withSession c = (if c \<noteq> [] then [(SessionMetadataKey, [c])] else [])"

record 'w api =
  apiStart :: "string \<Rightarrow> int \<Rightarrow> 'w \<Rightarrow> (rpc_err + start_response) \<times> 'w"
  apiFinish :: "string \<Rightarrow> 'w \<Rightarrow> rpc_err option \<times> 'w"
  apiPing :: "string \<Rightarrow> 'w \<Rightarrow> (rpc_err + int) \<times> 'w"

record session =
  sesID :: string
  sesExpiresAt :: time
  sesLife :: duration

definition Milliseconds :: "duration \<Rightarrow> int" where
  "Milliseconds d = (if d < 0 then - ((- d) div millisecond) else d div millisecond)"

definition wait_ms :: "duration \<Rightarrow> int" where
  "wait_ms wait =
     (if wait < 0 then - 1 else if wait = 0 then 0
      else let ms = Milliseconds wait in if ms = 0 then 1 else ms)"

definition Acquire :: "'w api \<Rightarrow> string \<Rightarrow> duration \<Rightarrow> client \<times> 'w \<Rightarrow> (rpc_err + session) \<times> client \<times> 'w" where
  "Acquire a own wait cw =
     (case apiStart a own (wait_ms wait) (snd cw) of
        (Inl e, w) \<Rightarrow> (Inl e, fst cw, w)
      | (Inr r, w) \<Rightarrow>
          (Inr \<lparr>sesID = SessionId r, sesExpiresAt = unix_epoch + ExpiresAtUnixMs r * millisecond,
                sesLife = i64 (TtlMs r * millisecond)\<rparr>, SessionId r, w))"

definition Release :: "'w api \<Rightarrow> client \<times> 'w \<Rightarrow> rpc_err option \<times> client \<times> 'w" where
  "Release a cw =
     (if fst cw = [] then (None, cw)
      else case apiFinish a (fst cw) (snd cw) of (e, w) \<Rightarrow> (e, [], w))"

definition client_Ping :: "'w api \<Rightarrow> client \<times> 'w \<Rightarrow> rpc_err option \<times> client \<times> 'w" where
  "client_Ping a cw =
     (if fst cw = [] then (None, cw)
      else case apiPing a (fst cw) (snd cw) of
             (Inl e, w) \<Rightarrow> (Some e, fst cw, w)
           | (Inr _, w) \<Rightarrow> (None, fst cw, w))"

definition HasSession :: "client \<Rightarrow> bool" where "HasSession c \<longleftrightarrow> c \<noteq> []"

definition ClearSession :: "client \<Rightarrow> client" where "ClearSession c = []"

definition status_code :: "rpc_err \<Rightarrow> code option" where
  "status_code e = (case e of Status c _ \<Rightarrow> Some c | Plain _ \<Rightarrow> None)"

text \<open>\<open>StartKeepalive\<close>: the interval used, and \<open>n\<close> ticks of it.\<close>

definition keepalive_interval :: "duration \<Rightarrow> duration" where
  "keepalive_interval i = (if i \<le> 0 then 60 * second else i)"

fun keepalive :: "'w api \<Rightarrow> nat \<Rightarrow> client \<times> 'w \<Rightarrow> client \<times> 'w" where
  "keepalive a 0 cw = cw"
| "keepalive a (Suc n) cw = keepalive a n (snd (client_Ping a cw))"

subsection \<open>What the client relies on\<close>

text \<open>The session RPCs, as a client sees them: a session that is granted has an id and holds the lock, one that is
  finished does not hold it, and neither call touches what else the daemon has, nor the lock of someone
  else. \<open>good\<close> is what the daemon's surroundings promise.\<close>

locale session_service =
  fixes good :: bool
    and a :: "'w api"
    and holder :: "'w \<Rightarrow> string"
    and rest :: "'w \<Rightarrow> 's"
  assumes start_grants: "good \<Longrightarrow> apiStart a own ms w = (Inr r, w') \<Longrightarrow> SessionId r \<noteq> [] \<and> holder w' = SessionId r"
    and start_rest: "apiStart a own ms w = (x, w') \<Longrightarrow> rest w' = rest w"
    and start_code: "apiStart a own ms w = (Inl e, w') \<Longrightarrow> status_code e \<noteq> Some Code_Unimplemented"
    and finish_frees: "i \<noteq> [] \<Longrightarrow> apiFinish a i w = (y, w') \<Longrightarrow> holder w' \<noteq> i \<and> rest w' = rest w \<and> (holder w \<noteq> i \<longrightarrow> w' = w)"
begin

lemma acquired:
  "good \<Longrightarrow> Acquire a own wait (c, w) = (Inr se, c', w') \<Longrightarrow> c' \<noteq> [] \<and> holder w' = c' \<and> rest w' = rest w"
  using start_grants start_rest by (auto simp: Acquire_def split: prod.splits sum.splits)

lemma not_acquired:
  "Acquire a own wait (c, w) = (Inl e, c', w') \<Longrightarrow> c' = c \<and> rest w' = rest w \<and> status_code e \<noteq> Some Code_Unimplemented"
  using start_code start_rest by (auto simp: Acquire_def split: prod.splits sum.splits)

lemma released:
  "c \<noteq> [] \<Longrightarrow> Release a (c, w) = (e, c', w') \<Longrightarrow> c' = [] \<and> holder w' \<noteq> c \<and> rest w' = rest w \<and> (holder w \<noteq> c \<longrightarrow> w' = w)"
  using finish_frees [of c w] by (auto simp: Release_def split: prod.splits)

end

subsection \<open>Sending files\<close>

text \<open>The reads of a file in a 64 KiB buffer, and how they end.\<close>

function file_reads :: "bytes \<Rightarrow> bytes list" where
  "file_reads d = (if d = [] then [] else take 65536 d # file_reads (drop 65536 d))"
  by pat_completeness auto
termination by (relation "measure length") auto

declare file_reads.simps [simp del]

text \<open>The send loop: the messages sent and the error of the first \<open>Send\<close> that failed.\<close>

fun send_chunks :: "bytes list \<Rightarrow> goerr option list \<Rightarrow> 'm in_msg list \<Rightarrow> 'm in_msg list \<times> goerr option" where
  "send_chunks [] sres out = (out, None)"
| "send_chunks (b # bs) sres out =
     (case sres of
        Some e # _ \<Rightarrow> (out, Some e)
      | _ \<Rightarrow> send_chunks bs (tl sres) (out @ [ChunkMsg b]))"

text \<open>A local file: the error of opening it, of its \<open>Stat\<close>, whether it is a directory, its size and mode and
  its bytes, with the error reading ends with (\<open>EOF_err\<close> at the end).\<close>

record local_file =
  lOpen :: "goerr option"
  lStat :: "goerr option"
  lIsDir :: bool
  lSize :: int
  lMode :: nat
  lData :: bytes
  lEnd :: goerr

record upload_meta =
  mdName :: string
  mdSize :: int
  mdOverwrite :: bool

definition UploadImageFile :: "goerr option \<Rightarrow> goerr option list \<Rightarrow> goerr + image_info \<Rightarrow> string \<Rightarrow> local_file \<Rightarrow> bool
    \<Rightarrow> (goerr + image_info) \<times> upload_meta in_msg list" where
  "UploadImageFile opened sres closed path f overwrite =
     (case lOpen f of
        Some e \<Rightarrow> (Inl (Wrap (''client: open '' @ path) e), [])
      | None \<Rightarrow>
     (case lStat f of
        Some e \<Rightarrow> (Inl e, [])
      | None \<Rightarrow>
     (case opened of
        Some e \<Rightarrow> (Inl e, [])
      | None \<Rightarrow>
     (case sres of
        Some e # _ \<Rightarrow> (Inl (Wrap ''client: send metadata'' e), [])
      | _ \<Rightarrow>
     (case send_chunks (file_reads (lData f)) (tl sres)
             [Metadata \<lparr>mdName = path_base path, mdSize = lSize f, mdOverwrite = overwrite\<rparr>] of
        (out, Some e) \<Rightarrow> (Inl (Wrap ''client: send chunk'' e), out)
      | (out, None) \<Rightarrow>
          if lEnd f = EOF_err then (closed, out)
          else (Inl (Wrap (''client: read '' @ path) (lEnd f)), out))))))"

definition SCPUploadFile :: "goerr option \<Rightarrow> goerr option list \<Rightarrow> goerr + int \<Rightarrow> string \<Rightarrow> local_file \<Rightarrow> string \<Rightarrow> duration
    \<Rightarrow> (int \<times> goerr option) \<times> scp_upload_meta in_msg list" where
  "SCPUploadFile opened sres closed path f remote timeout =
     (case lOpen f of
        Some e \<Rightarrow> ((0, Some (Wrap (''client: open '' @ path) e)), [])
      | None \<Rightarrow>
     (case lStat f of
        Some e \<Rightarrow> ((0, Some e), [])
      | None \<Rightarrow>
      if lIsDir f then ((0, Some (Err (''client: '' @ path @ '' is a directory''))), [])
      else
     (case opened of
        Some e \<Rightarrow> ((0, Some e), [])
      | None \<Rightarrow>
     (case sres of
        Some e # _ \<Rightarrow> ((0, Some e), [])
      | _ \<Rightarrow>
     (case send_chunks (file_reads (lData f)) (tl sres)
             [Metadata \<lparr>RemotePath = remote, uSize = lSize f, uMode = lMode f, uTimeoutMs = Milliseconds timeout\<rparr>] of
        (out, Some e) \<Rightarrow> ((0, Some e), out)
      | (out, None) \<Rightarrow>
          if lEnd f = EOF_err
          then (case closed of Inl e \<Rightarrow> ((0, Some e), out) | Inr n \<Rightarrow> ((n, None), out))
          else ((0, Some (Wrap (''client: read '' @ path) (lEnd f))), out))))))"

subsection \<open>Receiving\<close>

text \<open>The receive loop of \<open>SCPDownloadFile\<close>: the outcome of each write, and the number of bytes and the error so far.\<close>

fun recv_file :: "string \<Rightarrow> download_msg list \<Rightarrow> goerr \<Rightarrow> (nat \<times> goerr option) list \<Rightarrow> bytes \<Rightarrow> int \<Rightarrow> bytes \<times> int \<times> goerr option" where
  "recv_file path [] e ws d n = (d, n, if e = EOF_err then None else Some e)"
| "recv_file path (DMeta _ _ _ # ms) e ws d n = recv_file path ms e ws d n"
| "recv_file path (DChunk b # ms) e ws d n =
     (if 0 < length b
      then (case ws of
              (k, Some x) # _ \<Rightarrow> (d @ take k b, n + int (min k (length b)), Some (Wrap (''client: write '' @ path) x))
            | _ \<Rightarrow> recv_file path ms e (tl ws) (d @ b) (n + int (length b)))
      else recv_file path ms e ws d n)"

text \<open>The file's mode and contents, if it was created, and what the function returns.\<close>

definition SCPDownloadFile :: "goerr option \<Rightarrow> goerr + download_msg list \<times> goerr \<Rightarrow> goerr option \<Rightarrow> (nat \<times> goerr option) list
    \<Rightarrow> goerr option \<Rightarrow> string \<Rightarrow> (nat \<times> bytes) option \<times> int \<times> goerr option" where
  "SCPDownloadFile opened stream create ws cerr path =
     (case opened of
        Some e \<Rightarrow> (None, 0, Some e)
      | None \<Rightarrow>
     (case stream of
        Inl e \<Rightarrow> (None, 0, Some e)
      | Inr ([], e) \<Rightarrow> (None, 0, Some e)
      | Inr (DChunk _ # _, _) \<Rightarrow> (None, 0, Some (Err ''client: expected scp metadata as the first message''))
      | Inr (DMeta sz md nm # ms, e) \<Rightarrow>
          let mode = (if md mod 512 = 0 then 420 else md mod 512)
          in (case create of
                Some x \<Rightarrow> (None, 0, Some (Wrap (''client: create '' @ path) x))
              | None \<Rightarrow>
                  (case recv_file path ms e ws [] 0 of
                     (d, n, Some x) \<Rightarrow> (Some (mode, d), n, Some x)
                   | (d, n, None) \<Rightarrow> (Some (mode, d), n, cerr)))))"

text \<open>\<open>drainBootEvents\<close>: the events handed on, and the error.\<close>

fun drainBootEvents :: "boot_event list \<Rightarrow> goerr \<Rightarrow> bool \<Rightarrow> boot_event list \<Rightarrow> boot_event list \<times> goerr option" where
  "drainBootEvents [] e h seen = (seen, if e = EOF_err then None else Some e)"
| "drainBootEvents (v # vs) e h seen = drainBootEvents vs e h (if h then seen @ [v] else seen)"

definition client_Netboot :: "goerr + boot_event list \<times> goerr \<Rightarrow> bool \<Rightarrow> boot_event list \<times> goerr option" where
  "client_Netboot stream h =
     (case stream of Inl e \<Rightarrow> ([], Some e) | Inr (vs, e) \<Rightarrow> drainBootEvents vs e h [])"

text \<open>\<open>Tunnel\<close>: the copying loop from the local end, with whether the sending side was closed and
  the error it reports, and the one to it; the function returns the first error reported.\<close>

fun client_tunnel_out :: "(bytes \<times> goerr option) list \<Rightarrow> goerr option list \<Rightarrow> bytes list \<Rightarrow> bytes list \<times> bool \<times> goerr option" where
  "client_tunnel_out [] sres sent1 = (sent1, False, None)"
| "client_tunnel_out ((b, e) # rs) sres sent1 =
     (case (if 0 < length b then (case sres of Some x # _ \<Rightarrow> Some x | _ \<Rightarrow> None) else None) of
        Some x \<Rightarrow> (sent1, False, Some x)
      | None \<Rightarrow>
          let sent2 = (if 0 < length b then sent1 @ [b] else sent1); sres1 = (if 0 < length b then tl sres else sres)
          in (case e of
                Some x \<Rightarrow> (sent2, True, if x = EOF_err then None else Some x)
              | None \<Rightarrow> client_tunnel_out rs sres1 sent2))"

definition client_Tunnel :: "goerr option \<Rightarrow> goerr option \<Rightarrow> goerr \<Rightarrow> goerr option" where
  "client_Tunnel opened first errc =
     (case opened of
        Some e \<Rightarrow> Some e
      | None \<Rightarrow> (case first of Some e \<Rightarrow> Some e | None \<Rightarrow> if errc = EOF_err then None else Some errc))"

subsection \<open>What is sent\<close>

lemma concat_file_reads [simp]: "concat (file_reads d) = d"
  by (induction d rule: file_reads.induct) (subst file_reads.simps, simp)

lemma file_reads_size: "b \<in> set (file_reads d) \<Longrightarrow> b \<noteq> [] \<and> length b \<le> 65536"
proof (induction d rule: file_reads.induct)
  case (1 d)
  then show ?case by (subst (asm) (2) file_reads.simps) (auto split: if_splits)
qed

lemma send_chunks_ok: "send_chunks bs sres out = (out', None) \<Longrightarrow> out' = out @ map ChunkMsg bs"
  by (induction bs sres out rule: send_chunks.induct) (auto split: list.splits option.splits)

lemma wait_ms_sign: "(wait_ms d < 0 \<longleftrightarrow> d < 0) \<and> (wait_ms d = 0 \<longleftrightarrow> d = 0)"
  by (auto simp: wait_ms_def Let_def millisecond_def Milliseconds_def)

text \<open>When the daemon ends an upload early, a \<open>Send\<close> gives \<open>io.EOF\<close>: the status the stream ended with, which
  \<open>CloseAndRecv\<close> would give, is not asked for.\<close>

lemma upload_hides_status:
  "lOpen f = None \<Longrightarrow> lStat f = None \<Longrightarrow>
     fst (UploadImageFile None (Some EOF_err # sres) closed path f ow) = Inl (Wrap ''client: send metadata'' EOF_err)"
  "lOpen f = None \<Longrightarrow> lStat f = None \<Longrightarrow> \<not> lIsDir f \<Longrightarrow>
     fst (SCPUploadFile None (Some EOF_err # sres) closed' path f remote timeout) = (0, Some EOF_err)"
  by (simp_all add: UploadImageFile_def SCPUploadFile_def)

subsection \<open>Files from one end to the other\<close>

text \<open>What the daemon sees of an upload's messages.\<close>

definition wire :: "upload_meta in_msg \<Rightarrow> (string \<times> bool) in_msg" where
  "wire x = (case x of Metadata md \<Rightarrow> Metadata (mdName md, mdOverwrite md) | ChunkMsg b \<Rightarrow> ChunkMsg b)"

lemma concat_chunks [simp]: "concat (map GetChunk (map ChunkMsg bs)) = concat bs"
  by (simp add: GetChunk_def comp_def)

lemma chunks_of_ChunkMsg: "concat (chunks_of (map ChunkMsg bs)) = concat bs"
  by (induction bs) (auto simp: chunks_of_def GetChunk_def)

lemma send_chunks_all: "send_chunks bs [] out = (out @ map ChunkMsg bs, None)"
  by (induction bs arbitrary: out) auto

lemma recv_send_body:
  "send_body [] b EOF_err msgs n = (msgs @ map DChunk (file_reads b), None, n + length b)"
proof (induction b arbitrary: msgs n rule: file_reads.induct)
  case (1 b)
  show ?case
  proof (cases "b = []")
    case True
    then show ?thesis by (simp add: send_body.simps [of _ "[]"] file_reads.simps [of "[]"])
  next
    case False
    have "length (take 65536 b) + length (drop 65536 b) = length b"
      by (metis append_take_drop_id length_append)
    with 1 [OF False] False show ?thesis
      by (simp add: send_body.simps [of _ b] file_reads.simps [of b] Let_def add.assoc del: length_take length_drop)
  qed
qed

lemma recv_file_chunks:
  "recv_file path (map DChunk bs) EOF_err [] d n = (d @ concat bs, n + int (length (concat bs)), None)"
  by (induction bs arbitrary: d n) auto

text \<open>C37: Files arrive whole. When nothing fails on the way, an upload's messages make the daemon store, under the last
  component of the path, exactly the bytes of the local file, with their CRC, whether or not it kept to the 64 KiB pieces they
  were sent in; the messages of an scp upload carry exactly the bytes of the file; and what the daemon's download handler sends
  makes the client write exactly the body it read, and count its bytes.\<close>

theorem files_arrive:
  assumes "lOpen f = None" "lStat f = None" "\<not> lIsDir f" "lEnd f = EOF_err"
    "dStore sv = Some st" "store_ok st" "create_temp en = Inr rnd" "plain (''.upload-'' @ rnd)"
    "fs_get g (on_disk st (''.upload-'' @ rnd)) = None" "remove_err en (on_disk st (''.upload-'' @ rnd)) = None"
    "prefix_s st @ path_base path \<noteq> ''.upload-'' @ rnd"
  shows "(\<exists>m ms. UploadImageFile None [] closed path f ow = (closed, m # ms) \<and>
      (\<forall>i g'. UploadImage sv en (Inr (wire m)) (map wire ms, EOF_err) refused g = (Inr i, g') \<longrightarrow>
        im_name i = path_base path \<and> im_size i = int (length (lData f)) \<and> im_crc32 i = crc32 (lData f) \<and>
        fs_get g' (on_disk st (prefix_s st @ path_base path)) = Some (File (lData f) (now en)))) \<and>
    (\<exists>m ms. SCPUploadFile None [] (Inr k) path f remote timeout = ((k, None), m # ms) \<and> concat (chunks_of ms) = lData f) \<and>
    (\<exists>msgs. download_sink [] meta (body, EOF_err) = (msgs, None, length body) \<and>
      (\<exists>mode. SCPDownloadFile None (Inr (msgs, EOF_err)) None [] None path = (Some (mode, body), int (length body), None)))"
proof (intro conjI)
  let ?m = "Metadata \<lparr>mdName = path_base path, mdSize = lSize f, mdOverwrite = ow\<rparr> :: upload_meta in_msg"
  let ?bs = "file_reads (lData f)"
  have u: "UploadImageFile None [] closed path f ow = (closed, ?m # map ChunkMsg ?bs)"
    using assms(1-4) by (simp add: UploadImageFile_def send_chunks_all)
  have w: "wire ?m = Metadata (path_base path, ow)" "map wire (map ChunkMsg ?bs) = map ChunkMsg ?bs"
    by (simp_all add: wire_def comp_def)
  have "im_name i = path_base path \<and> im_size i = int (length (lData f)) \<and> im_crc32 i = crc32 (lData f) \<and>
      fs_get g' (on_disk st (prefix_s st @ path_base path)) = Some (File (lData f) (now en))"
    if "UploadImage sv en (Inr (wire ?m)) (map wire (map ChunkMsg ?bs), EOF_err) refused g = (Inr i, g')" for i g'
    using upload_outcome [OF assms(5-11) that [unfolded w]] by (simp del: map_map)
  with u show "\<exists>m ms. UploadImageFile None [] closed path f ow = (closed, m # ms) \<and>
      (\<forall>i g'. UploadImage sv en (Inr (wire m)) (map wire ms, EOF_err) refused g = (Inr i, g') \<longrightarrow>
        im_name i = path_base path \<and> im_size i = int (length (lData f)) \<and> im_crc32 i = crc32 (lData f) \<and>
        fs_get g' (on_disk st (prefix_s st @ path_base path)) = Some (File (lData f) (now en)))" by blast
  show "\<exists>m ms. SCPUploadFile None [] (Inr k) path f remote timeout = ((k, None), m # ms) \<and> concat (chunks_of ms) = lData f"
    using assms(1-4) by (simp add: SCPUploadFile_def send_chunks_all chunks_of_ChunkMsg)
  have "download_sink [] meta (body, EOF_err) = ([DMeta (mSize meta) (mMode meta) (mName meta)] @ map DChunk (file_reads body), None, length body)"
    by (simp add: download_sink_def recv_send_body)
  then show "\<exists>msgs. download_sink [] meta (body, EOF_err) = (msgs, None, length body) \<and>
      (\<exists>mode. SCPDownloadFile None (Inr (msgs, EOF_err)) None [] None path = (Some (mode, body), int (length body), None))"
    by (simp add: SCPDownloadFile_def recv_file_chunks Let_def)
qed

definition kernel0 :: local_file where
  "kernel0 = \<lparr>lOpen = None, lStat = None, lIsDir = False, lSize = 3, lMode = 420, lData = ''abc'', lEnd = EOF_err\<rparr>"

lemma upload_abc:
  "\<exists>i g'. UploadImage service0 os0 (Inr (Metadata (''k'', False))) ([ChunkMsg ''abc''], EOF_err) False fs0 = (Inr i, g')"
proof -
  have p: "Path dut1 ''k'' = Inr ''/srv/dut1--k''" by code_simp
  have f: "fs_get fs0 ''/srv/dut1--k'' = None" by (simp add: fs0_def fs_get_def)
  have o: "create_temp os0 = Inr ''7''" "close_err os0 = None" "write_err os0 b = None" "rename_err os0 q q' = None"
    "dStore service0 = Some dut1" for b q q'
    by (simp_all add: os0_def service0_def)
  have "\<exists>i g'. Save os0 dut1 ''k'' ([''abc''], None) False fs0 = (Inr i, g')"
    by (simp add: Save_def p f o Let_def os_rename_def)
  then show ?thesis by (auto simp: UploadImage_def o chunks_of_def GetChunk_def)
qed

theorem files_arrive_witness:
  "\<exists>m ms i g'. UploadImageFile None [] (Inr no_image) ''/tmp/k'' kernel0 False = (Inr no_image, m # ms) \<and>
     (UploadImage service0 os0 (Inr (wire m)) (map wire ms, EOF_err) False fs0 = (Inr i, g') \<longrightarrow>
        im_size i = 3 \<and> fs_get g' ''/srv/dut1--k'' = Some (File ''abc'' 1000)) \<and>
     UploadImage service0 os0 (Inr (wire m)) (map wire ms, EOF_err) False fs0 = (Inr i, g')"
proof -
  have b: "path_base ''/tmp/k'' = ''k''" by code_simp
  have p: "prefix_s dut1 = ''dut1--''" by (simp add: dut1_def Namespaced_def)
  have c: "lOpen kernel0 = None" "lStat kernel0 = None" "\<not> lIsDir kernel0" "lEnd kernel0 = EOF_err" "dStore service0 = Some dut1"
    "store_ok dut1" "create_temp os0 = Inr ''7''" "plain (''.upload-'' @ ''7'')" "fs_get fs0 (on_disk dut1 (''.upload-'' @ ''7'')) = None"
    "remove_err os0 (on_disk dut1 (''.upload-'' @ ''7'')) = None" "prefix_s dut1 @ path_base ''/tmp/k'' \<noteq> ''.upload-'' @ ''7''"
    using stores_ok(2)
    by (simp_all add: kernel0_def service0_def os0_def plain_def on_disk_dut1 fs_get_def fs0_def p b)
  have d: "on_disk dut1 (prefix_s dut1 @ path_base ''/tmp/k'') = ''/srv/dut1--k''" "lData kernel0 = ''abc''" "now os0 = 1000"
    by (simp_all add: on_disk_dut1 p b kernel0_def os0_def)
  from files_arrive [OF c, of "Inr no_image" False False, THEN conjunct1] d
  obtain m ms where u: "UploadImageFile None [] (Inr no_image) ''/tmp/k'' kernel0 False = (Inr no_image, m # ms)"
    and s: "\<And>i g'. UploadImage service0 os0 (Inr (wire m)) (map wire ms, EOF_err) False fs0 = (Inr i, g') \<Longrightarrow>
      im_size i = 3 \<and> fs_get g' ''/srv/dut1--k'' = Some (File ''abc'' 1000)" by auto
  have m: "m = Metadata \<lparr>mdName = ''k'', mdSize = 3, mdOverwrite = False\<rparr>" "ms = [ChunkMsg ''abc'']"
    using u by (simp_all add: UploadImageFile_def kernel0_def b file_reads.simps)
  have "\<exists>i g'. UploadImage service0 os0 (Inr (wire m)) (map wire ms, EOF_err) False fs0 = (Inr i, g')"
    using upload_abc by (simp add: m wire_def)
  with u s show ?thesis by blast
qed

end
