(* ===== verification/Smoke.thy ===== *)
theory Smoke
  imports Rpc_Client
begin

text \<open>
  \<open>internal/smoke\<close>: the release smoke test. Waiting is a list of polls: what had been captured, the
  time since the wait began and the context's error at the select after it. The RPCs, the pattern
  compiler and the clock are parameters; progress lines are left out.
\<close>

definition DefaultSuccessPattern :: string where
  "DefaultSuccessPattern = ''Please press Enter to activate this console|BusyBox v[0-9]|procd: - init -''"

definition DefaultFailurePattern :: string where
  "DefaultFailurePattern =
     ''Kernel panic|Unable to handle kernel|not syncing|Rebooting in '' @ [CHR 0x5C] @ ''d+ seconds|Synchronous Exception|CPU '' @
     [CHR 0x5C] @ ''d+ Unable to handle''"

record smoke_config =
  ImagePath :: string
  ImageName :: string
  smKernelArgs :: string
  SuccessPattern :: string
  FailurePattern :: string
  BootTimeout :: duration
  NetbootTimeout :: duration
  smVerifyCRC32 :: bool
  SSHCommand :: string
  SSHExpect :: string
  SSHTimeout :: duration

record smoke_result =
  Success :: bool
  Reason :: string
  BootLog :: bytes
  SSHOutput :: string
  Uploaded :: image_info

definition orDefault :: "string \<Rightarrow> string \<Rightarrow> string" where
  "orDefault v def = (if v = [] then def else v)"

type_synonym finder = "bytes \<Rightarrow> (nat \<times> nat) option"
type_synonym poll = "bytes \<times> duration \<times> goerr option"

definition cut_match :: "bytes \<Rightarrow> nat \<times> nat \<Rightarrow> string" where
  "cut_match b ij = take (snd ij - fst ij) (drop (fst ij) b)"

text \<open>\<open>waitForMarker\<close>; \<open>None\<close> when the polls are used up.\<close>

fun waitForMarker :: "(duration \<Rightarrow> string) \<Rightarrow> finder \<Rightarrow> finder \<Rightarrow> duration \<Rightarrow> poll list \<Rightarrow> (bool \<times> string) option" where
  "waitForMarker show_d succ fail timeout [] = None"
| "waitForMarker show_d succ fail timeout ((seen, t, ctx) # ps) =
     (case fail seen of
        Some ij \<Rightarrow> Some (False, ''detected boot failure: '' @ cut_match seen ij)
      | None \<Rightarrow>
     (case succ seen of
        Some ij \<Rightarrow> Some (True, ''reached healthy userspace: '' @ cut_match seen ij)
      | None \<Rightarrow>
          if timeout < t then Some (False, ''timed out after '' @ show_d timeout @ '' waiting for success marker'')
          else (case ctx of
                  Some e \<Rightarrow> Some (False, ''cancelled: '' @ err_text e)
                | None \<Rightarrow> waitForMarker show_d succ fail timeout ps)))"

text \<open>\<open>trySSH\<close>: the answer of each attempt, the time since the start and the context's error at the select after it.\<close>

datatype ssh_failure = Rpc_failed rpc_err | Cmd_failed string | Ctx_over goerr

definition failure_text :: "ssh_failure \<Rightarrow> string" where
  "failure_text f = (case f of Rpc_failed e \<Rightarrow> rpc_text e | Cmd_failed s \<Rightarrow> s | Ctx_over e \<Rightarrow> err_text e)"

fun trySSH :: "duration \<Rightarrow> ((rpc_err + ssh_result) \<times> duration \<times> goerr option) list \<Rightarrow> (ssh_failure + ssh_result) option" where
  "trySSH timeout [] = None"
| "trySSH timeout ((r, t, ctx) # as1) =
     (case (case r of
              Inl e \<Rightarrow> Some (Rpc_failed e)
            | Inr x \<Rightarrow>
                if TimedOut x then Some (Cmd_failed ''ssh command timed out'')
                else if ExitCode x \<noteq> 0 then Some (Cmd_failed (''ssh command exited '' @ itoa (ExitCode x) @ '': '' @ Stderr x))
                else None) of
        None \<Rightarrow> (case r of Inr x \<Rightarrow> Some (Inr x) | Inl e \<Rightarrow> Some (Inl (Rpc_failed e)))
      | Some lastErr \<Rightarrow>
          if timeout < t then Some (Inl lastErr)
          else (case ctx of Some e \<Rightarrow> Some (Inl (Ctx_over e)) | None \<Rightarrow> trySSH timeout as1))"

text \<open>\<open>checkSSH\<close>: what is added to the captured log, and output, verdict and reason.\<close>

definition checkSSH :: "(string \<Rightarrow> goerr + finder) \<Rightarrow> smoke_config \<Rightarrow> ((rpc_err + ssh_result) \<times> duration \<times> goerr option) list \<Rightarrow> string
    \<Rightarrow> (bytes \<times> string \<times> bool \<times> string) option" where
  "checkSSH compile c attempts reason =
     (let timeout = (if SSHTimeout c = 0 then 90 * second else SSHTimeout c)
      in case trySSH timeout attempts of
           None \<Rightarrow> None
         | Some (Inl f) \<Rightarrow> Some ([], [], False, ''ssh check failed: '' @ failure_text f)
         | Some (Inr x) \<Rightarrow>
             let out = Stdout x; added = [LF] @ ''===== ssh: '' @ SSHCommand c @ '' ====='' @ [LF] @ out @ [LF]
             in if SSHExpect c = [] then Some (added, out, True, reason @ ''; ssh ok'')
                else (case compile (SSHExpect c) of
                        Inl e \<Rightarrow> Some (added, out, False, ''bad ssh-expect pattern: '' @ err_text e)
                      | Inr re1 \<Rightarrow>
                          if re1 out = None then Some (added, out, False, ''ssh output did not match '' @ quote (SSHExpect c))
                          else Some (added, out, True, reason @ ''; ssh ok (matched '' @ quote (SSHExpect c) @ '')'')))"

text \<open>The capture buffer, with what a live copy of it has received; \<open>streamConsole\<close> ends with the error of
  opening the stream or of the last \<open>Recv\<close>.\<close>

record capture_buf =
  capData :: bytes
  capLive :: "bytes option"

definition capture_write :: "bytes \<Rightarrow> capture_buf \<Rightarrow> capture_buf" where
  "capture_write p c = c\<lparr>capData := capData c @ p, capLive := map_option (\<lambda>l. l @ p) (capLive c)\<rparr>"

definition capture_bytes :: "capture_buf \<Rightarrow> bytes" where
  "capture_bytes c = capData c"

fun recv_capture :: "bytes list \<Rightarrow> goerr \<Rightarrow> capture_buf \<Rightarrow> goerr \<times> capture_buf" where
  "recv_capture [] e c = (e, c)"
| "recv_capture (p # ps) e c = recv_capture ps e (capture_write p c)"

definition streamConsole :: "goerr option \<Rightarrow> bytes list \<Rightarrow> goerr \<Rightarrow> capture_buf \<Rightarrow> goerr \<times> capture_buf" where
  "streamConsole opened ps e c = (case opened of Some x \<Rightarrow> (x, c) | None \<Rightarrow> recv_capture ps e c)"

lemma streamConsole_log: "capture_bytes (snd (streamConsole None ps e c)) = capture_bytes c @ concat ps"
  unfolding streamConsole_def capture_bytes_def option.case
  by (induction ps arbitrary: c) (simp_all add: capture_write_def)

text \<open>The run against a daemon: the answers of the RPCs, the polls, and the log captured until \<open>finish\<close>.\<close>

record smoke_run =
  upAnswer :: "goerr + image_info"
  netbootAnswer :: "netboot_request \<Rightarrow> goerr option"
  polls :: "poll list"
  attempts :: "((rpc_err + ssh_result) \<times> duration \<times> goerr option) list"
  captured :: bytes

definition smoke_netboot :: "smoke_config \<Rightarrow> image_info \<Rightarrow> netboot_request" where
  "smoke_netboot c up =
     \<lparr>qImage = (if ImageName c = [] then im_name up else ImageName c), qPowerCycle = True, qKernelArgs = smKernelArgs c,
      qVerify = smVerifyCRC32 c, qTimeoutMs = Milliseconds (if NetbootTimeout c = 0 then 5 * minute else NetbootTimeout c)\<rparr>"

definition finish :: "bytes \<Rightarrow> bool \<Rightarrow> string \<Rightarrow> image_info \<Rightarrow> smoke_result" where
  "finish lg ok reason up = \<lparr>Success = ok, Reason = reason, BootLog = lg, SSHOutput = [], Uploaded = up\<rparr>"

definition smoke_Run :: "(duration \<Rightarrow> string) \<Rightarrow> (string \<Rightarrow> goerr + finder) \<Rightarrow> smoke_config \<Rightarrow> smoke_run \<Rightarrow> (goerr + smoke_result) option" where
  "smoke_Run show_d compile c r =
     (if ImagePath c = [] then Some (Inl (Err ''smoke: image path required''))
      else case compile (orDefault (SuccessPattern c) DefaultSuccessPattern) of
             Inl e \<Rightarrow> Some (Inl (Wrap ''smoke: bad success pattern'' e))
           | Inr succ \<Rightarrow>
      (case compile (orDefault (FailurePattern c) DefaultFailurePattern) of
             Inl e \<Rightarrow> Some (Inl (Wrap ''smoke: bad failure pattern'' e))
           | Inr fail \<Rightarrow>
      (case upAnswer r of
             Inl e \<Rightarrow> Some (Inl (Wrap ''smoke: upload'' e))
           | Inr up \<Rightarrow>
      (case netbootAnswer r (smoke_netboot c up) of
             Some e \<Rightarrow> Some (Inr (finish (captured r) False (''netboot failed: '' @ err_text e) up))
           | None \<Rightarrow>
      (case waitForMarker show_d succ fail (if BootTimeout c = 0 then 4 * minute else BootTimeout c) (polls r) of
             None \<Rightarrow> None
           | Some (ok, reason) \<Rightarrow>
               if ok \<and> SSHCommand c \<noteq> []
               then (case checkSSH compile c (attempts r) reason of
                       None \<Rightarrow> None
                     | Some (added, out, ok1, why) \<Rightarrow> Some (Inr ((finish (captured r @ added) ok1 why up)\<lparr>SSHOutput := out\<rparr>)))
               else Some (Inr (finish (captured r) ok reason up)))))))"

subsection \<open>What a pass means\<close>

lemma waitForMarker_pass:
  "waitForMarker show_d succ fail timeout ps = Some (True, why) \<Longrightarrow>
     \<exists>p ij. p \<in> set ps \<and> fail (fst p) = None \<and> succ (fst p) = Some ij \<and>
       why = ''reached healthy userspace: '' @ cut_match (fst p) ij"
proof (induction ps)
  case (Cons p ps)
  obtain seen t ctx where p: "p = (seen, t, ctx)" by (cases p)
  from Cons.prems have f: "fail seen = None" by (cases "fail seen") (auto simp: p)
  show ?case
  proof (cases "succ seen")
    case None
    with Cons.prems f have "waitForMarker show_d succ fail timeout ps = Some (True, why)"
      by (auto simp: p split: if_splits option.splits)
    with Cons.IH show ?thesis by auto
  next
    case (Some ij)
    with Cons.prems f show ?thesis by (intro exI [of _ p] exI [of _ ij]) (auto simp: p)
  qed
qed simp

lemma waitForMarker_ends:
  "\<exists>p \<in> set ps. timeout < fst (snd p) \<Longrightarrow> waitForMarker show_d succ fail timeout ps \<noteq> None"
proof (induction ps)
  case (Cons p ps)
  then show ?case by (cases p) (auto split: option.splits)
qed simp

lemma trySSH_pass:
  "trySSH timeout ps = Some (Inr x) \<Longrightarrow> \<not> TimedOut x \<and> ExitCode x = 0 \<and> (\<exists>t ctx. (Inr x, t, ctx) \<in> set ps)"
proof (induction ps)
  case (Cons p ps)
  obtain r t ctx where p: "p = (r, t, ctx)" by (cases p)
  show ?case
  proof (cases "\<exists>y. r = Inr y \<and> \<not> TimedOut y \<and> ExitCode y = 0")
    case True
    with Cons.prems have "r = Inr x" "\<not> TimedOut x" "ExitCode x = 0" by (auto simp: p)
    then show ?thesis by (intro conjI exI [of _ t] exI [of _ ctx]) (simp_all add: p)
  next
    case False
    with Cons.prems have "trySSH timeout ps = Some (Inr x)"
      by (auto simp: p split: sum.splits if_splits option.splits)
    with Cons.IH show ?thesis by auto
  qed
qed simp

lemma trySSH_ends: "\<exists>p \<in> set ps. timeout < fst (snd p) \<Longrightarrow> trySSH timeout ps \<noteq> None"
proof (induction ps)
  case (Cons p ps)
  then show ?case by (cases p) (auto split: option.splits sum.splits)
qed simp

lemma checkSSH_pass:
  assumes "checkSSH compile c as1 reason = Some (added, out, True, why)"
  shows "\<exists>x t ctx. (Inr x, t, ctx) \<in> set as1 \<and> \<not> TimedOut x \<and> ExitCode x = 0 \<and> out = Stdout x \<and>
    (SSHExpect c \<noteq> [] \<longrightarrow> (\<exists>m. compile (SSHExpect c) = Inr m \<and> m out \<noteq> None))"
proof -
  obtain x where x: "trySSH (if SSHTimeout c = 0 then 90 * second else SSHTimeout c) as1 = Some (Inr x)"
    and o1: "out = Stdout x" "SSHExpect c \<noteq> [] \<longrightarrow> (\<exists>m. compile (SSHExpect c) = Inr m \<and> m out \<noteq> None)"
    using assms by (auto simp: checkSSH_def Let_def split: option.splits sum.splits if_splits)
  from trySSH_pass [OF x] o1 show ?thesis by blast
qed

lemma checkSSH_None: "checkSSH compile c as1 reason = None \<longleftrightarrow>
    trySSH (if SSHTimeout c = 0 then 90 * second else SSHTimeout c) as1 = None"
  by (auto simp: checkSSH_def Let_def split: option.splits sum.splits)

abbreviation boot_limit :: "smoke_config \<Rightarrow> duration" where
  "boot_limit c \<equiv> (if BootTimeout c = 0 then 4 * minute else BootTimeout c)"

abbreviation ssh_limit :: "smoke_config \<Rightarrow> duration" where
  "ssh_limit c \<equiv> (if SSHTimeout c = 0 then 90 * second else SSHTimeout c)"

text \<open>A passed run, taken apart.\<close>

lemma smoke_Run_pass:
  assumes "smoke_Run show_d compile c r = Some (Inr res)" "Success res"
  obtains up succ fail why where "upAnswer r = Inr up" "Uploaded res = up" "netbootAnswer r (smoke_netboot c up) = None"
    "compile (orDefault (SuccessPattern c) DefaultSuccessPattern) = Inr succ"
    "compile (orDefault (FailurePattern c) DefaultFailurePattern) = Inr fail"
    "waitForMarker show_d succ fail (boot_limit c) (polls r) = Some (True, why)" "prefix (captured r) (BootLog res)"
    "SSHCommand c \<noteq> [] \<longrightarrow> (\<exists>added why1. checkSSH compile c (attempts r) why = Some (added, SSHOutput res, True, why1))"
proof -
  from assms obtain succ fail up where c: "compile (orDefault (SuccessPattern c) DefaultSuccessPattern) = Inr succ"
    "compile (orDefault (FailurePattern c) DefaultFailurePattern) = Inr fail" "upAnswer r = Inr up"
    by (auto simp: smoke_Run_def split: if_splits sum.splits)
  with assms have nb: "netbootAnswer r (smoke_netboot c up) = None"
    by (auto simp: smoke_Run_def finish_def split: if_splits option.splits)
  with assms c obtain ok why where w: "waitForMarker show_d succ fail (boot_limit c) (polls r) = Some (ok, why)"
    by (auto simp: smoke_Run_def split: if_splits option.splits)
  have res: "(if ok \<and> SSHCommand c \<noteq> []
      then (case checkSSH compile c (attempts r) why of
              None \<Rightarrow> None
            | Some (added, out, ok1, why) \<Rightarrow> Some (Inr ((finish (captured r @ added) ok1 why up)\<lparr>SSHOutput := out\<rparr>)))
      else Some (Inr (finish (captured r) ok why up))) = (Some (Inr res) :: (goerr + smoke_result) option)"
    using assms(1) c nb w by (auto simp: smoke_Run_def split: if_splits)
  show ?thesis
  proof (cases "SSHCommand c = []")
    case True
    with res assms(2) have "ok" "res = finish (captured r) ok why up" by (auto simp: finish_def)
    with c nb w True show ?thesis by (intro that [of up succ fail why]) (auto simp: finish_def)
  next
    case False
    with res assms(2) have ok: "ok" by (auto simp: finish_def split: if_splits)
    with res False assms(2) obtain added out why1 where "checkSSH compile c (attempts r) why = Some (added, out, True, why1)"
      "res = (finish (captured r @ added) True why1 up)\<lparr>SSHOutput := out\<rparr>"
      by (auto simp: finish_def split: option.splits)
    with c nb w ok show ?thesis by (intro that [of up succ fail why]) (auto simp: finish_def)
  qed
qed

lemma smoke_Run_None:
  assumes "smoke_Run show_d compile c r = None"
    and W: "\<And>succ fail. waitForMarker show_d succ fail (boot_limit c) (polls r) \<noteq> None"
  shows "SSHCommand c \<noteq> [] \<and> (\<exists>why. checkSSH compile c (attempts r) why = None)"
proof -
  from assms(1) obtain succ fail up where c: "ImagePath c \<noteq> []" "compile (orDefault (SuccessPattern c) DefaultSuccessPattern) = Inr succ"
    "compile (orDefault (FailurePattern c) DefaultFailurePattern) = Inr fail" "upAnswer r = Inr up"
    by (auto simp: smoke_Run_def split: if_splits sum.splits)
  with assms(1) have nb: "netbootAnswer r (smoke_netboot c up) = None"
    by (auto simp: smoke_Run_def split: option.splits)
  from W [of succ fail] obtain ok why where w: "waitForMarker show_d succ fail (boot_limit c) (polls r) = Some (ok, why)" by fastforce
  have "(if ok \<and> SSHCommand c \<noteq> []
      then (case checkSSH compile c (attempts r) why of
              None \<Rightarrow> None
            | Some (added, out, ok1, why) \<Rightarrow> Some (Inr ((finish (captured r @ added) ok1 why up)\<lparr>SSHOutput := out\<rparr>)))
      else Some (Inr (finish (captured r) ok why up))) = (None :: (goerr + smoke_result) option)"
    using assms(1) c nb w by (auto simp: smoke_Run_def split: if_splits)
  then show ?thesis by (auto split: if_splits option.splits)
qed


text \<open>A run that passes at its second poll and its second attempt.\<close>

definition smoke0 :: smoke_config where
  "smoke0 = \<lparr>ImagePath = ''/tmp/k'', ImageName = [], smKernelArgs = [], SuccessPattern = ''ready'', FailurePattern = ''panic'', BootTimeout = 0,
     NetbootTimeout = 0, smVerifyCRC32 = True, SSHCommand = ''uname'', SSHExpect = [], SSHTimeout = 0\<rparr>"

definition run_smoke0 :: smoke_run where
  "run_smoke0 = \<lparr>upAnswer = Inr no_image, netbootAnswer = (\<lambda>_. None), polls = [(''boot'', 0, None), (''boot ready'', second, None)],
     attempts = [(Inl (Status Code_Unavailable ''ssh''), second, None),
                 (Inr \<lparr>ExitCode = 0, Stdout = ''Linux'', Stderr = [], TimedOut = False\<rparr>, 5 * second, None)],
     captured = ''boot ready''\<rparr>"

definition find_lit :: "string \<Rightarrow> goerr + finder" where
  "find_lit p = Inr (\<lambda>b. map_option (\<lambda>i. (i, i + length p)) (index_str b p))"


end
