(* ===== verification/Client_Api.thy ===== *)
theory Client_Api
  imports Smoke
begin

text \<open>
  What the two client programs, \<open>cmd/unwedge\<close> and \<open>cmd/unwedge-mcp\<close>, share: the daemon as they call
  it, the connection from the command line flags, and the texts both print. \<open>'w\<close> is the state of everything outside the
  client process. Each call is given the client's session, which the interceptors put into the call's metadata; its error
  is the one with the gRPC status.
\<close>

subsection \<open>The daemon, as the clients call it\<close>

record 'w rpcs = "'w api" +
  rStatus :: "client \<Rightarrow> 'w \<Rightarrow> (rpc_err + status_response) \<times> 'w"
  rLog :: "client \<Rightarrow> int \<Rightarrow> 'w \<Rightarrow> (rpc_err + bytes \<times> bool) \<times> 'w"
  rStream :: "client \<Rightarrow> int \<Rightarrow> 'w \<Rightarrow> (rpc_err + (bytes list \<times> rpc_err option) \<times> bool) \<times> 'w"
  rWrite :: "client \<Rightarrow> bytes \<Rightarrow> string list \<Rightarrow> 'w \<Rightarrow> (rpc_err + int) \<times> 'w"
  rWait :: "client \<Rightarrow> string \<Rightarrow> int \<Rightarrow> int \<Rightarrow> 'w \<Rightarrow> (rpc_err + wait_response) \<times> 'w"
  rPower :: "client \<Rightarrow> power_action \<Rightarrow> 'w \<Rightarrow> (rpc_err + int \<times> string) \<times> 'w"
  rUboot :: "client \<Rightarrow> duration option \<Rightarrow> string \<Rightarrow> int \<Rightarrow> 'w \<Rightarrow> (rpc_err + string \<times> bool) \<times> 'w"
  rInterrupt :: "client \<Rightarrow> duration \<Rightarrow> bool \<Rightarrow> int \<Rightarrow> 'w \<Rightarrow> (boot_event list \<times> rpc_err option) \<times> 'w"
  rNetboot :: "client \<Rightarrow> duration \<Rightarrow> netboot_request \<Rightarrow> 'w \<Rightarrow> (boot_event list \<times> rpc_err option) \<times> 'w"
  rImages :: "client \<Rightarrow> 'w \<Rightarrow> (rpc_err + (string \<times> int \<times> int \<times> 32 word) list) \<times> 'w"
  rUpload :: "client \<Rightarrow> string \<Rightarrow> bool \<Rightarrow> 'w \<Rightarrow> (rpc_err + image_info) \<times> 'w"
  rDelete :: "client \<Rightarrow> string \<Rightarrow> 'w \<Rightarrow> (rpc_err + unit) \<times> 'w"
  rSSH :: "client \<Rightarrow> string \<Rightarrow> int \<Rightarrow> 'w \<Rightarrow> (rpc_err + ssh_result) \<times> 'w"
  rTunnel :: "client \<Rightarrow> 'w \<Rightarrow> rpc_err option \<times> 'w"
  rScpUp :: "client \<Rightarrow> string \<Rightarrow> string \<Rightarrow> duration \<Rightarrow> 'w \<Rightarrow> (rpc_err + int) \<times> 'w"
  rScpDown :: "client \<Rightarrow> string \<Rightarrow> string \<Rightarrow> duration \<Rightarrow> 'w \<Rightarrow> (rpc_err + int) \<times> 'w"
  rSmoke :: "client \<Rightarrow> smoke_config \<Rightarrow> 'w \<Rightarrow> (rpc_err + smoke_result \<times> duration) \<times> 'w"
  rWriteFile :: "string \<Rightarrow> bytes \<Rightarrow> 'w \<Rightarrow> goerr option \<times> 'w"
  rNow :: "'w \<Rightarrow> time"

text \<open>A call with the client's session, and what is made of its answer.\<close>

definition with_client :: "(client \<Rightarrow> 'w \<Rightarrow> 'r \<times> 'w) \<Rightarrow> ('r \<Rightarrow> 'a) \<Rightarrow> client \<times> 'w \<Rightarrow> 'a \<times> client \<times> 'w" where
  "with_client f k cw = (case f (fst cw) (snd cw) of (r, w) \<Rightarrow> (k r, fst cw, w))"

subsection \<open>Texts\<close>

text \<open>\<open>Duration.Round(time.Second)\<close>: to the nearest second, halves away from zero.\<close>

definition Round_second :: "duration \<Rightarrow> duration" where
  "Round_second d =
     (if d < 0 then let r = (- d) mod second in if r + r < second then d + r else d - second + r
      else let r = d mod second in if r + r < second then d - r else d + second - r)"

lemma Round_second_near: "Round_second d mod second = 0 \<and> 2 * \<bar>Round_second d - d\<bar> \<le> second"
proof -
  have s: "(0 :: int) < second" by (simp add: second_def)
  have p: "(d - d mod second) mod second = 0" "(d + second - d mod second) mod second = 0"
    by (simp_all add: mod_diff_right_eq [of d] mod_diff_right_eq [of "d + second"])
  have n: "(d + (- d) mod second) mod second = 0" "(d - second + (- d) mod second) mod second = 0"
    by (simp_all add: mod_add_right_eq [of d] mod_add_right_eq [of "d - second"])
  have b: "0 \<le> d mod second" "d mod second < second" "0 \<le> (- d) mod second" "(- d) mod second < second"
    using s by simp_all
  have "2 * \<bar>(if r + r < m then d - r else d + m - r) - d\<bar> \<le> m" "2 * \<bar>(if r + r < m then d + r else d - m + r) - d\<bar> \<le> m"
    if "0 \<le> r" "r < m" for r m :: int
    using that by auto
  from this(1) [OF b(1,2)] this(2) [OF b(3,4)] p n show ?thesis by (auto simp: Round_second_def Let_def)
qed

definition power_text :: "int \<Rightarrow> string" where
  "power_text st =
     trim_prefix (if st = 0 then ''POWER_STATE_UNKNOWN'' else if st = 1 then ''POWER_STATE_ON''
                  else if st = 2 then ''POWER_STATE_OFF'' else itoa st) ''POWER_STATE_''"

definition fmt_bool :: "bool \<Rightarrow> string" where
  "fmt_bool b = (if b then ''true'' else ''false'')"

definition fmt_crc :: "32 word \<Rightarrow> string" where
  "fmt_crc x = zero_pad 8 (to_base 16 (unat x))"

definition power_actions :: "string \<Rightarrow> power_action option" where
  "power_actions s =
     (if s = ''on'' then Some ACTION_ON else if s = ''off'' then Some ACTION_OFF
      else if s = ''cycle'' then Some ACTION_CYCLE else if s = ''status'' then Some ACTION_STATUS else None)"

subsection \<open>The flag package\<close>

text \<open>\<open>FlagSet.Parse\<close> on the flags a program declares: the values set, in order, and the arguments left. A duration is
  parsed by \<open>parse_d\<close> (\<open>time.ParseDuration\<close>).\<close>

datatype flag_kind = FString | FBool | FDuration

definition flag_ok :: "(string \<Rightarrow> duration option) \<Rightarrow> flag_kind \<Rightarrow> string \<Rightarrow> bool" where
  "flag_ok parse_d k v =
     (case k of FString \<Rightarrow> True | FBool \<Rightarrow> parse_bool v \<noteq> None | FDuration \<Rightarrow> parse_d v \<noteq> None)"

function parse_flags :: "(string \<Rightarrow> duration option) \<Rightarrow> (string \<times> flag_kind) list \<Rightarrow> string list \<Rightarrow> (string \<times> string) list
    \<Rightarrow> goerr + (string \<times> string) list \<times> string list" where
  "parse_flags parse_d fl [] got = Inr (got, [])"
| "parse_flags parse_d fl (s # rest) got =
     (if length s < 2 \<or> hd s \<noteq> CHR ''-'' then Inr (got, s # rest)
      else if s = ''--'' then Inr (got, rest)
      else let name0 = drop (if s ! 1 = CHR ''-'' then 2 else 1) s
           in if hd name0 = CHR ''-'' \<or> hd name0 = CHR ''='' then Inl (Err (''bad flag syntax: '' @ s))
              else (case cut_char name0 (CHR ''='') of
                      (name, v, hasValue) \<Rightarrow>
                        (case map_of fl name of
                           None \<Rightarrow> Inl (Err (if name = ''help'' \<or> name = ''h'' then ''flag: help requested'' else ''flag provided but not defined: -'' @ name))
                         | Some FBool \<Rightarrow>
                             if flag_ok parse_d FBool (if hasValue then v else ''true'')
                             then parse_flags parse_d fl rest (got @ [(name, if hasValue then v else ''true'')])
                             else Inl (Err (''invalid boolean value '' @ quote v @ '' for -'' @ name))
                         | Some k \<Rightarrow>
                             if hasValue
                             then (if flag_ok parse_d k v then parse_flags parse_d fl rest (got @ [(name, v)])
                                   else Inl (Err (''invalid value '' @ quote v @ '' for flag -'' @ name)))
                             else (case rest of
                                     [] \<Rightarrow> Inl (Err (''flag needs an argument: -'' @ name))
                                   | x # rest' \<Rightarrow>
                                       if flag_ok parse_d k x then parse_flags parse_d fl rest' (got @ [(name, x)])
                                       else Inl (Err (''invalid value '' @ quote x @ '' for flag -'' @ name))))))"
  by pat_completeness auto
termination by (relation "measure (\<lambda>(_, _, args, _). length args)") auto

text \<open>The value of a flag: the last one set, or its default.\<close>

definition flag_value :: "(string \<times> string) list \<Rightarrow> string \<Rightarrow> string option" where
  "flag_value got name = map_of (rev got) name"

definition flag_str :: "(string \<times> string) list \<Rightarrow> string \<Rightarrow> string \<Rightarrow> string" where
  "flag_str got name def = (case flag_value got name of Some v \<Rightarrow> v | None \<Rightarrow> def)"

definition flag_bool :: "(string \<times> string) list \<Rightarrow> string \<Rightarrow> bool \<Rightarrow> bool" where
  "flag_bool got name def =
     (case flag_value got name of Some v \<Rightarrow> (case parse_bool v of Some b \<Rightarrow> b | None \<Rightarrow> def) | None \<Rightarrow> def)"

definition flag_dur :: "(string \<Rightarrow> duration option) \<Rightarrow> (string \<times> string) list \<Rightarrow> string \<Rightarrow> duration \<Rightarrow> duration" where
  "flag_dur parse_d got name def =
     (case flag_value got name of Some v \<Rightarrow> (case parse_d v of Some d \<Rightarrow> d | None \<Rightarrow> def) | None \<Rightarrow> def)"

subsection \<open>The connection\<close>

definition conn_flags :: "(string \<times> flag_kind) list" where
  "conn_flags =
     [(''config'', FString), (''addr'', FString), (''ca'', FString), (''cert'', FString), (''key'', FString),
      (''server-name'', FString), (''insecure'', FBool), (''no-tls'', FBool), (''no-srv'', FBool),
      (''session-owner'', FString), (''session-wait'', FDuration)]"

text \<open>What is dialled: the flags over the resolved defaults, the address through \<open>ResolveEndpoint\<close>, and the
  name TLS is verified against.\<close>

definition endpoint_of :: "resolved \<Rightarrow> (string \<Rightarrow> string \<Rightarrow> string \<Rightarrow> goerr + srv list) \<Rightarrow> (string \<times> string) list \<Rightarrow> goerr + dial_options" where
  "endpoint_of d lookup got =
     (case ResolveEndpoint (flag_str got ''addr'' (rAddr d)) (\<not> flag_bool got ''no-srv'' (rNoSRV d)) lookup of
        Inl e \<Rightarrow> Inl e
      | Inr (addr, name) \<Rightarrow>
          let sn = flag_str got ''server-name'' (rServerName d)
          in Inr \<lparr>oAddress = addr, oNoTLS = flag_bool got ''no-tls'' (rNoTLS d), oCAFile = flag_str got ''ca'' (rCA d),
                  oCertFile = flag_str got ''cert'' (rCert d), oKeyFile = flag_str got ''key'' (rKey d),
                  oServerName = (if sn = [] then name else sn), oInsecure = flag_bool got ''insecure'' (rInsecure d),
                  oDialer = False\<rparr>)"

end
