(* ===== verification/Mcp_Bridge.thy ===== *)
theory Mcp_Bridge
  imports Client_Api Mcp_Server
begin

text \<open>
  \<open>cmd/unwedge-mcp\<close>: the MCP tools over the client of the daemon. A tool's state is the client's session with the
  state of the rest of the world. The descriptions and schemas of the tools are data, a parameter.
\<close>

subsection \<open>Arguments\<close>

text \<open>The fields of the argument structs; the same name has the same type in every tool.\<close>

record tool_args =
  aText :: string
  aKeys :: "string list"
  aPattern :: string
  aTimeoutMs :: int
  aScrollback :: int
  aMaxBytes :: int
  aAction :: string
  aCommand :: string
  aPowerCycle :: "bool option"
  aImage :: string
  aKernelArgs :: string
  aVerify :: bool
  aPath :: string
  aOverwrite :: bool
  aName :: string
  aLocalPath :: string
  aRemotePath :: string
  aImagePath :: string
  aOutPath :: string
  aBootTimeoutMs :: int

definition zero_args :: tool_args where
  "zero_args =
     \<lparr>aText = [], aKeys = [], aPattern = [], aTimeoutMs = 0, aScrollback = 0, aMaxBytes = 0, aAction = [], aCommand = [],
      aPowerCycle = None, aImage = [], aKernelArgs = [], aVerify = False, aPath = [], aOverwrite = False, aName = [],
      aLocalPath = [], aRemotePath = [], aImagePath = [], aOutPath = [], aBootTimeoutMs = 0\<rparr>"

definition set_int64 :: "json \<Rightarrow> (int \<Rightarrow> 'r \<Rightarrow> 'r) \<Rightarrow> 'r \<Rightarrow> bool \<times> 'r" where
  "set_int64 v upd r =
     (case v of
        JNum s \<Rightarrow> (case parse_int64 s of Some n \<Rightarrow> (True, upd n r) | None \<Rightarrow> (False, r))
      | JNull \<Rightarrow> (True, r) | _ \<Rightarrow> (False, r))"

definition set_uint32 :: "json \<Rightarrow> (int \<Rightarrow> 'r \<Rightarrow> 'r) \<Rightarrow> 'r \<Rightarrow> bool \<times> 'r" where
  "set_uint32 v upd r =
     (case v of
        JNum s \<Rightarrow> (case parse_uint s 10 32 of Some n \<Rightarrow> (True, upd (int n) r) | None \<Rightarrow> (False, r))
      | JNull \<Rightarrow> (True, r) | _ \<Rightarrow> (False, r))"

definition set_bool :: "json \<Rightarrow> (bool \<Rightarrow> 'r \<Rightarrow> 'r) \<Rightarrow> 'r \<Rightarrow> bool \<times> 'r" where
  "set_bool v upd r = (case v of JBool b \<Rightarrow> (True, upd b r) | JNull \<Rightarrow> (True, r) | _ \<Rightarrow> (False, r))"

text \<open>A pointer field: \<open>null\<close> makes it nil; any other value has it point to a bool first, which keeps its value, \<open>false\<close>
  for a fresh one, when the type is wrong.\<close>

definition set_bool_ptr :: "json \<Rightarrow> bool option \<Rightarrow> (bool option \<Rightarrow> 'r \<Rightarrow> 'r) \<Rightarrow> 'r \<Rightarrow> bool \<times> 'r" where
  "set_bool_ptr v old upd r =
     (case v of
        JNull \<Rightarrow> (True, upd None r)
      | JBool b \<Rightarrow> (True, upd (Some b) r)
      | _ \<Rightarrow> (False, upd (Some (case old of Some b \<Rightarrow> b | None \<Rightarrow> False)) r))"

text \<open>A slice of strings; an element that is \<open>null\<close> or of another type keeps what the slice had at its place.\<close>

definition string_elems :: "json list \<Rightarrow> string list \<Rightarrow> bool \<times> string list" where
  "string_elems vs old =
     (\<forall>v \<in> set vs. (case v of JStr _ \<Rightarrow> True | JNull \<Rightarrow> True | _ \<Rightarrow> False),
      map_at (\<lambda>i v. case v of JStr s \<Rightarrow> s | _ \<Rightarrow> if i < length old then old ! i else []) vs)"

definition set_strings :: "json \<Rightarrow> string list \<Rightarrow> (string list \<Rightarrow> 'r \<Rightarrow> 'r) \<Rightarrow> 'r \<Rightarrow> bool \<times> 'r" where
  "set_strings v old upd r =
     (case v of
        JArr vs \<Rightarrow> (case string_elems vs old of (ok, ss) \<Rightarrow> (ok, upd ss r))
      | JNull \<Rightarrow> (True, upd [] r)
      | _ \<Rightarrow> (False, r))"

definition set_arg :: "string \<Rightarrow> json \<Rightarrow> tool_args \<Rightarrow> bool \<times> tool_args" where
  "set_arg n v r =
     (if n = ''text'' then set_string v (\<lambda>x. aText_update (\<lambda>_. x)) r
      else if n = ''keys'' then set_strings v (aKeys r) (\<lambda>x. aKeys_update (\<lambda>_. x)) r
      else if n = ''pattern'' then set_string v (\<lambda>x. aPattern_update (\<lambda>_. x)) r
      else if n = ''timeout_ms'' then set_int64 v (\<lambda>x. aTimeoutMs_update (\<lambda>_. x)) r
      else if n = ''include_scrollback_bytes'' then set_uint32 v (\<lambda>x. aScrollback_update (\<lambda>_. x)) r
      else if n = ''max_bytes'' then set_uint32 v (\<lambda>x. aMaxBytes_update (\<lambda>_. x)) r
      else if n = ''action'' then set_string v (\<lambda>x. aAction_update (\<lambda>_. x)) r
      else if n = ''command'' then set_string v (\<lambda>x. aCommand_update (\<lambda>_. x)) r
      else if n = ''power_cycle'' then set_bool_ptr v (aPowerCycle r) (\<lambda>x. aPowerCycle_update (\<lambda>_. x)) r
      else if n = ''image'' then set_string v (\<lambda>x. aImage_update (\<lambda>_. x)) r
      else if n = ''kernel_args'' then set_string v (\<lambda>x. aKernelArgs_update (\<lambda>_. x)) r
      else if n = ''verify_crc32'' then set_bool v (\<lambda>x. aVerify_update (\<lambda>_. x)) r
      else if n = ''path'' then set_string v (\<lambda>x. aPath_update (\<lambda>_. x)) r
      else if n = ''overwrite'' then set_bool v (\<lambda>x. aOverwrite_update (\<lambda>_. x)) r
      else if n = ''name'' then set_string v (\<lambda>x. aName_update (\<lambda>_. x)) r
      else if n = ''local_path'' then set_string v (\<lambda>x. aLocalPath_update (\<lambda>_. x)) r
      else if n = ''remote_path'' then set_string v (\<lambda>x. aRemotePath_update (\<lambda>_. x)) r
      else if n = ''image_path'' then set_string v (\<lambda>x. aImagePath_update (\<lambda>_. x)) r
      else if n = ''out_path'' then set_string v (\<lambda>x. aOutPath_update (\<lambda>_. x)) r
      else set_int64 v (\<lambda>x. aBootTimeoutMs_update (\<lambda>_. x)) r)"

definition decode_args :: "json_lib \<Rightarrow> string list \<Rightarrow> json option \<Rightarrow> goerr option \<times> tool_args" where
  "decode_args l names args = decode_raw l names set_arg args zero_args"

text \<open>Decoding whose error is returned, or ignored.\<close>

type_synonym 'w tool_state = "client \<times> 'w"

definition with_args :: "json_lib \<Rightarrow> string list \<Rightarrow> (tool_args \<Rightarrow> 's \<Rightarrow> (rpc_err option \<times> string) \<times> 's) \<Rightarrow> 's handler" where
  "with_args l names f args s =
     (case decode_args l names args of (Some e, _) \<Rightarrow> ((Some (Plain e), []), s) | (None, a) \<Rightarrow> f a s)"

definition with_any_args :: "json_lib \<Rightarrow> string list \<Rightarrow> (tool_args \<Rightarrow> 's \<Rightarrow> (rpc_err option \<times> string) \<times> 's) \<Rightarrow> 's handler" where
  "with_any_args l names f args s = f (snd (decode_args l names args)) s"

text \<open>What a handler returns for an answer: its text, or the error alone.\<close>

definition tool_answer :: "('r \<Rightarrow> string) \<Rightarrow> rpc_err + 'r \<Rightarrow> rpc_err option \<times> string" where
  "tool_answer k r = (case r of Inl e \<Rightarrow> (Some e, []) | Inr x \<Rightarrow> (None, k x))"

subsection \<open>Helpers\<close>

definition collect_event :: "string \<Rightarrow> boot_event \<Rightarrow> string" where
  "collect_event sb ev =
     (let s = sb @ (case bKind ev of
                      KIND_CONSOLE \<Rightarrow> bConsole ev
                    | KIND_STAGE \<Rightarrow> [LF] @ ''== '' @ bStage ev @ '': '' @ bMessage ev @ [LF]
                    | KIND_ERROR \<Rightarrow> [LF] @ ''!! '' @ bMessage ev @ [LF]
                    | KIND_INFO \<Rightarrow> [LF] @ ''-- '' @ bMessage ev @ [LF]
                    | _ \<Rightarrow> [])
      in if 200000 < length s then drop (length s - 100000) s else s)"

definition bootEventCollector :: "boot_event list \<Rightarrow> string" where
  "bootEventCollector evs = foldl collect_event [] evs"

definition scpTimeout :: "int \<Rightarrow> duration" where
  "scpTimeout ms = (if 0 < ms then i64 (ms * millisecond) else 5 * minute)"

definition outNote :: "string \<Rightarrow> string" where
  "outNote p = (if p = [] then [] else '', written to '' @ p)"

definition mcp_ownerLabel :: "goerr + string \<Rightarrow> string \<Rightarrow> string" where
  "mcp_ownerLabel hostname override =
     (if override \<noteq> [] then override
      else case hostname of
             Inr h \<Rightarrow> if h \<noteq> [] then ''unwedge-mcp@'' @ h else ''unwedge-mcp''
           | Inl _ \<Rightarrow> ''unwedge-mcp'')"

subsection \<open>The session around a tool\<close>

definition sessionLost :: "rpc_err \<Rightarrow> bool" where
  "sessionLost e =
     (case e of Status c m \<Rightarrow> c = Code_FailedPrecondition \<and> contains_str (to_lower m) ''session'' | Plain _ \<Rightarrow> False)"

definition ensureSession :: "('w, 'x) api_scheme \<Rightarrow> string \<Rightarrow> duration \<Rightarrow> client \<times> 'w \<Rightarrow> rpc_err option \<times> client \<times> 'w" where
  "ensureSession a own wait cw =
     (if HasSession (fst cw) then (None, cw)
      else case Acquire (api.truncate a) own wait cw of
             (Inl e, cw1) \<Rightarrow> (if status_code e = Some Code_Unimplemented then None else Some e, cw1)
           | (Inr _, cw1) \<Rightarrow> (None, cw1))"

definition callWithSession :: "('w, 'x) api_scheme \<Rightarrow> string \<Rightarrow> duration
    \<Rightarrow> (client \<times> 'w \<Rightarrow> (rpc_err option \<times> string) \<times> client \<times> 'w) \<Rightarrow> client \<times> 'w
    \<Rightarrow> (rpc_err option \<times> string) \<times> client \<times> 'w" where
  "callWithSession a own wait fn cw =
     (case ensureSession a own wait cw of
        (Some e, cw1) \<Rightarrow> ((Some e, []), cw1)
      | (None, cw1) \<Rightarrow>
          (case fn cw1 of
             ((Some e, text), cw2) \<Rightarrow>
               if sessionLost e
               then (case ensureSession a own wait (ClearSession (fst cw2), snd cw2) of
                       (Some e2, cw3) \<Rightarrow> ((Some e2, []), cw3)
                     | (None, cw3) \<Rightarrow> fn cw3)
               else ((Some e, text), cw2)
           | ((None, text), cw2) \<Rightarrow> ((None, text), cw2)))"

definition lockExempt :: "string list" where
  "lockExempt = [''get_status'', ''read_console_log'', ''acquire_lock'', ''release_lock'']"

definition lock_guard :: "('w, 'x) api_scheme \<Rightarrow> string \<Rightarrow> duration \<Rightarrow> string \<Rightarrow> 'w tool_state handler \<Rightarrow> 'w tool_state handler" where
  "lock_guard a own wait name nxt =
     (if name \<in> set lockExempt then nxt
      else (\<lambda>args cw. callWithSession a own wait (nxt args) cw))"

subsection \<open>The tools\<close>

definition status_text :: "(duration \<Rightarrow> string) \<Rightarrow> time \<Rightarrow> status_response \<Rightarrow> string" where
  "status_text show_d t s =
     (let lock = (if SessionActive s
                  then ''HELD by '' @ quote (SessionOwner s) @ '' (expires in '' @
                    show_d (Round_second (unix_epoch + SessionExpiresAtUnixMs s * millisecond - t)) @ '')''
                  else ''free'');
          pwr = (if 0 < stPowerOutlet s then power_text (PowerState s) @ ''(outlet'' @ itoa (stPowerOutlet s) @ '')''
                 else power_text (PowerState s));
          ssh = (if SshTarget s \<noteq> [] then SshUser s @ ''@'' @ SshTarget s else ''(unconfigured)'')
      in ''version='' @ stVersion s @ '' serial='' @ stSerialDevice s @ ''@'' @ itoa (stSerialBaud s) @ '' connected='' @ fmt_bool (SerialConnected s) @
         '' power='' @ pwr @ '' ssh='' @ ssh @ '' tftp='' @ TftpAddress s @ '' dir='' @ TftpDir s @ '' buffer='' @ itoa (ConsoleBufferBytes s) @
         ''B lock='' @ lock)"

definition tool_get_status :: "(duration \<Rightarrow> string) \<Rightarrow> ('w, 'x) rpcs_scheme \<Rightarrow> 'w tool_state handler" where
  "tool_get_status show_d a args cw =
     (case rStatus a (fst cw) (snd cw) of (r, w) \<Rightarrow> (tool_answer (status_text show_d (rNow a w)) r, fst cw, w))"

definition tool_acquire_lock :: "(duration \<Rightarrow> string) \<Rightarrow> ('w, 'x) rpcs_scheme \<Rightarrow> string \<Rightarrow> duration \<Rightarrow> 'w tool_state handler" where
  "tool_acquire_lock show_d a own wait args cw =
     (if HasSession (fst cw) then ((None, ''already holding the hardware lock''), cw)
      else case Acquire (api.truncate a) own wait cw of
             (r, cw1) \<Rightarrow>
               (tool_answer (\<lambda>se. ''acquired hardware lock (expires in '' @ show_d (Round_second (sesExpiresAt se - rNow a (snd cw1))) @ '')'') r, cw1))"

definition tool_release_lock :: "('w, 'x) rpcs_scheme \<Rightarrow> 'w tool_state handler" where
  "tool_release_lock a args cw =
     (if \<not> HasSession (fst cw) then ((None, ''no hardware lock held''), cw)
      else case Release (api.truncate a) cw of
             (Some e, cw1) \<Rightarrow> ((Some e, []), cw1)
           | (None, cw1) \<Rightarrow> ((None, ''released hardware lock''), cw1))"

definition tool_read_console_log :: "json_lib \<Rightarrow> ('w, 'x) rpcs_scheme \<Rightarrow> 'w tool_state handler" where
  "tool_read_console_log l a =
     with_any_args l [''max_bytes''] (\<lambda>g. with_client (\<lambda>c. rLog a c (aMaxBytes g)) (tool_answer fst))"

definition tool_write_console :: "json_lib \<Rightarrow> ('w, 'x) rpcs_scheme \<Rightarrow> 'w tool_state handler" where
  "tool_write_console l a =
     with_any_args l [''text'', ''keys'']
       (\<lambda>g. with_client (\<lambda>c. rWrite a c (aText g) (aKeys g)) (tool_answer (\<lambda>n. ''wrote '' @ itoa n @ '' bytes'')))"

definition tool_wait_for_pattern :: "json_lib \<Rightarrow> ('w, 'x) rpcs_scheme \<Rightarrow> 'w tool_state handler" where
  "tool_wait_for_pattern l a =
     with_args l [''pattern'', ''timeout_ms'', ''include_scrollback_bytes'']
       (\<lambda>g. with_client (\<lambda>c. rWait a c (aPattern g) (aTimeoutMs g) (aScrollback g))
         (tool_answer (\<lambda>r. if \<not> Matched r then ''no match after '' @ itoa (ElapsedMs r) @ ''ms''
                       else ''matched '' @ quote (Match r) @ '' after '' @ itoa (ElapsedMs r) @ ''ms'')))"

definition tool_power :: "json_lib \<Rightarrow> ('w, 'x) rpcs_scheme \<Rightarrow> 'w tool_state handler" where
  "tool_power l a =
     with_args l [''action'']
       (\<lambda>g cw. case power_actions (aAction g) of
          None \<Rightarrow> ((Some (Plain (Err (''invalid action '' @ quote (aAction g)))), []), cw)
        | Some act \<Rightarrow> with_client (\<lambda>c. rPower a c act) (tool_answer (\<lambda>r. ''power state: '' @ power_text (fst r))) cw)"

definition tool_run_uboot_command :: "json_lib \<Rightarrow> ('w, 'x) rpcs_scheme \<Rightarrow> 'w tool_state handler" where
  "tool_run_uboot_command l a =
     with_args l [''command'', ''timeout_ms'']
       (\<lambda>g. with_client (\<lambda>c. rUboot a c None (aCommand g) (aTimeoutMs g))
         (tool_answer (\<lambda>(out, back). if back then out else out @ [LF] @ ''[warning: prompt did not return]'')))"

definition power_cycle_of :: "tool_args \<Rightarrow> bool" where
  "power_cycle_of g = (case aPowerCycle g of None \<Rightarrow> True | Some b \<Rightarrow> b)"

definition tool_interrupt_boot :: "json_lib \<Rightarrow> ('w, 'x) rpcs_scheme \<Rightarrow> 'w tool_state handler" where
  "tool_interrupt_boot l a =
     with_any_args l [''power_cycle'']
       (\<lambda>g. with_client (\<lambda>c. rInterrupt a c (4 * minute) (power_cycle_of g) (Milliseconds (4 * minute)))
         (\<lambda>(evs, e). if e \<noteq> None then (e, bootEventCollector evs)
                     else (None, bootEventCollector evs @ [LF] @ ''reached U-Boot prompt'')))"

definition tool_netboot :: "json_lib \<Rightarrow> ('w, 'x) rpcs_scheme \<Rightarrow> 'w tool_state handler" where
  "tool_netboot l a =
     with_args l [''image'', ''power_cycle'', ''kernel_args'', ''verify_crc32'', ''timeout_ms'']
       (\<lambda>g. let timeout = (if 0 < aTimeoutMs g then i64 (aTimeoutMs g * millisecond) else 5 * minute)
            in with_client (\<lambda>c. rNetboot a c (i64 (timeout + 30 * second))
                 \<lparr>qImage = aImage g, qPowerCycle = power_cycle_of g, qKernelArgs = aKernelArgs g, qVerify = aVerify g,
                  qTimeoutMs = Milliseconds timeout\<rparr>)
               (\<lambda>(evs, e). (e, bootEventCollector evs)))"

definition image_line :: "string \<times> int \<times> int \<times> 32 word \<Rightarrow> string" where
  "image_line im =
     (case im of (n, sz, mt, crc) \<Rightarrow> n @ [TAB] @ itoa sz @ '' bytes'' @ [TAB] @ ''crc32='' @ fmt_crc crc @ [LF])"

definition tool_list_images :: "('w, 'x) rpcs_scheme \<Rightarrow> 'w tool_state handler" where
  "tool_list_images a args =
     with_client (rImages a) (tool_answer (\<lambda>ims. if ims = [] then ''(no images)'' else concat (map image_line ims)))"

definition tool_upload_image :: "json_lib \<Rightarrow> ('w, 'x) rpcs_scheme \<Rightarrow> 'w tool_state handler" where
  "tool_upload_image l a =
     with_args l [''path'', ''overwrite'']
       (\<lambda>g. with_client (\<lambda>c. rUpload a c (aPath g) (aOverwrite g))
         (tool_answer (\<lambda>i. ''uploaded '' @ im_name i @ '': '' @ itoa (im_size i) @ '' bytes, crc32='' @ fmt_crc (im_crc32 i) @ '', sha256='' @ im_sha256 i)))"

definition tool_delete_image :: "json_lib \<Rightarrow> ('w, 'x) rpcs_scheme \<Rightarrow> 'w tool_state handler" where
  "tool_delete_image l a =
     with_args l [''name''] (\<lambda>g. with_client (\<lambda>c. rDelete a c (aName g)) (tool_answer (\<lambda>_. ''deleted '' @ aName g)))"

definition tool_ssh_exec :: "json_lib \<Rightarrow> ('w, 'x) rpcs_scheme \<Rightarrow> 'w tool_state handler" where
  "tool_ssh_exec l a =
     with_args l [''command'', ''timeout_ms'']
       (\<lambda>g. with_client (\<lambda>c. rSSH a c (aCommand g) (aTimeoutMs g))
         (tool_answer (\<lambda>r. ''exit='' @ itoa (ExitCode r) @ '' timed_out='' @ fmt_bool (TimedOut r) @ [LF] @
            (if 0 < length (Stdout r) then ''--- stdout ---'' @ [LF] @ Stdout r @ [LF] else []) @
            (if 0 < length (Stderr r) then ''--- stderr ---'' @ [LF] @ Stderr r @ [LF] else []))))"

definition tool_scp_upload :: "json_lib \<Rightarrow> ('w, 'x) rpcs_scheme \<Rightarrow> 'w tool_state handler" where
  "tool_scp_upload l a =
     with_args l [''local_path'', ''remote_path'', ''timeout_ms'']
       (\<lambda>g. with_client (\<lambda>c. rScpUp a c (aLocalPath g) (aRemotePath g) (scpTimeout (aTimeoutMs g)))
         (tool_answer (\<lambda>n. ''uploaded '' @ itoa n @ '' bytes to '' @ aRemotePath g)))"

definition tool_scp_download :: "json_lib \<Rightarrow> ('w, 'x) rpcs_scheme \<Rightarrow> 'w tool_state handler" where
  "tool_scp_download l a =
     with_args l [''remote_path'', ''local_path'', ''timeout_ms'']
       (\<lambda>g. with_client (\<lambda>c. rScpDown a c (aRemotePath g) (aLocalPath g) (scpTimeout (aTimeoutMs g)))
         (tool_answer (\<lambda>n. ''downloaded '' @ itoa n @ '' bytes to '' @ aLocalPath g)))"

definition smoke_args :: "tool_args \<Rightarrow> smoke_config" where
  "smoke_args g =
     \<lparr>ImagePath = aImagePath g, ImageName = [], smKernelArgs = aKernelArgs g, SuccessPattern = [], FailurePattern = [],
      BootTimeout = (if 0 < aBootTimeoutMs g then i64 (aBootTimeoutMs g * millisecond) else 0), NetbootTimeout = 0,
      smVerifyCRC32 = aVerify g, SSHCommand = [], SSHExpect = [], SSHTimeout = 0\<rparr>"

definition tool_smoke_test :: "json_lib \<Rightarrow> (duration \<Rightarrow> string) \<Rightarrow> ('w, 'x) rpcs_scheme \<Rightarrow> 'w tool_state handler" where
  "tool_smoke_test l show_d a =
     with_args l [''image_path'', ''out_path'', ''kernel_args'', ''verify_crc32'', ''boot_timeout_ms'']
       (\<lambda>g cw. case rSmoke a (fst cw) (smoke_args g) (snd cw) of
          (Inl e, w) \<Rightarrow> ((Some e, []), fst cw, w)
        | (Inr (res, took), w) \<Rightarrow>
            (case (if aOutPath g = [] then (None, w) else rWriteFile a (aOutPath g) (BootLog res) w) of
               (Some x, w1) \<Rightarrow> ((Some (Plain x), []), fst cw, w1)
             | (None, w1) \<Rightarrow>
                 ((None, (if Success res then ''PASS'' else ''FAIL'') @ '' in '' @ show_d (Round_second took) @ '': '' @ Reason res @ [LF] @
                    ''(boot log: '' @ itoa (int (length (BootLog res))) @ '' bytes'' @ outNote (aOutPath g) @ '')''), fst cw, w1)))"

text \<open>\<open>registerTools\<close>, and the server \<open>run\<close> starts: \<open>doc\<close> has the descriptions and schemas.\<close>

definition tool_handlers :: "json_lib \<Rightarrow> (duration \<Rightarrow> string) \<Rightarrow> ('w, 'x) rpcs_scheme \<Rightarrow> string \<Rightarrow> duration \<Rightarrow> (string \<times> 'w tool_state handler) list" where
  "tool_handlers l show_d a own wait =
     [(''get_status'', tool_get_status show_d a), (''acquire_lock'', tool_acquire_lock show_d a own wait),
      (''release_lock'', tool_release_lock a), (''read_console_log'', tool_read_console_log l a),
      (''write_console'', tool_write_console l a), (''wait_for_pattern'', tool_wait_for_pattern l a),
      (''power'', tool_power l a), (''run_uboot_command'', tool_run_uboot_command l a),
      (''interrupt_boot'', tool_interrupt_boot l a), (''netboot'', tool_netboot l a), (''list_images'', tool_list_images a),
      (''upload_image'', tool_upload_image l a), (''delete_image'', tool_delete_image l a), (''ssh_exec'', tool_ssh_exec l a),
      (''scp_upload'', tool_scp_upload l a), (''scp_download'', tool_scp_download l a), (''smoke_test'', tool_smoke_test l show_d a)]"

definition registerTools :: "(string \<Rightarrow> string \<times> json option) \<Rightarrow> json_lib \<Rightarrow> (duration \<Rightarrow> string) \<Rightarrow> ('w, 'x) rpcs_scheme \<Rightarrow> string \<Rightarrow> duration
    \<Rightarrow> 'w tool_state mcp \<Rightarrow> 'w tool_state mcp" where
  "registerTools doc l show_d a own wait m =
     foldl (\<lambda>m (n, h). AddTool \<lparr>tName = n, tDescription = fst (doc n), tSchema = snd (doc n), tHandler = h\<rparr> m)
       m (tool_handlers l show_d a own wait)"

definition bridge_server :: "(string \<Rightarrow> string \<times> json option) \<Rightarrow> json_lib \<Rightarrow> (duration \<Rightarrow> string) \<Rightarrow> ('w, 'x) rpcs_scheme \<Rightarrow> string \<Rightarrow> string \<Rightarrow> duration
    \<Rightarrow> 'w tool_state mcp" where
  "bridge_server doc l show_d a version own wait =
     Use (lock_guard a own wait) (registerTools doc l show_d a own wait (NewServer ''unwedge'' version))"

text \<open>\<open>run\<close>: the flags, the connection, serving standard input, and the release at the end. What is written to standard
  output, the error and the state.\<close>

record 'w bridge_env =
  beClient :: client_env
  beTls :: tls_lib
  beNew :: "string \<Rightarrow> goerr option"
  beLookup :: "string \<Rightarrow> string \<Rightarrow> string \<Rightarrow> goerr + srv list"
  beHost :: "goerr + string"
  beParse :: "string \<Rightarrow> duration option"
  beShow :: "duration \<Rightarrow> string"
  beJson :: json_lib
  beDoc :: "string \<Rightarrow> string \<times> json option"
  beVersion :: string
  beRpcs :: "'w rpcs"
  beCtx :: "nat \<Rightarrow> goerr option"

text \<open>A flag error ends the process inside \<open>flag.Parse\<close>.\<close>

datatype bridge_end = FlagExit goerr | Returned "goerr option"

definition bridge_run :: "'w bridge_env \<Rightarrow> string list \<Rightarrow> bytes list \<Rightarrow> goerr \<Rightarrow> 'w \<Rightarrow> bridge_end \<times> json list \<times> 'w" where
  "bridge_run en args input fin w =
     (case Resolve (beClient en) (PreScanConfig args) of
        Inl e \<Rightarrow> (Returned (Some e), [], w)
      | Inr d \<Rightarrow>
     (case parse_flags (beParse en) conn_flags args [] of
        Inl e \<Rightarrow> (FlagExit e, [], w)
      | Inr (got, _) \<Rightarrow>
     (case endpoint_of d (beLookup en) got of
        Inl e \<Rightarrow> (Returned (Some e), [], w)
      | Inr o1 \<Rightarrow>
     (case Dial (beTls en) (beNew en) o1 of
        Inl e \<Rightarrow> (Returned (Some e), [], w)
      | Inr _ \<Rightarrow>
          let own = mcp_ownerLabel (beHost en) (flag_str got ''session-owner'' []);
              wait = flag_dur (beParse en) got ''session-wait'' (10 * minute);
              m = bridge_server (beDoc en) (beJson en) (beShow en) (beRpcs en) (beVersion en) own wait
          in (case Serve (beJson en) m (beCtx en) 0 [] input fin [] ([], w) of
                (err, out, cw) \<Rightarrow> (Returned err, out, snd (snd (Release (api.truncate (beRpcs en)) cw))))))))"

definition bridge_main :: "bridge_end \<Rightarrow> string \<times> nat" where
  "bridge_main r =
     (case r of
        FlagExit e \<Rightarrow> ([], if e = Err ''flag: help requested'' then 0 else 2)
      | Returned None \<Rightarrow> ([], 0)
      | Returned (Some e) \<Rightarrow> (''unwedge-mcp: '' @ err_text e @ [LF], 1))"

subsection \<open>A tool call against the lock\<close>

text \<open>The session RPCs and a gated RPC of a daemon whose state is the lock and the rest: \<open>eClk n\<close> is the \<open>n\<close>-th reading
  of its clock, \<open>eGen n\<close> the id an \<open>Acquire\<close> at that reading would generate and \<open>eBlocked\<close> how a blocked
  \<open>Acquire\<close> ends.\<close>

record lock_env =
  eClk :: "nat \<Rightarrow> time"
  eGen :: "nat \<Rightarrow> string"
  eBlocked :: "nat \<Rightarrow> string \<Rightarrow> duration \<Rightarrow> manager \<Rightarrow> (info + acquire_err) \<times> manager"
  eFmt :: "time \<Rightarrow> string"

type_synonym 's gated = "nat \<times> manager \<times> 's"

definition gd_acquire :: "lock_env \<Rightarrow> nat \<Rightarrow> string \<Rightarrow> duration \<Rightarrow> manager \<Rightarrow> (info + acquire_err) \<times> manager" where
  "gd_acquire E n own wait m =
     (case acquire_try (eClk E n) (eGen E n) own m of
        (Inl i, m1) \<Rightarrow> (Inl i, m1)
      | (Inr (_, busy), m1) \<Rightarrow> if wait < 0 then (Inr busy, m1) else eBlocked E n own wait m1)"

definition gd_start :: "lock_env \<Rightarrow> string \<Rightarrow> int \<Rightarrow> 's gated \<Rightarrow> (rpc_err + start_response) \<times> 's gated" where
  "gd_start E own ms w =
     (case w of (n, m, s) \<Rightarrow>
      (case gd_acquire E n own (i64 (ms * millisecond)) m of
         (r, m1) \<Rightarrow> (StartSession (eFmt E) True (ttl m) (\<lambda>_ _. r) own ms, n + 1, m1, s)))"

definition gd_finish :: "string \<Rightarrow> 's gated \<Rightarrow> rpc_err option \<times> 's gated" where
  "gd_finish i w = (case w of (n, m, s) \<Rightarrow> (case FinishSession True i m of (e, m1) \<Rightarrow> (e, n, m1, s)))"

definition gd_ping :: "lock_env \<Rightarrow> string \<Rightarrow> 's gated \<Rightarrow> (rpc_err + int) \<times> 's gated" where
  "gd_ping E i w =
     (case w of (n, m, s) \<Rightarrow> (case Ping True (eClk E n) (\<lambda>m. m) (eClk E (n + 1)) i m of (r, m1) \<Rightarrow> (r, n + 2, m1, s)))"

definition gd_api :: "lock_env \<Rightarrow> 's gated api" where
  "gd_api E = \<lparr>apiStart = gd_start E, apiFinish = gd_finish, apiPing = gd_ping E\<rparr>"

definition gd_unary :: "lock_env \<Rightarrow> string \<Rightarrow> (manager \<times> 's \<Rightarrow> (rpc_err + 'r) \<times> manager \<times> 's) \<Rightarrow> client \<Rightarrow> 's gated
    \<Rightarrow> (rpc_err + 'r) \<times> 's gated" where
  "gd_unary E method h c w =
     (case w of (n, m, s) \<Rightarrow>
      (case UnaryInterceptor True method c (eClk E n) (eClk E (n + 1)) h (m, s) of (r, m1, s1) \<Rightarrow> (r, n + 2, m1, s1)))"

definition gd_tool :: "lock_env \<Rightarrow> string \<Rightarrow> (manager \<times> 's \<Rightarrow> (rpc_err + 'r) \<times> manager \<times> 's) \<Rightarrow> ('r \<Rightarrow> string)
    \<Rightarrow> client \<times> 's gated \<Rightarrow> (rpc_err option \<times> string) \<times> client \<times> 's gated" where
  "gd_tool E method h k = with_client (gd_unary E method h) (tool_answer k)"

definition entered :: "time \<Rightarrow> manager \<Rightarrow> manager" where
  "entered t m = m\<lparr>lastActivity := t, activeCalls := activeCalls m + 1\<rparr>"

lemma gd_tool_run:
  assumes "method \<notin> set sessionExemptMethods"
  shows "gd_tool E method h k (c, n, m, s) =
    (if holds (eClk E n) c m
     then (case h (entered (eClk E n) m, s) of (r, m2, s2) \<Rightarrow> (tool_answer k r, c, n + 2, CallEnd (eClk E (n + 1)) c m2, s2))
     else ((Some (sessionRequiredErr c), []), c, n + 2, expireIfIdleLocked (eClk E n) m, s))"
  using assms
  by (simp add: gd_tool_def with_client_def gd_unary_def UnaryInterceptor_def CallStart_holds entered_def tool_answer_def split: prod.split)

lemma contains_prefix: "prefix p s \<Longrightarrow> contains_str s p"
  by (cases s) (auto simp: contains_str_def)

lemma sessionRequired_lost: "sessionLost (sessionRequiredErr c)"
proof (cases "c = []")
  case True
  then show ?thesis by (simp add: sessionLost_def sessionRequiredErr_def) code_simp
next
  case False
  have "to_lower (''session '' @ quote c @ u) = ''session'' @ to_lower ('' '' @ quote c @ u)" for u
    by (simp add: to_lower_def lower_char_def ord_def)
  with False show ?thesis by (simp add: sessionLost_def sessionRequiredErr_def contains_prefix)
qed

text \<open>The other refusals of the daemon do not make the bridge acquire the lock anew.\<close>

lemma not_configured_kept:
  "w \<in> {''serial console'', ''power control'', ''uboot orchestrator'', ''image store'', ''ssh''} \<Longrightarrow> \<not> sessionLost (not_configured w)"
  by (auto simp: sessionLost_def not_configured_def contains_str_def to_lower_def lower_char_def ord_def)

lemma holds_expire: "holds t c m \<Longrightarrow> expireIfIdleLocked t m = m"
  by (auto simp: holds_def expireIfIdleLocked_def)

lemma ensure_gd:
  "ensureSession (gd_api E) own wait (c, n, m, s) =
    (if c \<noteq> [] then (None, c, n, m, s)
     else case gd_start E own (wait_ms wait) (n, m, s) of
            (Inl e, w) \<Rightarrow> (if status_code e = Some Code_Unimplemented then None else Some e, [], w)
          | (Inr r, w) \<Rightarrow> (None, SessionId r, w))"
  by (simp add: ensureSession_def HasSession_def Acquire_def gd_api_def api.truncate_def split: prod.split sum.split)

lemma gd_start_rest: "gd_start E own ms (n, m, s) = (r, w) \<Longrightarrow> \<exists>m1. w = (n + 1, m1, s)"
  by (auto simp: gd_start_def split: prod.splits)

lemma gd_start_code: "gd_start E own ms (n, m, s) = (Inl e, w) \<Longrightarrow> status_code e \<noteq> Some Code_Unimplemented"
  by (auto simp: gd_start_def StartSession_def status_code_def split: prod.splits sum.splits acquire_err.splits if_splits)

text \<open>What generating an id and waiting for the lock promise.\<close>

definition env_ok :: "lock_env \<Rightarrow> bool" where
  "env_ok E \<longleftrightarrow> (\<forall>n. eGen E n \<noteq> []) \<and>
     (\<forall>n own d m i m1. eBlocked E n own d m = (Inl i, m1) \<longrightarrow> ID i \<noteq> [] \<and> id_m m1 = ID i)"

lemma gd_acquire_grants: "env_ok E \<Longrightarrow> gd_acquire E n own wait m = (Inl i, m1) \<Longrightarrow> ID i \<noteq> [] \<and> id_m m1 = ID i"
  by (auto simp: env_ok_def gd_acquire_def acquire_try_def infoLocked_def Let_def split: prod.splits sum.splits if_splits)

lemma gd_start_grants:
  assumes "env_ok E" "gd_start E own ms (n, m, s) = (Inr r, n', m', s')"
  shows "SessionId r \<noteq> [] \<and> id_m m' = SessionId r \<and> s' = s"
proof -
  obtain x m1 where A: "gd_acquire E n own (i64 (ms * millisecond)) m = (x, m1)" by (metis prod.exhaust)
  with assms(2) obtain i where "x = Inl i" "SessionId r = ID i" "m' = m1" "s' = s"
    by (auto simp: gd_start_def StartSession_def split: sum.splits acquire_err.splits if_splits)
  with gd_acquire_grants [OF assms(1)] A show ?thesis by simp
qed

interpretation gd: session_service "env_ok E" "gd_api E" "\<lambda>(n, m, s). id_m m" "\<lambda>(n, m, s). s" for E :: lock_env
proof
  show "SessionId r \<noteq> [] \<and> (case w' of (n, m, s) \<Rightarrow> id_m m) = SessionId r"
    if "env_ok E" "apiStart (gd_api E) own ms w = (Inr r, w')" for own ms w r and w' :: "'s gated"
    using that(2) by (cases w; cases w') (auto simp: gd_api_def dest: gd_start_grants [OF that(1)])
  show "(case w' of (n, m, s) \<Rightarrow> s) = (case w of (n, m, s) \<Rightarrow> s)"
    if "apiStart (gd_api E) own ms w = (x, w')" for own ms w x and w' :: "'s gated"
    using that by (cases w; cases w') (auto simp: gd_api_def dest: gd_start_rest)
  show "status_code e \<noteq> Some Code_Unimplemented"
    if "apiStart (gd_api E) own ms w = (Inl e, w')" for own ms w e and w' :: "'s gated"
    using that by (cases w) (auto simp: gd_api_def dest: gd_start_code)
  show "(case w' of (n, m, s) \<Rightarrow> id_m m) \<noteq> i \<and> (case w' of (n, m, s) \<Rightarrow> s) = (case w of (n, m, s) \<Rightarrow> s) \<and>
      ((case w of (n, m, s) \<Rightarrow> id_m m) \<noteq> i \<longrightarrow> w' = w)"
    if "i \<noteq> []" "apiFinish (gd_api E) i w = (y, w')" for i w y and w' :: "'s gated"
    using that by (cases w; cases w') (auto simp: gd_api_def gd_finish_def FinishSession_def Finish_def split: prod.splits option.splits if_splits)
qed

text \<open>On a free lock the session starts, and holds the lock while its lifetime lasts.\<close>

lemma gd_start_free:
  assumes "id_m (expireIfIdleLocked (eClk E n) m) = []" "eGen E n \<noteq> []"
  shows "\<exists>r m1. gd_start E own ms (n, m, s) = (Inr r, n + 1, m1, s) \<and> SessionId r = eGen E n \<and>
    (t \<le> eClk E n + ttl m \<longrightarrow> holds t (eGen E n) m1)"
proof -
  have "ttl (expireIfIdleLocked (eClk E n) m) = ttl m" by (cases rule: expire_cases [of "eClk E n" m]) simp_all
  with assms show ?thesis
    by (auto simp: gd_start_def gd_acquire_def acquire_try_def StartSession_def infoLocked_def holds_def expiresAtLocked_def Let_def)
qed

text \<open>The handler ran once, entered through the gate by \<open>c\<close>, who then held the lock, and its answer is the result.\<close>

definition handled :: "(manager \<times> 's \<Rightarrow> (rpc_err + 'r) \<times> manager \<times> 's) \<Rightarrow> ('r \<Rightarrow> string) \<Rightarrow> 's \<Rightarrow> rpc_err option \<times> string \<Rightarrow> client \<Rightarrow> manager \<Rightarrow> 's \<Rightarrow> bool" where
  "handled h k s res c m' s' \<longleftrightarrow>
     (\<exists>t t2 m0 m2 r. holds t c m0 \<and> h (entered t m0, s) = (r, m2, s') \<and> res = tool_answer k r \<and> m' = CallEnd t2 c m2)"

lemma gd_tool_cases:
  assumes "method \<notin> set sessionExemptMethods" "\<forall>x e. fst (h x) = Inl e \<longrightarrow> \<not> sessionLost e"
    "gd_tool E method h k (c, n, m, s) = (res, c', n', m', s')"
  obtains (ran) "holds (eClk E n) c m" "handled h k s res c' m' s'" "c' = c" "n' = n + 2" "\<And>e. fst res = Some e \<Longrightarrow> \<not> sessionLost e"
  | (refused) "\<not> holds (eClk E n) c m" "res = (Some (sessionRequiredErr c), [])" "c' = c" "n' = n + 2"
      "m' = expireIfIdleLocked (eClk E n) m" "s' = s"
proof (cases "holds (eClk E n) c m")
  case True
  obtain r m2 s2 where h: "h (entered (eClk E n) m, s) = (r, m2, s2)" by (metis prod_cases3)
  with assms(1,3) True have e: "res = tool_answer k r" "c' = c" "n' = n + 2" "m' = CallEnd (eClk E (n + 1)) c m2" "s' = s2"
    by (auto simp: gd_tool_run)
  have "\<not> sessionLost x" if "fst res = Some x" for x
  proof -
    from that e(1) have "r = Inl x" by (auto simp: tool_answer_def split: sum.splits)
    with h assms(2) show ?thesis by (metis fst_conv)
  qed
  moreover have "handled h k s res c' m' s'" using True h e unfolding handled_def by blast
  ultimately show ?thesis using ran True e by blast
next
  case False
  with assms(1,3) show ?thesis by (intro refused) (auto simp: gd_tool_run)
qed

lemma ensure_gd_rest: "ensureSession (gd_api E) own wait (c, n, m, s) = (e, c', n', m', s') \<Longrightarrow> s' = s"
  using gd_start_rest [of E own "wait_ms wait" n m s]
  by (auto simp: ensure_gd split: if_splits prod.splits sum.splits)

lemma call_entered:
  assumes "method \<notin> set sessionExemptMethods" "\<forall>x e. fst (h x) = Inl e \<longrightarrow> \<not> sessionLost e" "holds (eClk E n) c m"
  shows "callWithSession (gd_api E) own wait (gd_tool E method h k) (c, n, m, s) = gd_tool E method h k (c, n, m, s)"
proof -
  obtain res c' n' m' s' where T: "gd_tool E method h k (c, n, m, s) = (res, c', n', m', s')" by (metis prod_cases5)
  have "c \<noteq> []" using assms(3) by (simp add: holds_def)
  moreover have "\<not> sessionLost e" if "fst res = Some e" for e
    by (rule gd_tool_cases [OF assms(1,2) T]) (use that assms(3) in auto)
  ultimately show ?thesis by (cases res; cases "fst res") (auto simp: callWithSession_def ensure_gd T)
qed

text \<open>A refused call starts again without a session.\<close>

lemma call_refused:
  assumes "method \<notin> set sessionExemptMethods" "c \<noteq> []" "\<not> holds (eClk E n) c m"
  shows "callWithSession (gd_api E) own wait (gd_tool E method h k) (c, n, m, s) =
    (case ensureSession (gd_api E) own wait ([], n + 2, expireIfIdleLocked (eClk E n) m, s) of
       (Some e, cw) \<Rightarrow> ((Some e, []), cw)
     | (None, cw) \<Rightarrow> gd_tool E method h k cw)"
  using assms(2,3) by (simp add: callWithSession_def ensure_gd gd_tool_run [OF assms(1)] sessionRequired_lost ClearSession_def)

lemma call_outcome:
  assumes g: "method \<notin> set sessionExemptMethods" and nl: "\<forall>x e. fst (h x) = Inl e \<longrightarrow> \<not> sessionLost e"
    and call: "callWithSession (gd_api E) own wait (gd_tool E method h k) (c, n, m, s) = (res, c', n', m', s')"
  shows "handled h k s res c' m' s' \<or> s' = s \<and> fst res \<noteq> None"
proof -
  have T: "handled h k s res c' m' s' \<or> s' = s \<and> fst res \<noteq> None"
    if "gd_tool E method h k (c1, n1, m1, s) = (res, c', n', m', s')" for c1 n1 m1
    by (rule gd_tool_cases [OF g nl that]) auto
  have R: "handled h k s res c' m' s' \<or> s' = s \<and> fst res \<noteq> None"
    if "(case ensureSession (gd_api E) own wait (c1, n1, m1, s) of (Some e, cw) \<Rightarrow> ((Some e, []), cw) | (None, cw) \<Rightarrow> gd_tool E method h k cw)
        = (res, c', n', m', s')" for c1 n1 m1
  proof -
    obtain e c2 n2 m2 s2 where E: "ensureSession (gd_api E) own wait (c1, n1, m1, s) = (e, c2, n2, m2, s2)" by (metis prod_cases5)
    with ensure_gd_rest [OF E] that T show ?thesis by (cases e) auto
  qed
  obtain e c2 n2 m2 s2 where E: "ensureSession (gd_api E) own wait (c, n, m, s) = (e, c2, n2, m2, s2)" by (metis prod_cases5)
  note s2 = ensure_gd_rest [OF E]
  show ?thesis
  proof (cases e)
    case (Some x)
    with call E s2 show ?thesis by (auto simp: callWithSession_def)
  next
    case None
    obtain r3 c3 n3 m3 s3 where F: "gd_tool E method h k (c2, n2, m2, s) = (r3, c3, n3, m3, s3)" by (metis prod_cases5)
    show ?thesis
    proof (cases rule: gd_tool_cases [OF g nl F])
      case 1
      then have "(r3, c3, n3, m3, s3) = (res, c', n', m', s')"
        using call E None s2 F by (cases r3; cases "fst r3") (auto simp: callWithSession_def)
      with 1 show ?thesis by simp
    next
      case 2
      with call E None s2 F have "(case ensureSession (gd_api E) own wait ([], n3, m3, s) of (Some e, cw) \<Rightarrow> ((Some e, []), cw) | (None, cw) \<Rightarrow> gd_tool E method h k cw)
        = (res, c', n', m', s')" by (simp add: callWithSession_def sessionRequired_lost ClearSession_def)
      with R show ?thesis by blast
    qed
  qed
qed

text \<open>With the lock free when the bridge asks for it, the call goes through under the new session.\<close>

lemma ensured_free:
  assumes "method \<notin> set sessionExemptMethods" "\<forall>x e. fst (h x) = Inl e \<longrightarrow> \<not> sessionLost e"
    "id_m (expireIfIdleLocked (eClk E n) m) = []" "eGen E n \<noteq> []" "eClk E (n + 1) \<le> eClk E n + ttl m"
  shows "\<exists>m1 res n' m' s'. ensureSession (gd_api E) own wait ([], n, m, s) = (None, eGen E n, n + 1, m1, s) \<and>
    gd_tool E method h k (eGen E n, n + 1, m1, s) = (res, eGen E n, n', m', s') \<and> handled h k s res (eGen E n) m' s' \<and>
    (\<forall>e. fst res = Some e \<longrightarrow> \<not> sessionLost e)"
proof -
  from gd_start_free [OF assms(3,4), of own "wait_ms wait" s "eClk E (n + 1)"] assms(5) obtain r m1
    where G: "gd_start E own (wait_ms wait) (n, m, s) = (Inr r, n + 1, m1, s)" "SessionId r = eGen E n" "holds (eClk E (n + 1)) (eGen E n) m1"
    by blast
  obtain res c' n' m' s' where T: "gd_tool E method h k (eGen E n, n + 1, m1, s) = (res, c', n', m', s')" by (metis prod_cases5)
  from T G(3) have "c' = eGen E n \<and> handled h k s res c' m' s' \<and> (\<forall>e. fst res = Some e \<longrightarrow> \<not> sessionLost e)"
    by (cases rule: gd_tool_cases [OF assms(1,2) T]) auto
  with T G(1,2) show ?thesis by (cases res) (auto simp: ensure_gd)
qed

lemma call_free:
  assumes "method \<notin> set sessionExemptMethods" "\<forall>x e. fst (h x) = Inl e \<longrightarrow> \<not> sessionLost e"
    "id_m (expireIfIdleLocked (eClk E n1) m1) = []" "eGen E n1 \<noteq> []" "eClk E (n1 + 1) \<le> eClk E n1 + ttl m1"
    "c = [] \<and> m1 = m \<and> n1 = n \<or> c \<noteq> [] \<and> \<not> holds (eClk E n) c m \<and> m1 = expireIfIdleLocked (eClk E n) m \<and> n1 = n + 2"
  shows "\<exists>res n' m' s'. callWithSession (gd_api E) own wait (gd_tool E method h k) (c, n, m, s) = (res, eGen E n1, n', m', s') \<and>
    handled h k s res (eGen E n1) m' s'"
proof -
  from ensured_free [OF assms(1-5), of own wait s k] obtain mm res n' m' s' where
    E: "ensureSession (gd_api E) own wait ([], n1, m1, s) = (None, eGen E n1, n1 + 1, mm, s)"
    and T: "gd_tool E method h k (eGen E n1, n1 + 1, mm, s) = (res, eGen E n1, n', m', s')" "handled h k s res (eGen E n1) m' s'"
    and L: "\<forall>e. fst res = Some e \<longrightarrow> \<not> sessionLost e" by blast
  from assms(6) show ?thesis
  proof
    assume "c = [] \<and> m1 = m \<and> n1 = n"
    with E T L show ?thesis by (cases res; cases "fst res") (auto simp: callWithSession_def)
  next
    assume "c \<noteq> [] \<and> \<not> holds (eClk E n) c m \<and> m1 = expireIfIdleLocked (eClk E n) m \<and> n1 = n + 2"
    with E T show ?thesis by (auto simp: call_refused [OF assms(1)])
  qed
qed

lemma ensure_busy:
  assumes "id_m m \<noteq> []" "0 < activeCalls m" "wait < 0"
  shows "\<exists>e. ensureSession (gd_api E) own wait ([], n, m, s) = (Some e, [], n + 1, m, s)"
  using assms
  by (simp add: ensure_gd gd_start_def gd_acquire_def acquire_try_def busy_no_expiry wait_ms_def i64_def millisecond_def StartSession_def
      status_code_def Let_def)

lemma call_busy:
  assumes "method \<notin> set sessionExemptMethods" "id_m m \<notin> {[], c}" "0 < activeCalls m" "wait < 0"
  shows "\<exists>e n'. callWithSession (gd_api E) own wait (gd_tool E method h k) (c, n, m, s) = ((Some e, []), [], n', m, s)"
proof (cases "c = []")
  case True
  with assms ensure_busy [of m wait E own n s] show ?thesis by (auto simp: callWithSession_def)
next
  case False
  moreover have "\<not> holds (eClk E n) c m" using assms(2) by (simp add: holds_def)
  ultimately show ?thesis
    using assms ensure_busy [of m wait E own "n + 2" s] by (auto simp: call_refused [OF assms(1)] busy_no_expiry)
qed

text \<open>C39: A tool call and the hardware lock. Against a daemon whose gated RPC runs the handler \<open>h\<close>, a tool
  call either has the handler run exactly once, entered through the gate while the session the bridge then has holds the lock,
  and answers what it answered, or leaves the rest of the daemon as it was and ends with an error. It is the
  former, with no session RPC, when the session of the bridge still holds the lock; and the former, under
  a fresh session, when the bridge had none or lost it and the lock is free by then, as long as less than the lifetime of a session passes
  between the acquisition and the call. When someone else is at work with the lock and the bridge is not to wait, it is
  the latter, and the lock is as it was.\<close>

theorem bridge_call:
  assumes "method \<notin> set sessionExemptMethods" "\<forall>x e. fst (h x) = Inl e \<longrightarrow> \<not> sessionLost e"
    "callWithSession (gd_api E) own wait (gd_tool E method h k) (c, n, m, s) = (res, c', n', m', s')"
  shows "(handled h k s res c' m' s' \<or> s' = s \<and> fst res \<noteq> None) \<and>
    (holds (eClk E n) c m \<longrightarrow> handled h k s res c' m' s' \<and> c' = c \<and> n' = n + 2) \<and>
    (\<forall>m1 n1. (c = [] \<and> m1 = m \<and> n1 = n \<or> c \<noteq> [] \<and> \<not> holds (eClk E n) c m \<and> m1 = expireIfIdleLocked (eClk E n) m \<and> n1 = n + 2) \<and>
       id_m (expireIfIdleLocked (eClk E n1) m1) = [] \<and> eGen E n1 \<noteq> [] \<and> eClk E (n1 + 1) \<le> eClk E n1 + ttl m1 \<longrightarrow>
       handled h k s res c' m' s' \<and> c' = eGen E n1) \<and>
    (id_m m \<notin> {[], c} \<and> 0 < activeCalls m \<and> wait < 0 \<longrightarrow> fst res \<noteq> None \<and> m' = m \<and> s' = s)"
proof (intro conjI impI allI)
  show "handled h k s res c' m' s' \<or> s' = s \<and> fst res \<noteq> None" by (rule call_outcome [OF assms])
next
  assume "holds (eClk E n) c m"
  with assms(3) call_entered [OF assms(1,2) this, of own wait k s] have T: "gd_tool E method h k (c, n, m, s) = (res, c', n', m', s')" by simp
  have "handled h k s res c' m' s' \<and> c' = c \<and> n' = n + 2"
    by (rule gd_tool_cases [OF assms(1,2) T]) (use \<open>holds (eClk E n) c m\<close> in auto)
  then show "handled h k s res c' m' s'" "c' = c" "n' = n + 2" by auto
next
  fix m1 n1
  assume "(c = [] \<and> m1 = m \<and> n1 = n \<or> c \<noteq> [] \<and> \<not> holds (eClk E n) c m \<and> m1 = expireIfIdleLocked (eClk E n) m \<and> n1 = n + 2) \<and>
       id_m (expireIfIdleLocked (eClk E n1) m1) = [] \<and> eGen E n1 \<noteq> [] \<and> eClk E (n1 + 1) \<le> eClk E n1 + ttl m1"
  then show "handled h k s res c' m' s'" "c' = eGen E n1"
    using call_free [OF assms(1,2), of E n1 m1 c m n own wait k s] assms(3) by auto
next
  assume "id_m m \<notin> {[], c} \<and> 0 < activeCalls m \<and> wait < 0"
  with call_busy [OF assms(1), of m c wait E own h k n s] assms(3) show "fst res \<noteq> None" "m' = m" "s' = s" by auto
qed

text \<open>The session \<open>s1\<close> of the bridge has expired when it calls; the handler counts its runs.\<close>

definition lock_env0 :: lock_env where
  "lock_env0 = \<lparr>eClk = (\<lambda>n. 200 + int n), eGen = (\<lambda>n. ''s9''), eBlocked = (\<lambda>n own d m. (Inr (CtxError Deadline), m)), eFmt = (\<lambda>_. [])\<rparr>"

theorem bridge_call_witness:
  "\<exists>res n' m' s'. callWithSession (gd_api lock_env0) ''bob'' 0
      (gd_tool lock_env0 (full_method ''PowerControl'') (\<lambda>(m, j :: int). (Inr (), m, j + 1)) (\<lambda>_. ''done'')) (''s1'', 0, held, 0) =
      (res, ''s9'', n', m', s') \<and> handled (\<lambda>(m, j :: int). (Inr (), m, j + 1)) (\<lambda>_. ''done'') 0 res ''s9'' m' s'"
proof -
  let ?h = "\<lambda>(m, j :: int). (Inr () :: rpc_err + unit, m :: manager, j + 1)"
  have g: "full_method ''PowerControl'' \<notin> set sessionExemptMethods" by (simp add: sessionExemptMethods_def full_method_def)
  have nl: "\<forall>x e. fst (?h x) = Inl e \<longrightarrow> \<not> sessionLost e" by auto
  have x: "\<not> holds 200 ''s1'' held" "expireIfIdleLocked 200 held = clearLocked held" "ttl held = 50"
    by (simp_all add: holds_def held_def NewManager_def expiresAtLocked_def expireIfIdleLocked_def)
  obtain res c' n' m' s' where C: "callWithSession (gd_api lock_env0) ''bob'' 0
      (gd_tool lock_env0 (full_method ''PowerControl'') ?h (\<lambda>_. ''done'')) (''s1'', 0, held, 0) = (res, c', n', m', s')" by (metis prod_cases5)
  have e: "eClk lock_env0 i = 200 + int i" "eGen lock_env0 i = ''s9''" for i by (simp_all add: lock_env0_def)
  have f: "id_m (expireIfIdleLocked (eClk lock_env0 2) (clearLocked held)) = []" by (simp add: expireIfIdleLocked_def)
  from bridge_call [OF g nl C, THEN conjunct2, THEN conjunct2, THEN conjunct1, rule_format, of "clearLocked held" 2] x f
  have "handled ?h (\<lambda>_. ''done'') 0 res c' m' s'" "c' = ''s9''" by (auto simp: e)
  with C show ?thesis by blast
qed

text \<open>The tool \<open>acquire_lock\<close> asks the client, not the daemon: it answers that the lock is held also when the session has
  expired. And a \<open>power_cycle\<close> of another type than a boolean counts as \<open>false\<close> where the decoding error is ignored.\<close>

lemma acquire_lock_unchecked: "c \<noteq> [] \<Longrightarrow> tool_acquire_lock show_d a own wait args (c, w) = ((None, ''already holding the hardware lock''), c, w)"
  by (simp add: tool_acquire_lock_def HasSession_def)

lemma interrupt_boot_mistyped:
  "power_cycle_of (snd (decode_args l [''power_cycle''] (Some (JObj [(''power_cycle'', JStr ''yes'')])))) = False"
  "power_cycle_of (snd (decode_args l [''power_cycle''] None)) = True"
  by (simp_all add: decode_args_def decode_raw_def decode_struct_def field_of_def set_arg_def set_bool_ptr_def zero_args_def power_cycle_of_def)

end
