(* ===== verification/Unwedge_Cli.thy ===== *)
theory Unwedge_Cli
  imports Mcp_Bridge
begin

text \<open>
  \<open>cmd/unwedge\<close>: the command line client. A command changes the rest of the world through the calls of
  \<open>Client_Api\<close> and gives its error with what it wrote to standard output and to standard error. The keepalive pings run
  beside a command; they are among the things that happen to the world in its calls.
\<close>

record cmd_opts =
  coKeys :: string
  coOut :: string
  coKernelArgs :: string
  coVerify :: bool
  coPowerCycle :: bool
  coTimeout :: duration
  coProxy :: bool
  coSshCommand :: string
  coSshExpect :: string
  coSshTimeout :: duration

type_synonym cmd_result = "rpc_err option \<times> bytes \<times> bytes"

abbreviation fails_with :: "string \<Rightarrow> cmd_result" where
  "fails_with s \<equiv> (Some (Plain (Err s)), [], [])"

text \<open>A command that is one call: its error, or what is printed for the answer.\<close>

definition printed :: "('r \<Rightarrow> bytes \<times> bytes) \<Rightarrow> rpc_err + 'r \<Rightarrow> cmd_result" where
  "printed k r = (case r of Inl e \<Rightarrow> (Some e, [], []) | Inr x \<Rightarrow> (None, k x))"

subsection \<open>Boot events\<close>

definition bootEventTo :: "bool \<Rightarrow> boot_event \<Rightarrow> bytes \<times> bytes \<Rightarrow> bytes \<times> bytes" where
  "bootEventTo console_err ev io =
     (case bKind ev of
        KIND_CONSOLE \<Rightarrow> if console_err then (fst io, snd io @ bConsole ev) else (fst io @ bConsole ev, snd io)
      | KIND_STAGE \<Rightarrow> (fst io, snd io @ ''== '' @ bStage ev @ '': '' @ bMessage ev @ [LF])
      | KIND_ERROR \<Rightarrow> (fst io, snd io @ ''!! error: '' @ bMessage ev @ [LF])
      | KIND_SUCCESS \<Rightarrow> (fst io, snd io @ ''** '' @ bMessage ev @ [LF])
      | _ \<Rightarrow> if bMessage ev \<noteq> [] then (fst io, snd io @ ''-- '' @ bMessage ev @ [LF]) else io)"

definition boot_printed :: "bool \<Rightarrow> boot_event list \<times> rpc_err option \<Rightarrow> cmd_result" where
  "boot_printed console_err r = (snd r, foldl (\<lambda>io ev. bootEventTo console_err ev io) ([], []) (fst r))"

subsection \<open>Commands\<close>

definition cmdStatus :: "(duration \<Rightarrow> string) \<Rightarrow> ('w, 'x) rpcs_scheme \<Rightarrow> client \<times> 'w \<Rightarrow> cmd_result \<times> client \<times> 'w" where
  "cmdStatus show_d a cw =
     (case rStatus a (fst cw) (snd cw) of
        (r, w) \<Rightarrow>
          (printed (\<lambda>s. (''version:        '' @ stVersion s @ [LF] @
             ''serial:         '' @ stSerialDevice s @ '' @ '' @ itoa (stSerialBaud s) @ '' (connected='' @ fmt_bool (SerialConnected s) @ '')'' @ [LF] @
             (if 0 < stPowerOutlet s then ''power state:    '' @ power_text (PowerState s) @ '' (outlet '' @ itoa (stPowerOutlet s) @ '')'' @ [LF]
              else ''power state:    '' @ power_text (PowerState s) @ [LF]) @
             (if SshTarget s \<noteq> [] then ''ssh target:     '' @ SshUser s @ ''@'' @ SshTarget s @ [LF]
              else ''ssh target:     (not configured)'' @ [LF]) @
             ''tftp:           '' @ TftpAddress s @ '' (dir '' @ TftpDir s @ '')'' @ [LF] @
             ''console buffer: '' @ itoa (ConsoleBufferBytes s) @ '' bytes'' @ [LF] @
             (if SessionActive s
              then ''session lock:   HELD by '' @ quote (SessionOwner s) @ '' (expires in '' @
                show_d (Round_second (unix_epoch + SessionExpiresAtUnixMs s * millisecond - rNow a w)) @ '')'' @ [LF]
              else ''session lock:   free'' @ [LF]), [])) r, fst cw, w))"

text \<open>The answer to a console stream: the chunks received, how \<open>Recv\<close> ended (\<open>None\<close> at the end of the stream) and
  whether the context was over by then.\<close>

definition cmdConsole :: "('w, 'x) rpcs_scheme \<Rightarrow> client \<times> 'w \<Rightarrow> cmd_result \<times> client \<times> 'w" where
  "cmdConsole a =
     with_client (\<lambda>c. rStream a c 8192)
       (\<lambda>r. case r of
          Inl e \<Rightarrow> (Some e, [], [])
        | Inr ((chunks, e), over) \<Rightarrow> (if over then None else e, concat chunks, []))"

text \<open>\<open>fmt.Sscanf(s, "%d", &n)\<close> on a \<open>uint32\<close> that stays zero on every error.\<close>

definition scan_uint32 :: "string \<Rightarrow> int" where
  "scan_uint32 s =
     (let ds = takeWhile is_digit (trim_left s ('' '' @ [TAB, CHR 0x0B, CHR 0x0C, CR]))
      in case parse_uint ds 10 32 of Some n \<Rightarrow> int n | None \<Rightarrow> 0)"

definition cmdLog :: "('w, 'x) rpcs_scheme \<Rightarrow> string list \<Rightarrow> client \<times> 'w \<Rightarrow> cmd_result \<times> client \<times> 'w" where
  "cmdLog a args =
     with_client (\<lambda>c. rLog a c (case args of [] \<Rightarrow> 0 | x # _ \<Rightarrow> scan_uint32 x))
       (printed (\<lambda>(d, trunc). (d, if trunc then [LF] @ ''[buffer truncated]'' @ [LF] else [])))"

definition cmdWrite :: "('w, 'x) rpcs_scheme \<Rightarrow> string list \<Rightarrow> cmd_opts \<Rightarrow> client \<times> 'w \<Rightarrow> cmd_result \<times> client \<times> 'w" where
  "cmdWrite a args o1 =
     with_client (\<lambda>c. rWrite a c (join_str args '' '') (if coKeys o1 \<noteq> [] then split_char (coKeys o1) (CHR '','') else []))
       (printed (\<lambda>n. ([], ''wrote '' @ itoa n @ '' bytes'' @ [LF])))"

definition cmdPower :: "('w, 'x) rpcs_scheme \<Rightarrow> string list \<Rightarrow> client \<times> 'w \<Rightarrow> cmd_result \<times> client \<times> 'w" where
  "cmdPower a args cw =
     (case args of
        [] \<Rightarrow> (fails_with ''power requires on|off|cycle|status'', cw)
      | x # _ \<Rightarrow>
          (case power_actions x of
             None \<Rightarrow> (fails_with (''invalid power action '' @ quote x), cw)
           | Some act \<Rightarrow>
               with_client (\<lambda>c. rPower a c act)
                 (printed (\<lambda>(st, detail). (''power state: '' @ power_text st @ [LF] @ (if detail \<noteq> [] then detail @ [LF] else []), []))) cw))"

definition cmdInterrupt :: "('w, 'x) rpcs_scheme \<Rightarrow> cmd_opts \<Rightarrow> client \<times> 'w \<Rightarrow> cmd_result \<times> client \<times> 'w" where
  "cmdInterrupt a o1 =
     with_client (\<lambda>c. rInterrupt a c (coTimeout o1) (coPowerCycle o1) (Milliseconds (coTimeout o1))) (boot_printed False)"

definition cmdUboot :: "('w, 'x) rpcs_scheme \<Rightarrow> string list \<Rightarrow> cmd_opts \<Rightarrow> client \<times> 'w \<Rightarrow> cmd_result \<times> client \<times> 'w" where
  "cmdUboot a args o1 cw =
     (if args = [] then (fails_with ''uboot requires a command'', cw)
      else case (if coPowerCycle o1
                 then with_client (\<lambda>c. rInterrupt a c (coTimeout o1) True (Milliseconds (coTimeout o1))) (boot_printed True) cw
                 else ((None, [], []), cw)) of
             ((Some e, out, err), cw1) \<Rightarrow> ((Some e, out, err), cw1)
           | ((None, out, err), cw1) \<Rightarrow>
               with_client (\<lambda>c. rUboot a c (Some (coTimeout o1)) (join_str args '' '') (Milliseconds (coTimeout o1)))
                 (\<lambda>r. case r of
                    Inl e \<Rightarrow> (Some e, out, err)
                  | Inr (o2, back) \<Rightarrow>
                      (None, out @ o2, err @ (if back then [] else ''[warning: U-Boot prompt did not return]'' @ [LF]))) cw1)"

definition cmdNetboot :: "('w, 'x) rpcs_scheme \<Rightarrow> string list \<Rightarrow> cmd_opts \<Rightarrow> client \<times> 'w \<Rightarrow> cmd_result \<times> client \<times> 'w" where
  "cmdNetboot a args o1 cw =
     (case args of
        [] \<Rightarrow> (fails_with ''netboot requires an image name'', cw)
      | x # _ \<Rightarrow>
          with_client (\<lambda>c. rNetboot a c (coTimeout o1)
              \<lparr>qImage = x, qPowerCycle = coPowerCycle o1, qKernelArgs = coKernelArgs o1, qVerify = coVerify o1,
               qTimeoutMs = Milliseconds (coTimeout o1)\<rparr>) (boot_printed False) cw)"

definition pad_left :: "nat \<Rightarrow> string \<Rightarrow> string" where
  "pad_left n s = replicate (n - length s) (CHR '' '') @ s"

definition pad_right :: "nat \<Rightarrow> string \<Rightarrow> string" where
  "pad_right n s = s @ replicate (n - length s) (CHR '' '')"

definition ls_line :: "(int \<Rightarrow> string) \<Rightarrow> string \<times> int \<times> int \<times> 32 word \<Rightarrow> string" where
  "ls_line date im =
     (case im of (n, sz, mt, crc) \<Rightarrow>
        pad_right 60 n @ '' '' @ pad_left 10 (itoa sz) @ ''  crc32='' @ fmt_crc crc @ ''  '' @ date mt @ [LF])"

definition cmdImage :: "(int \<Rightarrow> string) \<Rightarrow> ('w, 'x) rpcs_scheme \<Rightarrow> string list \<Rightarrow> client \<times> 'w \<Rightarrow> cmd_result \<times> client \<times> 'w" where
  "cmdImage date a args cw =
     (case args of
        [] \<Rightarrow> (fails_with ''image requires ls|upload|rm'', cw)
      | x # xs \<Rightarrow>
          if x = ''ls''
          then with_client (rImages a)
                 (printed (\<lambda>ims. ((if ims = [] then ''(no images)'' @ [LF] else []) @ concat (map (ls_line date) ims), []))) cw
          else if x = ''upload''
          then (case xs of
                  [] \<Rightarrow> (fails_with ''image upload requires a file path'', cw)
                | f # _ \<Rightarrow>
                    with_client (\<lambda>c. rUpload a c f True)
                      (printed (\<lambda>i. (''uploaded '' @ im_name i @ '': '' @ itoa (im_size i) @ '' bytes, crc32='' @ fmt_crc (im_crc32 i) @
                         '', sha256='' @ im_sha256 i @ [LF], []))) cw)
          else if x = ''rm''
          then (case xs of
                  [] \<Rightarrow> (fails_with ''image rm requires a name'', cw)
                | n # _ \<Rightarrow> with_client (\<lambda>c. rDelete a c n) (printed (\<lambda>_. (''deleted '' @ n @ [LF], []))) cw)
          else (fails_with (''unknown image subcommand '' @ quote x), cw))"

definition cmdSSH :: "('w, 'x) rpcs_scheme \<Rightarrow> string list \<Rightarrow> cmd_opts \<Rightarrow> client \<times> 'w \<Rightarrow> cmd_result \<times> client \<times> 'w" where
  "cmdSSH a args o1 cw =
     (if coProxy o1 then with_client (rTunnel a) (\<lambda>e. (e, [], [])) cw
      else if args = [] then (fails_with ''ssh requires a command (or -W for proxy mode)'', cw)
      else with_client (\<lambda>c. rSSH a c (join_str args '' '') (Milliseconds (coTimeout o1)))
             (\<lambda>r. case r of
                Inl e \<Rightarrow> (Some e, [], [])
              | Inr x \<Rightarrow>
                  (if TimedOut x then Some (Plain (Err ''ssh command timed out''))
                   else if ExitCode x \<noteq> 0 then Some (Plain (Err (''ssh command exited '' @ itoa (ExitCode x))))
                   else None, Stdout x, Stderr x)) cw)"

definition cmdSCP :: "('w, 'x) rpcs_scheme \<Rightarrow> string list \<Rightarrow> cmd_opts \<Rightarrow> client \<times> 'w \<Rightarrow> cmd_result \<times> client \<times> 'w" where
  "cmdSCP a args o1 cw =
     (case args of
        [src, dst] \<Rightarrow>
          if prefix '':'' src \<and> \<not> prefix '':'' dst
          then with_client (\<lambda>c. rScpDown a c (trim_prefix src '':'') dst (coTimeout o1))
                 (printed (\<lambda>n. ([], ''downloaded '' @ itoa n @ '' bytes to '' @ dst @ [LF]))) cw
          else if prefix '':'' dst \<and> \<not> prefix '':'' src
          then with_client (\<lambda>c. rScpUp a c src (trim_prefix dst '':'') (coTimeout o1))
                 (printed (\<lambda>n. ([], ''uploaded '' @ itoa n @ '' bytes to '' @ dst @ [LF]))) cw
          else (fails_with (''exactly one of <src>/<dst> must be a target path prefixed with '' @ [CHR 0x27, CHR '':'', CHR 0x27]), cw)
      | _ \<Rightarrow> (fails_with (''scp requires <src> <dst>; prefix the target-side path with '' @ [CHR 0x27, CHR '':'', CHR 0x27]), cw))"

definition passFail :: "bool \<Rightarrow> string" where
  "passFail ok = (if ok then ''PASS'' else ''FAIL'')"

definition smoke_opts :: "string \<Rightarrow> cmd_opts \<Rightarrow> smoke_config" where
  "smoke_opts img o1 =
     \<lparr>ImagePath = img, ImageName = [], smKernelArgs = coKernelArgs o1, SuccessPattern = [], FailurePattern = [],
      BootTimeout = coTimeout o1, NetbootTimeout = 0, smVerifyCRC32 = coVerify o1, SSHCommand = coSshCommand o1,
      SSHExpect = coSshExpect o1, SSHTimeout = coSshTimeout o1\<rparr>"

text \<open>Progress lines and the live copy of the console, which go to standard error as well, are left out.\<close>

definition cmdSmoke :: "(duration \<Rightarrow> string) \<Rightarrow> ('w, 'x) rpcs_scheme \<Rightarrow> string list \<Rightarrow> cmd_opts \<Rightarrow> client \<times> 'w \<Rightarrow> cmd_result \<times> client \<times> 'w" where
  "cmdSmoke show_d a args o1 cw =
     (case args of
        [] \<Rightarrow> (fails_with ''smoke requires an image file path'', cw)
      | x # _ \<Rightarrow>
          (case rSmoke a (fst cw) (smoke_opts x o1) (snd cw) of
             (Inl e, w) \<Rightarrow> ((Some e, [], []), fst cw, w)
           | (Inr (res, took), w) \<Rightarrow>
               let e1 = (if SSHOutput res \<noteq> [] then ''smoke: ssh '' @ quote (coSshCommand o1) @ '' output:'' @ [LF] @ SSHOutput res @ [LF] else [])
               in (case (if coOut o1 \<noteq> [] then rWriteFile a (coOut o1) (BootLog res) w else (None, w)) of
                     (Some y, w1) \<Rightarrow> ((Some (Plain (Wrap ''write boot log'' y)), [], e1), fst cw, w1)
                   | (None, w1) \<Rightarrow>
                       let e2 = (if coOut o1 \<noteq> [] then ''smoke: boot log written to '' @ coOut o1 @ '' ('' @ itoa (int (length (BootLog res))) @ '' bytes)'' @ [LF]
                                 else []);
                           e3 = ''smoke: '' @ passFail (Success res) @ '' in '' @ show_d (Round_second took) @ '': '' @ Reason res @ [LF]
                       in ((if Success res then None else Some (Plain (Err (''smoke test FAILED: '' @ Reason res))), [], e1 @ e2 @ e3), fst cw, w1))))"

subsection \<open>The program\<close>

record 'w cli_env =
  ceClient :: client_env
  ceTls :: tls_lib
  ceNew :: "string \<Rightarrow> goerr option"
  ceLookup :: "string \<Rightarrow> string \<Rightarrow> string \<Rightarrow> goerr + srv list"
  ceHost :: "goerr + string"
  ceParse :: "string \<Rightarrow> duration option"
  ceShow :: "duration \<Rightarrow> string"
  ceDate :: "int \<Rightarrow> string"
  ceUsage :: "string \<Rightarrow> string"
  ceRpcs :: "'w rpcs"

definition dispatch :: "'w cli_env \<Rightarrow> string \<Rightarrow> string list \<Rightarrow> cmd_opts \<Rightarrow> client \<times> 'w \<Rightarrow> cmd_result \<times> client \<times> 'w" where
  "dispatch en cmd args o1 =
     (let a = ceRpcs en
      in if cmd = ''status'' then cmdStatus (ceShow en) a
         else if cmd = ''console'' then cmdConsole a
         else if cmd = ''log'' then cmdLog a args
         else if cmd = ''write'' then cmdWrite a args o1
         else if cmd = ''power'' then cmdPower a args
         else if cmd = ''interrupt'' then cmdInterrupt a o1
         else if cmd = ''uboot'' then cmdUboot a args o1
         else if cmd = ''netboot'' then cmdNetboot a args o1
         else if cmd = ''image'' then cmdImage (ceDate en) a args
         else if cmd = ''ssh'' then cmdSSH a args o1
         else if cmd = ''scp'' then cmdSCP a args o1
         else if cmd = ''smoke'' then cmdSmoke (ceShow en) a args o1
         else (\<lambda>cw. (fails_with (''unknown command '' @ quote cmd @ '' (see -h)''), cw)))"

definition lockFreeCommands :: "string list" where
  "lockFreeCommands = [''status'', ''console'', ''log'']"

definition cli_ownerLabel :: "client_env \<Rightarrow> goerr + string \<Rightarrow> string \<Rightarrow> string" where
  "cli_ownerLabel en hostname override =
     (if override \<noteq> [] then override
      else let u = (if Getenv en ''USER'' = [] then ''unwedge'' else Getenv en ''USER'')
           in case hostname of
                Inr h \<Rightarrow> if h \<noteq> [] then u @ ''@'' @ h else u
              | Inl _ \<Rightarrow> u)"

definition status_message :: "rpc_err \<Rightarrow> string" where
  "status_message e = (case e of Status _ m \<Rightarrow> m | Plain x \<Rightarrow> err_text x)"

text \<open>\<open>maybeAcquire\<close>: the error, the interval of the keepalive when there is a session to release, and the notice.\<close>

definition maybeAcquire :: "('w, 'x) api_scheme \<Rightarrow> string \<Rightarrow> duration \<Rightarrow> client \<times> 'w
    \<Rightarrow> (rpc_err option \<times> duration option \<times> bytes) \<times> client \<times> 'w" where
  "maybeAcquire a own wait cw =
     (case Acquire (api.truncate a) own (- 1) cw of
        (Inr se, cw1) \<Rightarrow> ((None, Some (keepalive_interval (sesLife se div 3)), []), cw1)
      | (Inl e, cw1) \<Rightarrow>
          if status_code e = Some Code_Unimplemented then ((None, None, []), cw1)
          else if status_code e = Some Code_FailedPrecondition
          then (let msg = ''unwedge: '' @ status_message e @ ''; waiting for the hardware lock...'' @ [LF]
                in case Acquire (api.truncate a) own wait cw1 of
                     (Inl e2, cw2) \<Rightarrow> ((Some e2, None, msg), cw2)
                   | (Inr se, cw2) \<Rightarrow> ((None, Some (keepalive_interval (sesLife se div 3)), msg), cw2))
          else ((Some e, None, []), cw1))"

definition op_flags :: "(string \<times> flag_kind) list" where
  "op_flags =
     [(''keys'', FString), (''out'', FString), (''kernel-args'', FString), (''ssh-command'', FString), (''ssh-expect'', FString),
      (''ssh-timeout'', FDuration), (''verify'', FBool), (''power-cycle'', FBool), (''timeout'', FDuration)]"

text \<open>What runs: the command, its arguments and options, whether the lock is wanted, the owner and the wait.\<close>

record cli_setup =
  suCmd :: string
  suArgs :: "string list"
  suOpts :: cmd_opts
  suLock :: bool
  suOwner :: string
  suWait :: duration

definition error_line :: "string \<Rightarrow> bytes" where
  "error_line s = ''error: '' @ s @ [LF]"

definition flag_error :: "'w cli_env \<Rightarrow> string \<Rightarrow> goerr \<Rightarrow> bytes" where
  "flag_error en cmd e = (if e = Err ''flag: help requested'' then [] else err_text e @ [LF]) @ ceUsage en cmd"

definition opts_of :: "'w cli_env \<Rightarrow> (string \<times> string) list \<Rightarrow> (string \<times> string) list \<Rightarrow> cmd_opts" where
  "opts_of en got sub =
     (let s = (\<lambda>n. flag_str sub n (flag_str got n [])); d = (\<lambda>n def. flag_dur (ceParse en) sub n (flag_dur (ceParse en) got n def))
      in \<lparr>coKeys = s ''keys'', coOut = s ''out'', coKernelArgs = s ''kernel-args'',
          coVerify = flag_bool sub ''verify'' (flag_bool got ''verify'' False),
          coPowerCycle = flag_bool sub ''power-cycle'' (flag_bool got ''power-cycle'' True),
          coTimeout = d ''timeout'' (8 * minute), coProxy = flag_bool sub ''W'' False,
          coSshCommand = s ''ssh-command'', coSshExpect = s ''ssh-expect'', coSshTimeout = d ''ssh-timeout'' (90 * second)\<rparr>)"

definition setup_of :: "'w cli_env \<Rightarrow> string list \<Rightarrow> nat \<times> bytes + cli_setup" where
  "setup_of en args =
     (case Resolve (ceClient en) (PreScanConfig args) of
        Inl e \<Rightarrow> Inl (1, error_line (err_text e))
      | Inr d \<Rightarrow>
     (case parse_flags (ceParse en) (conn_flags @ op_flags @ [(''no-session'', FBool)]) args [] of
        Inl e \<Rightarrow> Inl (2, flag_error en ''unwedge'' e)
      | Inr (got, rest) \<Rightarrow>
     (case endpoint_of d (ceLookup en) got of
        Inl e \<Rightarrow> Inl (1, error_line (err_text e))
      | Inr o1 \<Rightarrow>
     (case rest of
        [] \<Rightarrow> Inl (2, ceUsage en ''unwedge'')
      | cmd # xs \<Rightarrow>
     (case Dial (ceTls en) (ceNew en) o1 of
        Inl e \<Rightarrow> Inl (1, error_line (err_text e))
      | Inr _ \<Rightarrow>
     (case parse_flags (ceParse en) (op_flags @ [(''W'', FBool)]) xs [] of
        Inl e \<Rightarrow> Inl (2, flag_error en cmd e)
      | Inr (sub, ys) \<Rightarrow>
          Inr \<lparr>suCmd = cmd, suArgs = ys, suOpts = opts_of en got sub,
               suLock = (\<not> flag_bool got ''no-session'' False \<and> cmd \<notin> set lockFreeCommands),
               suOwner = cli_ownerLabel (ceClient en) (ceHost en) (flag_str got ''session-owner'' []),
               suWait = flag_dur (ceParse en) got ''session-wait'' (10 * minute)\<rparr>))))))"

text \<open>\<open>realMain\<close>: the exit code, standard output and standard error. The release function is deferred: it
  runs after the command, whatever its outcome.\<close>

definition realMain :: "'w cli_env \<Rightarrow> string list \<Rightarrow> 'w \<Rightarrow> (nat \<times> bytes \<times> bytes) \<times> 'w" where
  "realMain en args w =
     (case setup_of en args of
        Inl (k, err) \<Rightarrow> ((k, [], err), w)
      | Inr su \<Rightarrow>
     (case (if suLock su then maybeAcquire (ceRpcs en) (suOwner su) (suWait su) ([], w) else ((None, None, []), [], w)) of
        ((Some e, _, msg), cw) \<Rightarrow> ((1, [], msg @ error_line (rpc_text e)), snd cw)
      | ((None, keep, msg), cw) \<Rightarrow>
          (case dispatch en (suCmd su) (suArgs su) (suOpts su) cw of
             ((e, out, err), cw1) \<Rightarrow>
               (case (if keep = None then (None, cw1) else Release (api.truncate (ceRpcs en)) cw1) of
                  (_, cw2) \<Rightarrow>
                    ((if e = None then 0 else 1, out,
                      msg @ err @ (case e of None \<Rightarrow> [] | Some x \<Rightarrow> error_line (rpc_text x))), snd cw2)))))"

subsection \<open>The lock around a command\<close>

lemma with_client_keeps [simp]: "fst (snd (with_client f k cw)) = fst cw"
  by (simp add: with_client_def split: prod.split)

text \<open>No command changes the client's session.\<close>

lemma dispatch_client: "fst (snd (dispatch en cmd args o1 cw)) = fst cw"
proof -
  have 1: "fst (snd (cmdStatus d a cw)) = fst cw" "fst (snd (cmdConsole a cw)) = fst cw" "fst (snd (cmdLog a args cw)) = fst cw"
    "fst (snd (cmdWrite a args o1 cw)) = fst cw" "fst (snd (cmdInterrupt a o1 cw)) = fst cw" "fst (snd (cmdSSH a args o1 cw)) = fst cw"
    for a :: "('a, 'b) rpcs_scheme" and d and cw :: "client \<times> 'a"
    by (simp_all add: cmdStatus_def cmdConsole_def cmdLog_def cmdWrite_def cmdInterrupt_def cmdSSH_def split: prod.split)
  have 2: "fst (snd (cmdPower a args cw)) = fst cw" "fst (snd (cmdNetboot a args o1 cw)) = fst cw" "fst (snd (cmdImage dt a args cw)) = fst cw"
    "fst (snd (cmdSCP a args o1 cw)) = fst cw"
    for a :: "('a, 'b) rpcs_scheme" and dt and cw :: "client \<times> 'a"
    by (auto simp: cmdPower_def cmdNetboot_def cmdImage_def cmdSCP_def split: list.split option.split)
  have 3: "fst (snd (cmdUboot a args o1 cw)) = fst cw" for a :: "('a, 'b) rpcs_scheme" and cw :: "client \<times> 'a"
    by (auto simp: cmdUboot_def with_client_def split: prod.split option.split)
  have 4: "fst (snd (cmdSmoke d a args o1 cw)) = fst cw" for a :: "('a, 'b) rpcs_scheme" and d and cw :: "client \<times> 'a"
    by (auto simp: cmdSmoke_def Let_def split: list.split prod.split sum.split option.split)
  show ?thesis by (simp add: dispatch_def Let_def 1 2 3 4)
qed

context session_service
begin

lemma maybeAcquired:
  assumes good "api.truncate b = a" "maybeAcquire b own wait ([], w) = ((e, keep, msg), c', w')"
  shows "rest w' = rest w \<and> (e \<noteq> None \<or> keep \<noteq> None \<and> c' \<noteq> [] \<and> holder w' = c')"
proof -
  obtain x c1 w1 where A: "Acquire a own (- 1) ([], w) = (x, c1, w1)" by (metis prod_cases3)
  show ?thesis
  proof (cases x)
    case (Inr se)
    with assms(3) acquired [OF assms(1) A [unfolded Inr]] show ?thesis by (auto simp: maybeAcquire_def assms(2) A)
  next
    case (Inl x1)
    note n = not_acquired [OF A [unfolded Inl]]
    obtain y c2 w2 where B: "Acquire a own wait ([], w1) = (y, c2, w2)" by (metis prod_cases3)
    from n have A': "Acquire a own (- 1) ([], w) = (Inl x1, [], w1)" using A Inl by simp
    show ?thesis
    proof (cases y)
      case (Inl y1)
      with assms(3) n not_acquired [OF B [unfolded Inl]] show ?thesis
        by (auto simp: maybeAcquire_def assms(2) A' B Let_def split: if_splits)
    next
      case (Inr se)
      with assms(3) n acquired [OF assms(1) B [unfolded Inr]] show ?thesis
        by (auto simp: maybeAcquire_def assms(2) A' B Let_def split: if_splits)
    qed
  qed
qed

end


text \<open>A power cycle against the lock of a session that has expired; the handler counts its runs.\<close>

definition rpcs0 :: "int gated rpcs" where
  "rpcs0 =
     \<lparr>apiStart = gd_start lock_env0, apiFinish = gd_finish, apiPing = gd_ping lock_env0,
      rStatus = (\<lambda>_ w. (Inl (Plain Canceled), w)), rLog = (\<lambda>_ _ w. (Inl (Plain Canceled), w)), rStream = (\<lambda>_ _ w. (Inl (Plain Canceled), w)),
      rWrite = (\<lambda>_ _ _ w. (Inl (Plain Canceled), w)), rWait = (\<lambda>_ _ _ _ w. (Inl (Plain Canceled), w)),
      rPower = (\<lambda>c act. gd_unary lock_env0 (full_method ''PowerControl'') (\<lambda>(m, j). (Inr (1, []), m, j + 1)) c),
      rUboot = (\<lambda>_ _ _ _ w. (Inl (Plain Canceled), w)), rInterrupt = (\<lambda>_ _ _ _ w. (([], None), w)), rNetboot = (\<lambda>_ _ _ w. (([], None), w)),
      rImages = (\<lambda>_ w. (Inl (Plain Canceled), w)), rUpload = (\<lambda>_ _ _ w. (Inl (Plain Canceled), w)), rDelete = (\<lambda>_ _ w. (Inl (Plain Canceled), w)),
      rSSH = (\<lambda>_ _ _ w. (Inl (Plain Canceled), w)), rTunnel = (\<lambda>_ w. (None, w)), rScpUp = (\<lambda>_ _ _ _ w. (Inl (Plain Canceled), w)),
      rScpDown = (\<lambda>_ _ _ _ w. (Inl (Plain Canceled), w)), rSmoke = (\<lambda>_ _ w. (Inl (Plain Canceled), w)),
      rWriteFile = (\<lambda>_ _ w. (None, w)), rNow = (\<lambda>_. 0)\<rparr>"

definition cli0 :: "int gated cli_env" where
  "cli0 =
     \<lparr>ceClient = \<lparr>Getenv = (\<lambda>_. []), UserHomeDir = Inl Canceled, cReadFile = (\<lambda>_. Inl Canceled), cUnmarshal = (\<lambda>_. Inl Canceled)\<rparr>,
      ceTls = \<lparr>LoadX509KeyPair = (\<lambda>_ _. None), readFile = (\<lambda>_. Inl Canceled), AppendCertsFromPEM = (\<lambda>_. [])\<rparr>, ceNew = (\<lambda>_. None), ceLookup = (\<lambda>_ _ _. Inl Canceled),
      ceHost = Inr ''ci'', ceParse = (\<lambda>_. None), ceShow = (\<lambda>_. []), ceDate = (\<lambda>_. []), ceUsage = (\<lambda>_. []), ceRpcs = rpcs0\<rparr>"

definition setup0 :: cli_setup where
  "setup0 =
     \<lparr>suCmd = ''power'', suArgs = [''cycle''],
      suOpts = \<lparr>coKeys = [], coOut = [], coKernelArgs = [], coVerify = False, coPowerCycle = True, coTimeout = 8 * minute, coProxy = False,
                coSshCommand = [], coSshExpect = [], coSshTimeout = 90 * second\<rparr>,
      suLock = True, suOwner = ''unwedge@ci'', suWait = 10 * minute\<rparr>"

lemma setup_of_cli0: "setup_of cli0 [''-no-tls'', ''power'', ''cycle''] = Inr setup0"
  by code_simp

lemma realMain_cli0:
  "\<exists>out err n' m'. realMain cli0 [''-no-tls'', ''power'', ''cycle''] (0, held, 0) = ((0, out, err), n', m', 1)"
proof -
  have e: "api.truncate (ceRpcs cli0) = gd_api lock_env0"
    "rPower (ceRpcs cli0) c act = gd_unary lock_env0 (full_method ''PowerControl'') (\<lambda>(m, j). (Inr (1, []), m, j + 1)) c"
    for c act by (simp_all add: cli0_def rpcs0_def gd_api_def api.truncate_def)
  have g: "full_method ''PowerControl'' \<notin> set sessionExemptMethods" by (simp add: sessionExemptMethods_def full_method_def)
  have l: "eClk lock_env0 i = 200 + int i" "eGen lock_env0 i = ''s9''" for i by (simp_all add: lock_env0_def)
  have f: "id_m (expireIfIdleLocked (eClk lock_env0 0) held) = []" "ttl held = 50"
    by (simp_all add: l held_def NewManager_def expiresAtLocked_def expireIfIdleLocked_def)
  obtain r m1 where G: "gd_start lock_env0 (suOwner setup0) (wait_ms (- 1)) (0, held, 0 :: int) = (Inr r, 1, m1, 0)" "SessionId r = ''s9''"
    "holds 201 ''s9'' m1"
    using gd_start_free [of lock_env0 0 held "suOwner setup0" "wait_ms (- 1)" "0 :: int" 201, OF f(1)] f(2) by (auto simp: l)
  have "\<exists>keep msg. maybeAcquire (ceRpcs cli0) (suOwner setup0) (suWait setup0) ([], 0, held, 0) = ((None, Some keep, msg), ''s9'', 1, m1, 0)"
    using G by (simp add: maybeAcquire_def e(1) Acquire_def gd_api_def)
  then obtain keep msg where A: "maybeAcquire (ceRpcs cli0) (suOwner setup0) (suWait setup0) ([], 0, held, 0) = ((None, Some keep, msg), ''s9'', 1, m1, 0)"
    by blast
  have "dispatch cli0 (suCmd setup0) (suArgs setup0) (suOpts setup0) = cmdPower (ceRpcs cli0) [''cycle'']"
    by (simp add: setup0_def dispatch_def Let_def)
  moreover have "\<exists>out err n2 m2. cmdPower (ceRpcs cli0) [''cycle''] (''s9'', 1, m1, 0) = ((None, out, err), ''s9'', n2, m2, 1)"
    using G(3) g
    by (simp add: cmdPower_def power_actions_def with_client_def e(2) gd_unary_def UnaryInterceptor_def CallStart_holds l printed_def)
  ultimately obtain out err n2 m2 where D: "dispatch cli0 (suCmd setup0) (suArgs setup0) (suOpts setup0) (''s9'', 1, m1, 0) = ((None, out, err), ''s9'', n2, m2, 1)"
    by auto
  obtain x c3 n3 m3 s3 where R: "Release (gd_api lock_env0) (''s9'', n2, m2, 1 :: int) = (x, c3, n3, m3, s3)" by (metis prod.collapse)
  with gd.released [OF _ R] have "s3 = 1" by simp
  moreover have "suLock setup0" by (simp add: setup0_def)
  ultimately show ?thesis by (simp add: realMain_def setup_of_cli0 A D [unfolded One_nat_def] e(1) R [unfolded One_nat_def])
qed


end
